(* ===== verification/Prelude.thy ===== *)
theory Prelude
  imports Main "HOL-Library.Word"
begin

text \<open>
  What every component of the Clover development shares.

  \<^item> Rust's machine integers as words of their width, with the checked and
    saturating operations of the standard library, each characterised on
    \<open>unat\<close> so that the component proofs are natural-number arithmetic;
  \<^item> Rust's \<open>Result\<close>, and computations over a storage state that may stop with
    an error: the state reached is returned in both cases, because a pallet
    function that is not transactional keeps its writes when it fails;
  \<^item> fixed-size byte arrays \<open>[u8; N]\<close> as a type indexed by their length;
  \<^item> storage maps: iterated ones as association lists, the others as HOL maps,
    and the sum of a quantity over the entries of a map;
  \<^item> two generic interfaces, \<open>step_invariant\<close> and \<open>step_order\<close>, that lift a
    property of one step of a state machine to every run; each stateful
    component interprets them on its own step function.
\<close>

section \<open>Machine integers\<close>

type_synonym u8 = "8 word"
type_synonym u16 = "16 word"
type_synonym u32 = "32 word"
type_synonym u64 = "64 word"
type_synonym u128 = "128 word"

definition checked_add :: "'n::len word \<Rightarrow> 'n word \<Rightarrow> 'n word option" where
  "checked_add a b = (if unat a + unat b < 2 ^ LENGTH('n) then Some (a + b) else None)"

definition checked_sub :: "'n::len word \<Rightarrow> 'n word \<Rightarrow> 'n word option" where
  "checked_sub a b = (if b \<le> a then Some (a - b) else None)"

definition checked_mul :: "'n::len word \<Rightarrow> 'n word \<Rightarrow> 'n word option" where
  "checked_mul a b = (if unat a * unat b < 2 ^ LENGTH('n) then Some (a * b) else None)"

definition saturating_add :: "'n::len word \<Rightarrow> 'n word \<Rightarrow> 'n word" where
  "saturating_add a b = (if unat a + unat b < 2 ^ LENGTH('n) then a + b else - 1)"

definition saturating_sub :: "'n::len word \<Rightarrow> 'n word \<Rightarrow> 'n word" where
  "saturating_sub a b = (if b \<le> a then a - b else 0)"

definition saturating_mul :: "'n::len word \<Rightarrow> 'n word \<Rightarrow> 'n word" where
  "saturating_mul a b = (if unat a * unat b < 2 ^ LENGTH('n) then a * b else - 1)"

text \<open>\<open>saturated_into\<close> between unsigned widths: the value, or the target's maximum.\<close>

definition saturated_into :: "'m::len word \<Rightarrow> 'n::len word" where
  "saturated_into a = (if unat a < 2 ^ LENGTH('n) then of_nat (unat a) else - 1)"

text \<open>\<open>unique_saturated_into\<close> from \<open>u128\<close> to \<open>i128\<close>, the amount read as an integer.\<close>

definition saturated_amount :: "u128 \<Rightarrow> int" where
  "saturated_amount a = min (int (unat a)) (2 ^ 127 - 1)"

section \<open>Results and computations over a state\<close>

datatype ('a, 'e) result = Ok 'a | Err 'e

type_synonym ('s, 'a, 'e) comp = "'s \<Rightarrow> 's \<times> ('a, 'e) result"

definition ok :: "'a \<Rightarrow> ('s, 'a, 'e) comp" where
  "ok x = (\<lambda>s. (s, Ok x))"

definition fail :: "'e \<Rightarrow> ('s, 'a, 'e) comp" where
  "fail e = (\<lambda>s. (s, Err e))"

text \<open>Sequencing, the \<open>?\<close> operator: an error stops with the state reached so far.\<close>

definition and_then :: "('s, 'a, 'e) comp \<Rightarrow> ('a \<Rightarrow> ('s, 'b, 'e) comp) \<Rightarrow> ('s, 'b, 'e) comp" where
  "and_then m f = (\<lambda>s. case m s of (t, Ok x) \<Rightarrow> f x t | (t, Err e) \<Rightarrow> (t, Err e))"

definition ensure :: "bool \<Rightarrow> 'e \<Rightarrow> ('s, unit, 'e) comp" where
  "ensure b e = (if b then ok () else fail e)"

definition lift :: "('a, 'e) result \<Rightarrow> ('s, 'a, 'e) comp" where
  "lift r = (\<lambda>s. (s, r))"

definition ok_or :: "'a option \<Rightarrow> 'e \<Rightarrow> ('a, 'e) result" where
  "ok_or x e = (case x of Some y \<Rightarrow> Ok y | None \<Rightarrow> Err e)"

definition result_bind :: "('a, 'e) result \<Rightarrow> ('a \<Rightarrow> ('b, 'e) result) \<Rightarrow> ('b, 'e) result" where
  "result_bind r f = (case r of Ok x \<Rightarrow> f x | Err e \<Rightarrow> Err e)"

definition gets :: "('s \<Rightarrow> 'a) \<Rightarrow> ('s, 'a, 'e) comp" where
  "gets f = (\<lambda>s. (s, Ok (f s)))"

definition modify :: "('s \<Rightarrow> 's) \<Rightarrow> ('s, unit, 'e) comp" where
  "modify f = (\<lambda>s. (f s, Ok ()))"

text \<open>A computation of a part of the state, run inside the whole.\<close>

definition zoom :: "('s \<Rightarrow> 'p) \<Rightarrow> ('p \<Rightarrow> 's \<Rightarrow> 's) \<Rightarrow> ('p, 'a, 'e) comp \<Rightarrow> ('s, 'a, 'e) comp" where
  "zoom rd wr m = (\<lambda>s. case m (rd s) of (p, r) \<Rightarrow> (wr p s, r))"

text \<open>A storage transaction: on an error every write is rolled back.\<close>

definition transactional :: "('s, 'a, 'e) comp \<Rightarrow> ('s, 'a, 'e) comp" where
  "transactional m = (\<lambda>s. case m s of (t, Ok x) \<Rightarrow> (t, Ok x) | (t, Err e) \<Rightarrow> (s, Err e))"

text \<open>A call that may also panic, where the source panics instead of returning an error.\<close>

datatype 'a may_panic = Returns 'a | Panics

section \<open>Byte arrays\<close>

typedef (overloaded) ('n::len) bytes = "{xs :: u8 list. length xs = LENGTH('n)}"
  morphisms bytes_list Bytes
  by (rule exI [of _ "replicate LENGTH('n) 0"]) simp

text \<open>\<open>copy_from_slice\<close> and \<open>from_slice\<close> into \<open>[u8; N]\<close>: they panic unless the lengths agree.\<close>

definition array_from_slice :: "u8 list \<Rightarrow> 'n::len bytes may_panic" where
  "array_from_slice xs = (if length xs = LENGTH('n) then Returns (Bytes xs) else Panics)"

definition zero_array :: "'n::len bytes" where
  "zero_array = Bytes (replicate LENGTH('n) 0)"

instantiation bytes :: (len) equal
begin

definition equal_bytes :: "'a bytes \<Rightarrow> 'a bytes \<Rightarrow> bool" where
  "equal_bytes a b \<longleftrightarrow> bytes_list a = bytes_list b"

instance
  by standard (simp add: equal_bytes_def bytes_list_inject)

end

text \<open>A byte-string literal.\<close>

definition ascii :: "string \<Rightarrow> u8 list" where
  "ascii s = map of_char s"

text \<open>The macro \<open>hex!\<close>.\<close>

definition hex_digit :: "char \<Rightarrow> u8" where
  "hex_digit ch =
     (let n = of_char ch :: u8 in if n \<le> 57 then n - 48 else if n \<le> 70 then n - 55 else n - 87)"

fun hex_literal :: "string \<Rightarrow> u8 list" where
  "hex_literal (a # b # cs) = (hex_digit a * 16 + hex_digit b) # hex_literal cs"
| "hex_literal _ = []"

section \<open>Storage maps\<close>

type_synonym ('k, 'v) smap = "('k \<times> 'v) list"

fun smap_insert :: "'k \<Rightarrow> 'v \<Rightarrow> ('k, 'v) smap \<Rightarrow> ('k, 'v) smap" where
  "smap_insert k v [] = [(k, v)]"
| "smap_insert k v (e # es) = (if fst e = k then (k, v) # es else e # smap_insert k v es)"

definition map_total :: "('v \<Rightarrow> nat) \<Rightarrow> ('k \<rightharpoonup> 'v) \<Rightarrow> nat" where
  "map_total f m = (\<Sum>k\<in>dom m. f (the (m k)))"

section \<open>Runs of a state machine\<close>

definition run :: "('l \<Rightarrow> 's \<Rightarrow> 's) \<Rightarrow> 'l list \<Rightarrow> 's \<Rightarrow> 's" where
  "run step = fold step"

section \<open>Laws of the integer operations\<close>

named_theorems word_nat "characterisations of machine arithmetic on natural numbers"

lemma unat_eq_iff: "a = b \<longleftrightarrow> unat a = unat b" for a b :: "'n::len word"
  by (rule word_unat_eq_iff)

lemma unat_add_fits:
  "unat a + unat b < 2 ^ LENGTH('n) \<Longrightarrow> unat (a + b) = unat a + unat b" for a b :: "'n::len word"
  by (simp add: unat_word_ariths)

lemma unat_mul_fits:
  "unat a * unat b < 2 ^ LENGTH('n) \<Longrightarrow> unat (a * b) = unat a * unat b" for a b :: "'n::len word"
  by (simp add: unat_word_ariths)

lemma unat_ucast_fits:
  "unat w < 2 ^ LENGTH('m) \<Longrightarrow> unat (ucast w :: 'm::len word) = unat w" for w :: "'n::len word"
  by (simp add: unsigned_ucast_eq take_bit_nat_eq_self)

lemma u128_bound: "unat a < 2 ^ 128" for a :: u128
  using unsigned_less [of a, where 'a = nat] by simp

lemma unat_sub_le: "b \<le> a \<Longrightarrow> unat (a - b) = unat a - unat b" for a b :: "'n::len word"
  by (rule unat_sub)

lemma unat_max [simp]: "unat (- 1 :: 'n::len word) = 2 ^ LENGTH('n) - 1"
  by (simp add: unsigned_minus_1_eq_mask mask_eq_exp_minus_1)

lemma checked_add_Some [word_nat]:
  "checked_add a b = Some c \<longleftrightarrow> unat c = unat a + unat b" for a b c :: "'n::len word"
proof
  assume "checked_add a b = Some c"
  then show "unat c = unat a + unat b"
    by (auto simp: checked_add_def unat_add_fits split: if_splits)
next
  assume c: "unat c = unat a + unat b"
  moreover have "unat c < 2 ^ LENGTH('n)" by (rule unsigned_less)
  ultimately have "unat a + unat b < 2 ^ LENGTH('n)" by simp
  with c show "checked_add a b = Some c"
    by (simp add: checked_add_def unat_eq_iff unat_add_fits)
qed

lemma checked_add_None [word_nat]:
  "checked_add a b = None \<longleftrightarrow> 2 ^ LENGTH('n) \<le> unat a + unat b" for a b :: "'n::len word"
  by (auto simp: checked_add_def)

lemma checked_add_mono:
  "unat a \<le> unat b \<Longrightarrow> checked_add b c = Some d \<Longrightarrow> checked_add a c \<noteq> None" for a b c d :: "'n::len word"
  by (auto simp: checked_add_def split: if_splits)

lemma checked_sub_Some [word_nat]:
  "checked_sub a b = Some c \<longleftrightarrow> unat a = unat b + unat c" for a b c :: "'n::len word"
  by (auto simp: checked_sub_def unat_eq_iff unat_sub_le word_le_nat_alt split: if_splits)

lemma checked_sub_None [word_nat]:
  "checked_sub a b = None \<longleftrightarrow> unat a < unat b" for a b :: "'n::len word"
  by (auto simp: checked_sub_def word_le_nat_alt)

lemma unat_saturating_sub [word_nat]:
  "unat (saturating_sub a b) = unat a - unat b" for a b :: "'n::len word"
  by (auto simp: saturating_sub_def unat_sub_le word_le_nat_alt)

lemma saturating_sub_0 [simp]: "saturating_sub v 0 = v" for v :: "'n::len word"
  by (simp add: saturating_sub_def)

lemma word_not_gt_0 [simp]: "\<not> 0 < v \<longleftrightarrow> v = 0" for v :: "'n::len word"
  by (auto simp: word_gt_0)

lemma unat_saturating_add [word_nat]:
  "unat (saturating_add a b) = min (unat a + unat b) (2 ^ LENGTH('n) - 1)" for a b :: "'n::len word"
  by (auto simp: saturating_add_def unat_add_fits)

lemma unat_saturating_mul [word_nat]:
  "unat (saturating_mul a b) = min (unat a * unat b) (2 ^ LENGTH('n) - 1)" for a b :: "'n::len word"
  by (auto simp: saturating_mul_def unat_mul_fits)

lemma unat_saturated_into [word_nat]:
  "unat (saturated_into a :: 'n::len word) = min (unat a) (2 ^ LENGTH('n) - 1)"
  by (auto simp: saturated_into_def unsigned_of_nat take_bit_nat_eq_self
      simp del: of_nat_unat)

lemma saturated_amount_exact: "unat a < 2 ^ 127 \<Longrightarrow> saturated_amount a = int (unat a)"
proof -
  assume "unat a < 2 ^ 127"
  then have "int (unat a) < int (2 ^ 127)" by (simp only: of_nat_less_iff)
  then have "int (unat a) \<le> 2 ^ 127 - 1" by (simp only: of_nat_power of_nat_numeral zle_diff1_eq)
  then show ?thesis unfolding saturated_amount_def by (rule min_absorb1)
qed

section \<open>Laws of computations\<close>

named_theorems comp_simps "the definitions of the computation primitives"

lemmas comp_defs [comp_simps] =
  ok_def fail_def ensure_def lift_def gets_def modify_def zoom_def

lemma and_then_Ok [simp]:
  "and_then m f s = (t, Ok y) \<longleftrightarrow> (\<exists>u x. m s = (u, Ok x) \<and> f x u = (t, Ok y))"
  by (auto simp: and_then_def split: prod.splits result.splits)

lemma and_then_Err [simp]:
  "and_then m f s = (t, Err e) \<longleftrightarrow>
     m s = (t, Err e) \<or> (\<exists>u x. m s = (u, Ok x) \<and> f x u = (t, Err e))"
  by (auto simp: and_then_def split: prod.splits result.splits)

lemma ok_or_Ok [simp]: "ok_or x e = Ok y \<longleftrightarrow> x = Some y"
  by (auto simp: ok_or_def split: option.splits)

lemma ok_or_Err [simp]: "ok_or x e = Err e' \<longleftrightarrow> x = None \<and> e' = e"
  by (auto simp: ok_or_def split: option.splits)

lemma ok_or_simps [simp]: "ok_or (Some y) e = Ok y" "ok_or None e = Err e"
  by (simp_all add: ok_or_def)

lemma result_bind_Ok [simp]:
  "result_bind r f = Ok y \<longleftrightarrow> (\<exists>x. r = Ok x \<and> f x = Ok y)"
  by (auto simp: result_bind_def split: result.splits)

lemma result_bind_Err [simp]:
  "result_bind r f = Err e \<longleftrightarrow> r = Err e \<or> (\<exists>x. r = Ok x \<and> f x = Err e)"
  by (auto simp: result_bind_def split: result.splits)

lemma result_bind_simps [simp]: "result_bind (Ok x) f = f x" "result_bind (Err e) f = Err e"
  by (simp_all add: result_bind_def)

lemma ensure_Ok [simp]: "ensure b e s = (t, Ok x) \<longleftrightarrow> b \<and> t = s"
  by (auto simp: comp_defs)

lemma ensure_Err [simp]: "ensure b e s = (t, Err e') \<longleftrightarrow> \<not> b \<and> t = s \<and> e' = e"
  by (auto simp: comp_defs)

lemma lift_eq [simp]: "lift r s = (t, r') \<longleftrightarrow> t = s \<and> r = r'"
  by (auto simp: comp_defs)

lemma gets_eq [simp]: "gets f s = (t, r) \<longleftrightarrow> t = s \<and> r = Ok (f s)"
  by (auto simp: comp_defs)

lemma modify_eq [simp]: "modify f s = (t, r) \<longleftrightarrow> t = f s \<and> r = Ok ()"
  by (auto simp: comp_defs)

lemma ok_eq [simp]: "ok x s = (t, r) \<longleftrightarrow> t = s \<and> r = Ok x"
  by (auto simp: comp_defs)

lemma fail_eq [simp]: "fail e s = (t, r) \<longleftrightarrow> t = s \<and> r = Err e"
  by (auto simp: comp_defs)

lemma zoom_eq [simp]: "zoom rd wr m s = (t, r) \<longleftrightarrow> (\<exists>p. m (rd s) = (p, r) \<and> t = wr p s)"
  by (auto simp: comp_defs split: prod.splits)

lemma transactional_Ok [simp]: "transactional m s = (t, Ok x) \<longleftrightarrow> m s = (t, Ok x)"
  by (auto simp: transactional_def split: prod.splits result.splits)

lemma transactional_Err [simp]:
  "transactional m s = (t, Err e) \<longleftrightarrow> t = s \<and> (\<exists>u. m s = (u, Err e))"
  by (auto simp: transactional_def split: prod.splits result.splits)

lemma transactional_cases:
  assumes "\<And>t x. m s = (t, Ok x) \<Longrightarrow> P t" and "P s"
  shows "P (fst (transactional m s))"
  using assms by (auto simp: transactional_def split: prod.splits result.splits)

text \<open>Evaluation rules, for running a computation on a concrete state.\<close>

lemma and_then_eval:
  "m s = (t, Ok x) \<Longrightarrow> and_then m f s = f x t"
  "m s = (t, Err e) \<Longrightarrow> and_then m f s = (t, Err e)"
  by (simp_all add: and_then_def)

lemma transactional_eval:
  "m s = (t, Ok x) \<Longrightarrow> transactional m s = (t, Ok x)"
  "m s = (t, Err e) \<Longrightarrow> transactional m s = (s, Err e)"
  by (simp_all add: transactional_def)

lemmas comp_eval = and_then_def transactional_def comp_defs

section \<open>Laws of byte arrays\<close>

lemma length_bytes_list [simp]: "length (bytes_list (a :: 'n::len bytes)) = LENGTH('n)"
  using bytes_list [of a] by simp

lemma bytes_list_Bytes [simp]:
  "length xs = LENGTH('n) \<Longrightarrow> bytes_list (Bytes xs :: 'n::len bytes) = xs"
  by (rule Bytes_inverse) simp

lemma length_hex_literal [simp]: "length (hex_literal s) = length s div 2"
  by (induction s rule: hex_literal.induct) simp_all

lemma array_from_slice_bytes_list [simp]: "array_from_slice (bytes_list a) = Returns a"
  by (simp add: array_from_slice_def bytes_list_inverse)

lemma array_from_slice_Returns [simp]:
  "array_from_slice xs = Returns (a :: 'n::len bytes) \<longleftrightarrow> bytes_list a = xs"
  by (auto simp: array_from_slice_def bytes_list_inverse)

lemma bytes_list_zero_array [simp]:
  "bytes_list (zero_array :: 'n::len bytes) = replicate LENGTH('n) 0"
  by (simp add: zero_array_def)

lemma Bytes_eq_iff:
  "length xs = LENGTH('n) \<Longrightarrow> length ys = LENGTH('n) \<Longrightarrow>
     (Bytes xs :: 'n::len bytes) = Bytes ys \<longleftrightarrow> xs = ys"
  by (simp add: Bytes_inject)

section \<open>Laws of storage maps\<close>

lemma map_of_smap_insert [simp]: "map_of (smap_insert k v m) = (map_of m)(k \<mapsto> v)"
  by (induction m) (auto simp: fun_eq_iff)

lemma fst_set_smap_insert [simp]: "fst ` set (smap_insert k v m) = insert k (fst ` set m)"
  by (induction m) auto

lemma distinct_smap_insert [simp]:
  "distinct (map fst (smap_insert k v m)) \<longleftrightarrow> distinct (map fst m)"
proof (induction m)
  case Nil
  show ?case by simp
next
  case (Cons e m)
  have "fst e \<in> set (map fst (smap_insert k v m)) \<longleftrightarrow> fst e = k \<or> fst e \<in> fst ` set m"
    by (metis fst_set_smap_insert image_set insert_iff)
  with Cons show ?case by auto
qed

lemma smap_insert_same: "map_of m k = Some v \<Longrightarrow> smap_insert k v m = m"
  by (induction m) (auto split: if_splits)

lemma map_total_empty [simp]: "map_total f Map.empty = 0"
  by (simp add: map_total_def)

text \<open>Writing one entry moves the total by what the entry gains.\<close>

lemma map_total_upd:
  assumes "finite (dom m)"
  shows "map_total f (m(k \<mapsto> v)) + (case m k of None \<Rightarrow> 0 | Some w \<Rightarrow> f w) = map_total f m + f v"
proof -
  let ?rest = "\<Sum>j\<in>dom m - {k}. f (the (m j))"
  have "map_total f (m(k \<mapsto> v)) = f v + ?rest"
  proof -
    have "map_total f (m(k \<mapsto> v)) = f v + (\<Sum>j\<in>dom m - {k}. f (the ((m(k \<mapsto> v)) j)))"
      using assms by (simp add: map_total_def sum.insert_remove)
    also have "(\<Sum>j\<in>dom m - {k}. f (the ((m(k \<mapsto> v)) j))) = ?rest"
      by (rule sum.cong) auto
    finally show ?thesis .
  qed
  moreover have "map_total f m = (case m k of None \<Rightarrow> 0 | Some w \<Rightarrow> f w) + ?rest"
  proof (cases "m k")
    case None
    then have "dom m - {k} = dom m" by auto
    with None show ?thesis by (simp add: map_total_def)
  next
    case (Some w)
    then have "k \<in> dom m" by auto
    with assms Some show ?thesis by (simp add: map_total_def sum.remove)
  qed
  ultimately show ?thesis by simp
qed

lemma map_total_upd_new:
  "finite (dom m) \<Longrightarrow> m k = None \<Longrightarrow> map_total f (m(k \<mapsto> v)) = map_total f m + f v"
  using map_total_upd [of m f k v] by simp

lemma map_total_upd_old:
  "finite (dom m) \<Longrightarrow> m k = Some w \<Longrightarrow> map_total f (m(k \<mapsto> v)) + f w = map_total f m + f v"
  using map_total_upd [of m f k v] by simp

lemma map_total_ge: "finite (dom m) \<Longrightarrow> m k = Some v \<Longrightarrow> f v \<le> map_total f m"
  using member_le_sum [of k "dom m" "\<lambda>k. f (the (m k))"] by (auto simp: map_total_def)

lemma map_total_mono:
  "(\<And>k v. m k = Some v \<Longrightarrow> f v \<le> g v) \<Longrightarrow> map_total f m \<le> map_total g m"
  unfolding map_total_def by (rule sum_mono) auto

section \<open>Interfaces of state machines\<close>

text \<open>A predicate that every step keeps holds after every run.\<close>

locale step_invariant =
  fixes step :: "'l \<Rightarrow> 's \<Rightarrow> 's"
    and inv :: "'s \<Rightarrow> bool"
  assumes step_keeps: "inv s \<Longrightarrow> inv (step l s)"
begin

lemma run_keeps: "inv s \<Longrightarrow> inv (run step ls s)"
  by (induction ls arbitrary: s) (auto simp: run_def step_keeps)

end

text \<open>The same for a step relation restricted to some labels, where the laws are hypotheses.\<close>

lemma run_guarded:
  "list_all G ls \<Longrightarrow> I s \<Longrightarrow> (\<And>l s. G l \<Longrightarrow> I s \<Longrightarrow> I (step l s)) \<Longrightarrow> I (run step ls s)"
  by (induction ls arbitrary: s) (auto simp: run_def)

text \<open>A reflexive, transitive order that every step respects relates the ends of every run.\<close>

locale step_order =
  fixes step :: "'l \<Rightarrow> 's \<Rightarrow> 's"
    and leq :: "'s \<Rightarrow> 's \<Rightarrow> bool"
  assumes leq_refl: "leq s s"
    and leq_trans: "leq s t \<Longrightarrow> leq t u \<Longrightarrow> leq s u"
    and step_increases: "leq s (step l s)"
begin

lemma run_increases: "leq s (run step ls s)"
proof (induction ls arbitrary: s)
  case Nil
  show ?case by (simp add: run_def leq_refl)
next
  case (Cons l ls)
  have "leq s (step l s)" by (rule step_increases)
  moreover have "leq (step l s) (run step ls (step l s))" by (rule Cons)
  ultimately show ?case by (simp add: run_def leq_trans)
qed

lemma run_prefix: "leq (run step ls s) (run step (ls @ ks) s)"
  using run_increases [of "run step ls s" ks] by (simp add: run_def)

end

text \<open>
  A step that an abstract system simulates: the abstract event that a step amounts to,
  if any, takes the view of the state before to the view of the state after. A run is
  then an execution of the abstract system with the events of its steps, in order.
\<close>

inductive executes :: "('e \<Rightarrow> 'a \<Rightarrow> 'a \<Rightarrow> bool) \<Rightarrow> 'e list \<Rightarrow> 'a \<Rightarrow> 'a \<Rightarrow> bool" for rel where
  executes_Nil: "executes rel [] a a"
| executes_Cons: "rel e a b \<Longrightarrow> executes rel es b c \<Longrightarrow> executes rel (e # es) a c"

fun run_events :: "('l \<Rightarrow> 's \<Rightarrow> 's) \<Rightarrow> ('l \<Rightarrow> 's \<Rightarrow> 'e option) \<Rightarrow> 'l list \<Rightarrow> 's \<Rightarrow> 'e list" where
  "run_events step event [] s = []"
| "run_events step event (l # ls) s =
     (case event l s of Some e \<Rightarrow> [e] | None \<Rightarrow> []) @ run_events step event ls (step l s)"

locale step_simulation =
  fixes step :: "'l \<Rightarrow> 's \<Rightarrow> 's"
    and event :: "'l \<Rightarrow> 's \<Rightarrow> 'e option"
    and view :: "'s \<Rightarrow> 'a"
    and rel :: "'e \<Rightarrow> 'a \<Rightarrow> 'a \<Rightarrow> bool"
  assumes step_event: "event l s = Some e \<Longrightarrow> rel e (view s) (view (step l s))"
    and step_silent: "event l s = None \<Longrightarrow> view (step l s) = view s"
begin

lemma run_simulated: "executes rel (run_events step event ls s) (view s) (view (run step ls s))"
proof (induction ls arbitrary: s)
  case Nil
  show ?case by (simp add: run_def executes_Nil)
next
  case (Cons l ls)
  show ?case
  proof (cases "event l s")
    case None
    with Cons [of "step l s"] step_silent show ?thesis by (simp add: run_def)
  next
    case (Some e)
    with executes_Cons [OF step_event [OF Some] Cons] show ?thesis by (simp add: run_def)
  qed
qed

end

section \<open>Sums and conditions along a run\<close>

fun run_sum :: "('l \<Rightarrow> 's \<Rightarrow> 's) \<Rightarrow> ('l \<Rightarrow> 's \<Rightarrow> 'v::comm_monoid_add) \<Rightarrow> 'l list \<Rightarrow> 's \<Rightarrow> 'v" where
  "run_sum step f [] s = 0"
| "run_sum step f (l # ls) s = f l s + run_sum step f ls (step l s)"

fun run_all :: "('l \<Rightarrow> 's \<Rightarrow> 's) \<Rightarrow> ('l \<Rightarrow> 's \<Rightarrow> bool) \<Rightarrow> 'l list \<Rightarrow> 's \<Rightarrow> bool" where
  "run_all step P [] s \<longleftrightarrow> True"
| "run_all step P (l # ls) s \<longleftrightarrow> P l s \<and> run_all step P ls (step l s)"

lemma run_all_const [simp]: "run_all step (\<lambda>l s. P l) ls s \<longleftrightarrow> list_all P ls"
  by (induction ls arbitrary: s) auto

text \<open>
  A quantity of the state that every step moves by a known amount, up to a
  tolerance, is moved by a run by the sum of the amounts, up to the sum of the
  tolerances.
\<close>

locale step_budget =
  fixes step :: "'l \<Rightarrow> 's \<Rightarrow> 's"
    and good :: "'s \<Rightarrow> bool"
    and allowed :: "'l \<Rightarrow> 's \<Rightarrow> bool"
    and level :: "'s \<Rightarrow> 'v::linordered_idom"
    and gain :: "'l \<Rightarrow> 's \<Rightarrow> 'v"
    and tolerance :: "'l \<Rightarrow> 's \<Rightarrow> 'v"
  assumes good_step: "good s \<Longrightarrow> allowed l s \<Longrightarrow> good (step l s)"
    and step_gain: "good s \<Longrightarrow> allowed l s \<Longrightarrow>
      \<bar>level (step l s) - level s - gain l s\<bar> \<le> tolerance l s"
begin

lemma run_gain:
  "good s \<Longrightarrow> run_all step allowed ls s \<Longrightarrow>
     \<bar>level (run step ls s) - level s - run_sum step gain ls s\<bar> \<le> run_sum step tolerance ls s"
proof (induction ls arbitrary: s)
  case Nil
  show ?case by (simp add: run_def)
next
  case (Cons l ls)
  have "\<bar>level (step l s) - level s - gain l s\<bar> \<le> tolerance l s"
    using Cons.prems by (intro step_gain) auto
  moreover have "\<bar>level (run step ls (step l s)) - level (step l s) - run_sum step gain ls (step l s)\<bar>
      \<le> run_sum step tolerance ls (step l s)"
    using Cons.prems by (intro Cons.IH) (auto intro: good_step)
  ultimately show ?case by (simp add: run_def abs_le_iff)
qed

end

lemma run_sum_diff:
  "run_sum step (\<lambda>l s. f l s - g l s) ls s = run_sum step f ls s - run_sum step g ls s"
  for f g :: "'l \<Rightarrow> 's \<Rightarrow> 'v::ab_group_add"
  by (induction ls arbitrary: s) auto

lemma run_sum_add:
  "run_sum step (\<lambda>l s. f l s + g l s) ls s = run_sum step f ls s + run_sum step g ls s"
  by (induction ls arbitrary: s) (auto simp: algebra_simps)

lemma run_sum_zero [simp]: "run_sum step (\<lambda>l s. 0) ls s = 0"
  by (induction ls arbitrary: s) auto

lemma run_all_conj:
  "run_all step (\<lambda>l s. P l s \<and> Q l s) ls s \<longleftrightarrow> run_all step P ls s \<and> run_all step Q ls s"
  by (induction ls arbitrary: s) auto

end
