(* ===== verification/Primitives.thy ===== *)
theory Primitives
  imports Prelude
begin

text \<open>
  The types and constants the crates share: \<^verbatim>\<open>primitives/src/lib.rs\<close> (number
  types, \<open>CurrencyId\<close> with its derived order, the currency units),
  \<^verbatim>\<open>modules/type-utils/src/option_utils.rs\<close>, and the error enums of the pallets
  together with the dispatch error they are converted into.
\<close>

section \<open>Number and identifier types\<close>

type_synonym block_number = u32
type_synonym account_index = u32
type_synonym tx_index = u32
type_synonym moment = u64
type_synonym era_index = u32
type_synonym balance = u128
type_synonym share = u128

text \<open>\<open>AccountId\<close> is \<open>AccountId32\<close>, \<open>Hash\<close> is \<open>H256\<close>: 32 bytes each; \<open>H160\<close> is 20 bytes.\<close>

type_synonym account_id = "32 bytes"
type_synonym hash = "32 bytes"
type_synonym h160 = "20 bytes"

section \<open>Currencies\<close>

datatype currency_id = CLV | CUSDT | DOT | CETH

text \<open>The \<open>repr(u32)\<close> discriminants.\<close>

fun currency_code :: "currency_id \<Rightarrow> u32" where
  "currency_code CLV = 0"
| "currency_code CUSDT = 1"
| "currency_code DOT = 2"
| "currency_code CETH = 3"

text \<open>The derived \<open>PartialOrd\<close> and \<open>Ord\<close>: variants in the order of their discriminants.\<close>

instantiation currency_id :: linorder
begin

definition less_eq_currency_id :: "currency_id \<Rightarrow> currency_id \<Rightarrow> bool" where
  "less_eq_currency_id a b \<longleftrightarrow> currency_code a \<le> currency_code b"

definition less_currency_id :: "currency_id \<Rightarrow> currency_id \<Rightarrow> bool" where
  "less_currency_id a b \<longleftrightarrow> currency_code a < currency_code b"

instance
proof
  fix a b :: currency_id
  assume "a \<le> b" and "b \<le> a"
  then have "currency_code a = currency_code b" by (simp add: less_eq_currency_id_def)
  then show "a = b" by (cases a; cases b) simp_all
qed (auto simp: less_eq_currency_id_def less_currency_id_def)

end

text \<open>The derived \<open>FromPrimitive\<close>.\<close>

definition currency_from_u32 :: "u32 \<Rightarrow> currency_id option" where
  "currency_from_u32 n =
     (if n = 0 then Some CLV else if n = 1 then Some CUSDT
      else if n = 2 then Some DOT else if n = 3 then Some CETH else None)"

definition DOLLARS :: balance where
  "DOLLARS = 1000000000000000000"

definition CENTS :: balance where
  "CENTS = DOLLARS div 100"

definition MILLICENTS :: balance where
  "MILLICENTS = CENTS div 1000"

definition MICROCENTS :: balance where
  "MICROCENTS = MILLICENTS div 1000"

section \<open>Option extensions\<close>

definition some :: "'a \<Rightarrow> 'a option" where
  "some x = Some x"

definition none :: "'a \<Rightarrow> 'a option" where
  "none x = None"

section \<open>Errors\<close>

datatype claims_error =
    NoPermission | AlreadyMinted | AlreadyClaimed | ClaimLimitExceeded | TxNotMinted
  | InvalidEthereumSignature | SignatureNotMatch | InvalidAmount

datatype reward_pool_error =
    RewardCaculationError | InsufficientShares | InvalidShareAmount | InvalidRewards

datatype incentives_error = InvalidCurrencyPair

datatype evm_accounts_error =
    AccountIdHasMapped | EthAddressHasMapped | BadSignature | InvalidSignature
  | NonZeroRefCount | StillHasActiveReserved

text \<open>
  \<open>DispatchError\<close>: a bad origin, an error of one of the pallets of this
  repository, or an error of a pallet outside it (Balances, the token pallets),
  which the code only passes on.
\<close>

datatype dispatch_error =
    BadOrigin
  | ClaimsError claims_error
  | RewardPoolError reward_pool_error
  | IncentivesError incentives_error
  | EvmAccountsError evm_accounts_error
  | ForeignError nat

section \<open>Laws\<close>

lemma currency_code_inject [simp]: "currency_code a = currency_code b \<longleftrightarrow> a = b"
  by (cases a; cases b) simp_all

lemma currency_from_u32_code [simp]: "currency_from_u32 (currency_code c) = Some c"
  by (cases c) (simp_all add: currency_from_u32_def)

lemma currency_from_u32_Some: "currency_from_u32 n = Some c \<longleftrightarrow> n = currency_code c"
  by (cases c) (auto simp: currency_from_u32_def)

lemma option_ext_simps [simp]: "some x = Some x" "none x = None"
  by (simp_all add: some_def none_def)

lemmas currency_units = DOLLARS_def CENTS_def MILLICENTS_def MICROCENTS_def

end
