(* ===== verification/Frame.thy ===== *)
theory Frame
  imports Primitives
begin

text \<open>
  The services of the framework that the pallets of this repository call and
  that are not part of it. Each is a parameter: a record of functions that the
  definitions of the pallets take as an argument, in the place of the associated
  types of the pallets' \<open>Config\<close> traits. What a property needs of such a
  service is a named law (\<open>deposit_credits\<close>, \<open>withdraw_debits\<close>, \<dots>) that restates
  its documented behaviour and appears as a hypothesis of the property.
  \<open>book\<close> at the end is a small ledger on which every law can be checked; only
  witnesses use it.
\<close>

section \<open>Origins\<close>

text \<open>\<open>ensure_root\<close>, \<open>ensure_signed\<close>, \<open>ensure_none\<close> of \<open>frame_system\<close>.\<close>

record ('o, 'acc) origin_checks =
  ensure_root :: "'o \<Rightarrow> (unit, dispatch_error) result"
  ensure_signed :: "'o \<Rightarrow> ('acc, dispatch_error) result"
  ensure_none :: "'o \<Rightarrow> (unit, dispatch_error) result"

section \<open>Currencies\<close>

datatype existence_requirement = KeepAlive | AllowDeath

datatype withdraw_reasons = TRANSACTION_PAYMENT | TRANSFER | RESERVE | FEE | TIP

text \<open>
  The part of \<open>Currency\<close> the pallets use. The imbalance that
  \<open>deposit_creating\<close> and \<open>withdraw\<close> return is dropped by the callers, which
  settles it against the total issuance; the ledger returned is the one after
  that.
\<close>

record ('acc, 'l) currency =
  free_balance :: "'l \<Rightarrow> 'acc \<Rightarrow> balance"
  total_issuance :: "'l \<Rightarrow> balance"
  minimum_balance :: balance
  deposit_creating :: "'acc \<Rightarrow> balance \<Rightarrow> 'l \<Rightarrow> 'l"
  withdraw :: "'acc \<Rightarrow> balance \<Rightarrow> withdraw_reasons \<Rightarrow> existence_requirement \<Rightarrow>
    ('l, unit, dispatch_error) comp"
  transfer :: "'acc \<Rightarrow> 'acc \<Rightarrow> balance \<Rightarrow> existence_requirement \<Rightarrow>
    ('l, unit, dispatch_error) comp"

section \<open>Host functions\<close>

record host_crypto =
  keccak_256 :: "u8 list \<Rightarrow> 32 bytes"
  secp256k1_ecdsa_recover :: "65 bytes \<Rightarrow> 32 bytes \<Rightarrow> 64 bytes option"

section \<open>Documented behaviour of a currency\<close>

text \<open>A deposit of at least the minimum balance that fits is credited in full, to nobody else.\<close>

definition deposit_credits :: "('acc, 'l) currency \<Rightarrow> bool" where
  "deposit_credits C \<longleftrightarrow>
     (\<forall>l who v. minimum_balance C \<le> v \<longrightarrow>
        unat (free_balance C l who) + unat v < 2 ^ 128 \<longrightarrow>
        free_balance C (deposit_creating C who v l) who = free_balance C l who + v)"

definition deposit_frame :: "('acc, 'l) currency \<Rightarrow> bool" where
  "deposit_frame C \<longleftrightarrow>
     (\<forall>l who v a. a \<noteq> who \<longrightarrow>
        free_balance C (deposit_creating C who v l) a = free_balance C l a)"

text \<open>A credited deposit raises the issuance by its value.\<close>

definition deposit_issues :: "('acc, 'l) currency \<Rightarrow> bool" where
  "deposit_issues C \<longleftrightarrow>
     (\<forall>l who v. minimum_balance C \<le> v \<longrightarrow>
        unat (free_balance C l who) + unat v < 2 ^ 128 \<longrightarrow>
        unat (total_issuance C l) + unat v < 2 ^ 128 \<longrightarrow>
        total_issuance C (deposit_creating C who v l) = total_issuance C l + v)"

text \<open>A withdrawal that succeeds takes exactly its value from one account and the issuance.\<close>

definition withdraw_debits :: "('acc, 'l) currency \<Rightarrow> bool" where
  "withdraw_debits C \<longleftrightarrow>
     (\<forall>l l' who v rs k. withdraw C who v rs k l = (l', Ok ()) \<longrightarrow>
        unat (free_balance C l who) = unat (free_balance C l' who) + unat v \<and>
        unat (total_issuance C l) = unat (total_issuance C l') + unat v)"

definition withdraw_frame :: "('acc, 'l) currency \<Rightarrow> bool" where
  "withdraw_frame C \<longleftrightarrow>
     (\<forall>l l' who v rs k a. withdraw C who v rs k l = (l', Ok ()) \<longrightarrow> a \<noteq> who \<longrightarrow>
        free_balance C l' a = free_balance C l a)"

text \<open>A transfer that succeeds moves exactly its value between two different accounts.\<close>

definition transfer_moves :: "('acc, 'l) currency \<Rightarrow> bool" where
  "transfer_moves C \<longleftrightarrow>
     (\<forall>l l' src dst v k. transfer C src dst v k l = (l', Ok ()) \<longrightarrow> src \<noteq> dst \<longrightarrow>
        unat (free_balance C l src) = unat (free_balance C l' src) + unat v \<and>
        unat (free_balance C l' dst) = unat (free_balance C l dst) + unat v)"

definition transfer_frame :: "('acc, 'l) currency \<Rightarrow> bool" where
  "transfer_frame C \<longleftrightarrow>
     (\<forall>l l' src dst v k a. transfer C src dst v k l = (l', Ok ()) \<longrightarrow> a \<noteq> src \<longrightarrow> a \<noteq> dst \<longrightarrow>
        free_balance C l' a = free_balance C l a)"

section \<open>A ledger for witnesses\<close>

type_synonym 'acc book = "('acc \<Rightarrow> balance) \<times> balance"

definition book_deposit :: "'acc \<Rightarrow> balance \<Rightarrow> 'acc book \<Rightarrow> 'acc book" where
  "book_deposit who v l =
     (case checked_add (fst l who) v of
        Some b \<Rightarrow> ((fst l)(who := b), saturating_add (snd l) v)
      | None \<Rightarrow> l)"

definition book_withdraw ::
  "'acc \<Rightarrow> balance \<Rightarrow> withdraw_reasons \<Rightarrow> existence_requirement \<Rightarrow>
   ('acc book, unit, dispatch_error) comp" where
  "book_withdraw who v rs k l =
     (case (checked_sub (fst l who) v, checked_sub (snd l) v) of
        (Some b, Some t) \<Rightarrow> (((fst l)(who := b), t), Ok ())
      | _ \<Rightarrow> (l, Err (ForeignError 0)))"

definition book_transfer ::
  "'acc \<Rightarrow> 'acc \<Rightarrow> balance \<Rightarrow> existence_requirement \<Rightarrow>
   ('acc book, unit, dispatch_error) comp" where
  "book_transfer src dst v k l =
     (if src = dst then (l, Ok ())
      else case (checked_sub (fst l src) v, checked_add (fst l dst) v) of
        (Some b, Some c) \<Rightarrow> (((fst l)(src := b, dst := c), snd l), Ok ())
      | _ \<Rightarrow> (l, Err (ForeignError 1)))"

definition book :: "('acc, 'acc book) currency" where
  "book = \<lparr>free_balance = fst, total_issuance = snd, minimum_balance = 0,
     deposit_creating = book_deposit, withdraw = book_withdraw, transfer = book_transfer\<rparr>"

text \<open>Origins and host functions for witnesses.\<close>

datatype 'acc raw_origin = RootOrigin | SignedBy 'acc | NoOrigin

definition raw_origins :: "('acc raw_origin, 'acc) origin_checks" where
  "raw_origins =
     \<lparr>ensure_root = (\<lambda>o'. case o' of RootOrigin \<Rightarrow> Ok () | _ \<Rightarrow> Err BadOrigin),
      ensure_signed = (\<lambda>o'. case o' of SignedBy a \<Rightarrow> Ok a | _ \<Rightarrow> Err BadOrigin),
      ensure_none = (\<lambda>o'. case o' of NoOrigin \<Rightarrow> Ok () | _ \<Rightarrow> Err BadOrigin)\<rparr>"

definition null_crypto :: host_crypto where
  "null_crypto = \<lparr>keccak_256 = (\<lambda>_. zero_array), secp256k1_ecdsa_recover = (\<lambda>_ _. Some zero_array)\<rparr>"

lemma raw_origins_simps [simp]:
  "ensure_root raw_origins RootOrigin = Ok ()"
  "ensure_signed raw_origins (SignedBy a) = Ok a"
  "ensure_none raw_origins NoOrigin = Ok ()"
  by (simp_all add: raw_origins_def)

lemma null_crypto_simps [simp]:
  "keccak_256 null_crypto bs = zero_array"
  "secp256k1_ecdsa_recover null_crypto sig msg = Some zero_array"
  by (simp_all add: null_crypto_def)

lemma book_simps [simp]:
  "free_balance book = fst" "total_issuance book = snd" "minimum_balance book = 0"
  "deposit_creating book = book_deposit" "withdraw book = book_withdraw"
  "transfer book = book_transfer"
  by (simp_all add: book_def)

lemma book_withdraw_Ok:
  "book_withdraw who v rs k l = (l', Ok ()) \<longleftrightarrow>
     (\<exists>b t. checked_sub (fst l who) v = Some b \<and> checked_sub (snd l) v = Some t \<and>
        l' = ((fst l)(who := b), t))"
  by (cases "checked_sub (fst l who) v"; cases "checked_sub (snd l) v")
    (auto simp: book_withdraw_def)

lemma book_transfer_Ok:
  "book_transfer src dst v k l = (l', Ok ()) \<longleftrightarrow>
     (if src = dst then l' = l
      else (\<exists>b c. checked_sub (fst l src) v = Some b \<and> checked_add (fst l dst) v = Some c \<and>
        l' = ((fst l)(src := b, dst := c), snd l)))"
  by (cases "checked_sub (fst l src) v"; cases "checked_add (fst l dst) v")
    (auto simp: book_transfer_def)

lemma book_deposit_credits: "deposit_credits book"
  by (auto simp: deposit_credits_def book_deposit_def checked_add_def)

lemma book_deposit_frame: "deposit_frame book"
  by (auto simp: deposit_frame_def book_deposit_def split: option.splits)

lemma book_deposit_issues: "deposit_issues book"
  by (auto simp: deposit_issues_def book_deposit_def checked_add_def saturating_add_def)

lemma book_withdraw_debits: "withdraw_debits book"
  by (auto simp: withdraw_debits_def book_withdraw_Ok word_nat)

lemma book_withdraw_frame: "withdraw_frame book"
  by (auto simp: withdraw_frame_def book_withdraw_Ok)

lemma book_transfer_moves: "transfer_moves book"
  by (auto simp: transfer_moves_def book_transfer_Ok word_nat)

lemma book_transfer_frame: "transfer_frame book"
  by (auto simp: transfer_frame_def book_transfer_Ok split: if_splits)

lemmas book_laws = book_deposit_credits book_deposit_frame book_deposit_issues
  book_withdraw_debits book_withdraw_frame book_transfer_moves book_transfer_frame

end
