(* ===== verification/Ethereum_Address.thy ===== *)
theory Ethereum_Address
  imports Frame
begin

text \<open>
  \<^verbatim>\<open>modules/claims/src/ethereum_address.rs\<close>: the byte-array newtypes, their serde
  representation and the ASCII-hex encoder; and the construction of the message
  that \<open>personal_sign\<close> signs with the recovery of the signer's address, which the
  claims pallet and the EVM-accounts pallet each contain.

  Parameters: the hex codec of \<open>rustc_hex\<close> (\<open>to_hex\<close>, \<open>from_hex\<close>) and the two
  host functions of \<open>sp_io\<close>. The lemmas show that the hex encoder is injective
  and doubles the length, that the decimal length in the message reads back as
  the length, and that the message determines its parts.
\<close>

section \<open>Newtypes\<close>

datatype ethereum_address = EthereumAddress h160

datatype ecdsa_signature = EcdsaSignature "65 bytes"

datatype ethereum_tx_hash = EthereumTxHash "32 bytes"

text \<open>\<open>impl PartialEq for EcdsaSignature\<close>: equality of the slices.\<close>

fun signature_eq :: "ecdsa_signature \<Rightarrow> ecdsa_signature \<Rightarrow> bool" where
  "signature_eq (EcdsaSignature a) (EcdsaSignature b) = (bytes_list a = bytes_list b)"

section \<open>Serde representation\<close>

fun serialize_address :: "(u8 list \<Rightarrow> string) \<Rightarrow> ethereum_address \<Rightarrow> string" where
  "serialize_address to_hex (EthereumAddress a) = ''0x'' @ to_hex (bytes_list a)"

fun serialize_tx_hash :: "(u8 list \<Rightarrow> string) \<Rightarrow> ethereum_tx_hash \<Rightarrow> string" where
  "serialize_tx_hash to_hex (EthereumTxHash h) = ''0x'' @ to_hex (bytes_list h)"

datatype de_error = NotAString | BadLength | BadHex

text \<open>
  The string the deserializer yields, the optional prefix, the length check, the
  hex decoding, and the copy into the 20-byte array, which panics if the decoder
  returns another number of bytes.
\<close>

definition deserialize_address ::
  "(string \<Rightarrow> u8 list option) \<Rightarrow> (string, de_error) result \<Rightarrow>
   (ethereum_address, de_error) result may_panic" where
  "deserialize_address from_hex input =
     (case input of
        Err e \<Rightarrow> Returns (Err e)
      | Ok base_string \<Rightarrow>
          (let offset = (if take 2 base_string = ''0x'' then 2 else 0);
               s = drop offset base_string
           in if length s \<noteq> 40 then Returns (Err BadLength)
              else case from_hex s of
                None \<Rightarrow> Returns (Err BadHex)
              | Some raw \<Rightarrow>
                  (case array_from_slice raw of
                     Panics \<Rightarrow> Panics
                   | Returns r \<Rightarrow> Returns (Ok (EthereumAddress r)))))"

section \<open>ASCII hex\<close>

definition push_nibble :: "u8 \<Rightarrow> u8" where
  "push_nibble n = (if n < 10 then 48 + n else 97 - 10 + n)"

fun to_ascii_hex :: "u8 list \<Rightarrow> u8 list" where
  "to_ascii_hex [] = []"
| "to_ascii_hex (b # bs) = push_nibble (b div 16) # push_nibble (b mod 16) # to_ascii_hex bs"

section \<open>The signed message\<close>

text \<open>The loop \<open>while l > 0 { rev.push(b'0' + (l % 10) as u8); l /= 10; }\<close>.\<close>

fun rev_digits :: "nat \<Rightarrow> u8 list" where
  "rev_digits l = (if l > 0 then (48 + of_nat (l mod 10)) # rev_digits (l div 10) else [])"

declare rev_digits.simps [simp del]

definition message_header :: "u8 list" where
  "message_header = 0x19 # ascii ''Ethereum Signed Message:'' @ [10]"

definition ethereum_signable_message :: "u8 list \<Rightarrow> u8 list \<Rightarrow> u8 list \<Rightarrow> u8 list" where
  "ethereum_signable_message prefix what extra =
     (let l = length prefix + length what + length extra
      in message_header @ rev (rev_digits l) @ prefix @ what @ extra)"

text \<open>
  \<open>eth_recover\<close>: the last 20 bytes of the hash of the recovered public key. The
  slice \<open>[12..]\<close> of the 32-byte hash has the 20 bytes of the address array, so
  \<open>copy_from_slice\<close> does not panic (\<open>bytes_list_hash_tail\<close>).
\<close>

definition hash_tail :: "32 bytes \<Rightarrow> h160" where
  "hash_tail h = Bytes (drop 12 (bytes_list h))"

definition eth_recover_bytes ::
  "host_crypto \<Rightarrow> u8 list \<Rightarrow> 65 bytes \<Rightarrow> u8 list \<Rightarrow> u8 list \<Rightarrow> h160 option" where
  "eth_recover_bytes K prefix s what extra =
     (let msg = keccak_256 K (ethereum_signable_message prefix what extra)
      in case secp256k1_ecdsa_recover K s msg of
           None \<Rightarrow> None
         | Some pub \<Rightarrow> Some (hash_tail (keccak_256 K (bytes_list pub))))"

section \<open>Specification functions\<close>

text \<open>Reading a decimal numeral, most significant digit first.\<close>

definition decimal_value :: "u8 list \<Rightarrow> nat" where
  "decimal_value ds = foldl (\<lambda>n d. n * 10 + (unat d - 48)) 0 ds"

definition nibble_value :: "u8 \<Rightarrow> u8" where
  "nibble_value c = (if c < 58 then c - 48 else c - 87)"

fun from_ascii_hex :: "u8 list \<Rightarrow> u8 list" where
  "from_ascii_hex (a # b # cs) = (nibble_value a * 16 + nibble_value b) # from_ascii_hex cs"
| "from_ascii_hex _ = []"

definition is_hex_digit :: "u8 \<Rightarrow> bool" where
  "is_hex_digit c \<longleftrightarrow> (48 \<le> c \<and> c \<le> 57) \<or> (97 \<le> c \<and> c \<le> 102)"

text \<open>
  Documented behaviour of the hex codec: two digits per byte, and decoding
  inverts encoding.
\<close>

definition hex_codec :: "(u8 list \<Rightarrow> string) \<Rightarrow> (string \<Rightarrow> u8 list option) \<Rightarrow> bool" where
  "hex_codec to_hex from_hex \<longleftrightarrow>
     (\<forall>bs. length (to_hex bs) = 2 * length bs \<and> from_hex (to_hex bs) = Some bs)"

text \<open>A codec for witnesses, on the encoder of the pallet itself.\<close>

definition demo_to_hex :: "u8 list \<Rightarrow> string" where
  "demo_to_hex bs = map (\<lambda>b. char_of (unat b)) (to_ascii_hex bs)"

definition demo_from_hex :: "string \<Rightarrow> u8 list option" where
  "demo_from_hex s = Some (from_ascii_hex (map of_char s))"

section \<open>Laws of the hex encoder\<close>

lemma nibble_cases:
  "n < 16 \<Longrightarrow> n \<in> {0, 1, 2, 3, 4, 5, 6, 7, 8, 9, 10, 11, 12, 13, 14, 15}" for n :: u8
  by (simp add: word_less_nat_alt word_unat_eq_iff) presburger

lemma nibble_value_push [simp]: "n < 16 \<Longrightarrow> nibble_value (push_nibble n) = n"
  by (drule nibble_cases) (auto simp: nibble_value_def push_nibble_def)

lemma push_nibble_digit: "n < 16 \<Longrightarrow> is_hex_digit (push_nibble n)"
  by (drule nibble_cases) (auto simp: is_hex_digit_def push_nibble_def)

lemma byte_high [simp]: "b div 16 < 16" for b :: u8
proof -
  have "unat b < 2 ^ 8" using unsigned_less [of b] by simp
  then show ?thesis by (simp add: word_less_nat_alt unat_div)
qed

lemma byte_low [simp]: "b mod 16 < 16" for b :: u8
  by (simp add: word_mod_less_divisor)

lemma byte_join [simp]: "b div 16 * 16 + b mod 16 = b" for b :: u8
  by (simp add: word_mod_div_equality)

lemma length_to_ascii_hex [simp]: "length (to_ascii_hex bs) = 2 * length bs"
  by (induction bs) auto

lemma from_to_ascii_hex [simp]: "from_ascii_hex (to_ascii_hex bs) = bs"
  by (induction bs) auto

lemma to_ascii_hex_digits: "list_all is_hex_digit (to_ascii_hex bs)"
  by (induction bs) (auto simp: push_nibble_digit)

lemma to_ascii_hex_inject [simp]: "to_ascii_hex bs = to_ascii_hex cs \<longleftrightarrow> bs = cs"
  by (metis from_to_ascii_hex)

section \<open>Laws of the message\<close>

lemma unat_digit [simp]: "unat (48 + of_nat (l mod 10) :: u8) = 48 + l mod 10"
proof -
  have "l mod 10 < 10" by simp
  then have "unat (of_nat (l mod 10) :: u8) = l mod 10"
    by (simp add: unsigned_of_nat take_bit_nat_eq_self)
  with \<open>l mod 10 < 10\<close> show ?thesis by (subst unat_add_fits) auto
qed

lemma decimal_value_snoc [simp]: "decimal_value (ds @ [d]) = decimal_value ds * 10 + (unat d - 48)"
  by (simp add: decimal_value_def)

lemma rev_digits_0 [simp]: "rev_digits 0 = []"
  by (simp add: rev_digits.simps)

lemma decimal_value_rev_digits: "decimal_value (rev (rev_digits l)) = l"
proof (induction l rule: rev_digits.induct)
  case (1 l)
  show ?case
  proof (cases "l > 0")
    case True
    with 1 have "decimal_value (rev (rev_digits (l div 10))) = l div 10" by simp
    with True show ?thesis by (simp add: rev_digits.simps [of l])
  next
    case False
    then show ?thesis by (simp add: decimal_value_def)
  qed
qed

lemma rev_digits_range: "d \<in> set (rev_digits l) \<Longrightarrow> 48 \<le> unat d \<and> unat d \<le> 57"
proof (induction l rule: rev_digits.induct)
  case (1 l)
  show ?case
  proof (cases "l > 0")
    case True
    with 1 show ?thesis by (auto simp: rev_digits.simps [of l] less_Suc_eq_le [symmetric])
  next
    case False
    with 1 show ?thesis by (simp add: rev_digits.simps [of l])
  qed
qed

lemma rev_digits_inject: "rev_digits l = rev_digits k \<Longrightarrow> l = k"
  by (metis decimal_value_rev_digits)

lemma signable_message_inject:
  assumes "length what = length what'" and "length extra = length extra'"
  shows "ethereum_signable_message p what extra = ethereum_signable_message p what' extra' \<longleftrightarrow>
    what = what' \<and> extra = extra'"
  using assms by (simp add: ethereum_signable_message_def Let_def)

lemma bytes_list_hash_tail [simp]: "bytes_list (hash_tail h) = drop 12 (bytes_list h)"
  by (simp add: hash_tail_def)

lemma deserialize_address_hex:
  assumes "hex_codec to_hex from_hex"
  shows "deserialize_address from_hex (Ok (''0x'' @ to_hex (bytes_list a))) =
    Returns (Ok (EthereumAddress a))"
  using assms by (simp add: deserialize_address_def hex_codec_def Let_def)

lemma of_char_char_of_byte [simp]: "of_char (char_of (unat b) :: char) = b" for b :: u8
proof -
  have "unat b < 256" using unsigned_less [of b, where 'a = nat] by simp
  then have "(of_char (char_of (unat b) :: char) :: nat) = unat b" by simp
  then have "of_nat (of_char (char_of (unat b) :: char)) = (of_nat (unat b) :: u8)"
    by (rule arg_cong)
  then show ?thesis by (simp only: of_nat_of_char of_nat_unat ucast_id)
qed

lemma demo_hex_codec: "hex_codec demo_to_hex demo_from_hex"
  by (simp add: hex_codec_def demo_to_hex_def demo_from_hex_def comp_def)

section \<open>Properties\<close>

text \<open>
  The ASCII-hex encoder of the claims pallet doubles the length, emits only
  the digits 0-9 and a-f, and is inverted by reading two digits per byte: no two
  byte strings have the same encoding.
\<close>

theorem to_ascii_hex_correct:
  "from_ascii_hex (to_ascii_hex bs) = bs \<and> length (to_ascii_hex bs) = 2 * length bs \<and>
   list_all is_hex_digit (to_ascii_hex bs)"
  by (simp add: to_ascii_hex_digits)

text \<open>
  The digit loop of the signable message writes the decimal numeral of the
  length: read back most significant digit first it is the length, and every byte
  is an ASCII digit.
\<close>

theorem message_length_numeral:
  "decimal_value (rev (rev_digits l)) = l \<and> (\<forall>d. d \<in> set (rev_digits l) \<longrightarrow> 48 \<le> unat d \<and> unat d \<le> 57)"
  by (simp add: decimal_value_rev_digits rev_digits_range)

theorem message_length_numeral_witness:
  "rev (rev_digits 111) = ascii ''111'' \<and> decimal_value (rev (rev_digits 111)) = 111 \<and>
   48 \<le> unat (hd (rev_digits 111)) \<and> unat (hd (rev_digits 111)) \<le> 57"
  using message_length_numeral [of 111] by (auto simp: rev_digits.simps ascii_def)

text \<open>
  Deserializing the serialized form of an Ethereum address gives the address
  back, without a panic, for every hex codec that writes two digits per byte and
  inverts itself.
\<close>

theorem address_serde_roundtrip:
  assumes "hex_codec to_hex from_hex"
  shows "deserialize_address from_hex (Ok (serialize_address to_hex a)) = Returns (Ok a)"
  using deserialize_address_hex [OF assms] by (cases a) simp

theorem address_serde_roundtrip_witness:
  "deserialize_address demo_from_hex (Ok (serialize_address demo_to_hex (EthereumAddress zero_array))) =
     Returns (Ok (EthereumAddress zero_array))"
  by (rule address_serde_roundtrip [OF demo_hex_codec])

end
