(* ===== verification/Claims.thy ===== *)
theory Claims
  imports Ethereum_Address
begin

text \<open>
  The claims pallet, \<^verbatim>\<open>modules/claims/src/lib.rs\<close>: minting of claims by the bridge
  account of a network, claiming with an Ethereum signature, burning towards a
  network, the root-only configuration calls, validation of unsigned claims, and
  the storage migration from the single-network to the elastic storage.

  The storage items are the fields of \<open>claims_state\<close>, together with the events
  deposited and the ledger of the currency; a storage map without an entry reads
  its default through the getter, as with \<open>ValueQuery\<close>. \<open>claims_config\<close> holds the
  associated types of the pallet's \<open>Config\<close> trait, the host functions and the
  SCALE encodings. \<open>claims_step\<close> is one extrinsic or one runtime upgrade.
\<close>

section \<open>Data\<close>

datatype bridge_networks = BSC | Ethereum

type_synonym claim_record = "ethereum_address \<times> balance \<times> bool"

datatype 'acc claims_event =
    BridgeAccountChanged 'acc
  | MintSuccess ethereum_tx_hash ethereum_address balance
  | ClaimLimitUpdated balance
  | Claimed 'acc ethereum_address balance
  | Burned 'acc ethereum_address balance
  | MintFeeUpdated balance
  | BurnFeeUpdated balance
  | ElasticBridgeAccountChanged bridge_networks 'acc
  | ElasticMintSuccess bridge_networks ethereum_tx_hash ethereum_address balance
  | ElasticClaimLimitUpdated bridge_networks balance
  | ElasticClaimed bridge_networks 'acc ethereum_address balance
  | ElasticBurned bridge_networks 'acc ethereum_address balance
  | ElasticFeeUpdated bridge_networks balance balance

record ('acc, 'l) claims_state =
  BridgeAccount :: "'acc option"
  ClaimLimit :: balance
  Claims :: "(ethereum_tx_hash, claim_record option) smap"
  MintFee :: "balance option"
  BurnFee :: "balance option"
  ElasticBridgeAccounts :: "bridge_networks \<rightharpoonup> 'acc option"
  ElasticClaimLimits :: "bridge_networks \<rightharpoonup> balance"
  BridgeFees :: "bridge_networks \<rightharpoonup> balance \<times> balance"
  ElasticClaims :: "bridge_networks \<Rightarrow> ethereum_tx_hash \<rightharpoonup> claim_record"
  PalletStorageVersion :: "u32 option"
  events :: "'acc claims_event list"
  ledger :: 'l

record ('o, 'acc, 'l) claims_config =
  c_origins :: "('o, 'acc) origin_checks"
  c_currency :: "('acc, 'l) currency"
  c_crypto :: host_crypto
  c_module_account :: 'acc
  c_prefix :: "u8 list"
  c_encode_account :: "'acc \<Rightarrow> u8 list"
  c_encode_tx :: "ethereum_tx_hash \<Rightarrow> u8 list"
  c_encode_provides :: "string \<Rightarrow> ethereum_address \<Rightarrow> u8 list"

section \<open>Storage access\<close>

definition elastic_bridge_accounts ::
  "('acc, 'l) claims_state \<Rightarrow> bridge_networks \<Rightarrow> 'acc option" where
  "elastic_bridge_accounts s n = (case ElasticBridgeAccounts s n of Some a \<Rightarrow> a | None \<Rightarrow> None)"

definition elastic_claim_limits :: "('acc, 'l) claims_state \<Rightarrow> bridge_networks \<Rightarrow> balance" where
  "elastic_claim_limits s n = (case ElasticClaimLimits s n of Some v \<Rightarrow> v | None \<Rightarrow> 0)"

definition bridge_fees :: "('acc, 'l) claims_state \<Rightarrow> bridge_networks \<Rightarrow> balance \<times> balance" where
  "bridge_fees s n = (case BridgeFees s n of Some v \<Rightarrow> v | None \<Rightarrow> (0, 0))"

definition VersionDefault :: u32 where
  "VersionDefault = 1"

definition pallet_storage_version :: "('acc, 'l) claims_state \<Rightarrow> u32" where
  "pallet_storage_version s =
     (case PalletStorageVersion s of Some v \<Rightarrow> v | None \<Rightarrow> VersionDefault)"

definition insert_claim ::
  "bridge_networks \<Rightarrow> ethereum_tx_hash \<Rightarrow> claim_record \<Rightarrow>
   ('acc, 'l) claims_state \<Rightarrow> ('acc, 'l) claims_state" where
  "insert_claim n tx r s =
     s\<lparr>ElasticClaims := (ElasticClaims s)(n := (ElasticClaims s n)(tx \<mapsto> r))\<rparr>"

definition deposit_event :: "'acc claims_event \<Rightarrow> (('acc, 'l) claims_state, unit, 'e) comp" where
  "deposit_event e = modify (\<lambda>s. s\<lparr>events := events s @ [e]\<rparr>)"

definition credit ::
  "('o, 'acc, 'l) claims_config \<Rightarrow> 'acc \<Rightarrow> balance \<Rightarrow>
   (('acc, 'l) claims_state, unit, 'e) comp" where
  "credit cfg who v =
     modify (\<lambda>s. s\<lparr>ledger := deposit_creating (c_currency cfg) who v (ledger s)\<rparr>)"

section \<open>Signatures\<close>

definition eth_recover ::
  "('o, 'acc, 'l) claims_config \<Rightarrow> ecdsa_signature \<Rightarrow> u8 list \<Rightarrow> u8 list \<Rightarrow>
   ethereum_address option" where
  "eth_recover cfg s what extra =
     (case s of EcdsaSignature bs \<Rightarrow>
        map_option EthereumAddress
          (eth_recover_bytes (c_crypto cfg) (c_prefix cfg) bs what extra))"

text \<open>The bytes an account signs to claim a transaction: both pallet entry points build them.\<close>

definition claim_signer ::
  "('o, 'acc, 'l) claims_config \<Rightarrow> 'acc \<Rightarrow> ethereum_tx_hash \<Rightarrow> ecdsa_signature \<Rightarrow>
   ethereum_address option" where
  "claim_signer cfg dest tx sig =
     (let data = to_ascii_hex (c_encode_account cfg dest);
          tx_data = to_ascii_hex (c_encode_tx cfg tx)
      in eth_recover cfg sig data tx_data)"

section \<open>Operations\<close>

definition do_mint_claim ::
  "('o, 'acc, 'l) claims_config \<Rightarrow> 'acc \<Rightarrow> bridge_networks \<Rightarrow> ethereum_tx_hash \<Rightarrow>
   ethereum_address \<Rightarrow> balance \<Rightarrow> (('acc, 'l) claims_state, balance, dispatch_error) comp" where
  "do_mint_claim cfg from network tx who value =
     and_then (gets id) (\<lambda>st.
     and_then (ensure (Some from = elastic_bridge_accounts st network) (ClaimsError NoPermission)) (\<lambda>_.
     and_then (ensure (ElasticClaims st network tx = None) (ClaimsError AlreadyMinted)) (\<lambda>_.
     and_then (ensure (value \<le> elastic_claim_limits st network) (ClaimsError ClaimLimitExceeded)) (\<lambda>_.
     let fee = fst (bridge_fees st network) in
     and_then
       (if fee > 0
        then and_then (ensure (value > fee) (ClaimsError InvalidAmount))
               (\<lambda>_. ok (saturating_sub value fee, fee))
        else ok (value, 0)) (\<lambda>(claim_amount, mint_fee).
     and_then (modify (insert_claim network tx (who, claim_amount, False))) (\<lambda>_.
     and_then (modify (\<lambda>s. s\<lparr>ElasticClaimLimits := (ElasticClaimLimits s)
                (network \<mapsto> saturating_sub (elastic_claim_limits s network) claim_amount)\<rparr>)) (\<lambda>_.
     and_then (if mint_fee > 0 then credit cfg (c_module_account cfg) mint_fee else ok ()) (\<lambda>_.
     ok claim_amount))))))))"

definition do_claim ::
  "('o, 'acc, 'l) claims_config \<Rightarrow> bridge_networks \<Rightarrow> 'acc \<Rightarrow> ethereum_tx_hash \<Rightarrow>
   ecdsa_signature \<Rightarrow>
   (('acc, 'l) claims_state, ethereum_address \<times> balance, dispatch_error) comp" where
  "do_claim cfg network dest tx sig =
     and_then (gets (\<lambda>s. ElasticClaims s network tx)) (\<lambda>tx_info.
     case tx_info of
       None \<Rightarrow> fail (ClaimsError TxNotMinted)
     | Some (address, amount, claimed) \<Rightarrow>
         and_then (ensure (\<not> claimed) (ClaimsError AlreadyClaimed)) (\<lambda>_.
         and_then (lift (ok_or (claim_signer cfg dest tx sig)
                     (ClaimsError InvalidEthereumSignature))) (\<lambda>signer.
         and_then (ensure (address = signer) (ClaimsError SignatureNotMatch)) (\<lambda>_.
         and_then (credit cfg dest amount) (\<lambda>_.
         and_then (modify (insert_claim network tx (address, amount, True))) (\<lambda>_.
         ok (signer, amount)))))))"

definition do_burn ::
  "('o, 'acc, 'l) claims_config \<Rightarrow> 'acc \<Rightarrow> bridge_networks \<Rightarrow> balance \<Rightarrow>
   (('acc, 'l) claims_state, balance, dispatch_error) comp" where
  "do_burn cfg who network amount =
     and_then (gets (\<lambda>s. snd (bridge_fees s network))) (\<lambda>fee.
     and_then
       (if fee > 0
        then and_then (ensure (amount > fee) (ClaimsError InvalidAmount))
               (\<lambda>_. ok (saturating_sub amount fee, fee))
        else ok (amount, 0)) (\<lambda>(burn_amount, burn_fee).
     and_then (zoom ledger (\<lambda>l s. s\<lparr>ledger := l\<rparr>)
                (withdraw (c_currency cfg) who amount TRANSFER KeepAlive)) (\<lambda>_.
     and_then (if burn_fee > 0 then credit cfg (c_module_account cfg) burn_fee else ok ()) (\<lambda>_.
     ok burn_amount))))"

section \<open>Dispatchable calls\<close>

definition set_bridge_account_elastic ::
  "('o, 'acc, 'l) claims_config \<Rightarrow> 'o \<Rightarrow> bridge_networks \<Rightarrow> 'acc \<Rightarrow>
   (('acc, 'l) claims_state, unit, dispatch_error) comp" where
  "set_bridge_account_elastic cfg origin network to = transactional (
     and_then (lift (ensure_root (c_origins cfg) origin)) (\<lambda>_.
     and_then (modify (\<lambda>s. s\<lparr>ElasticBridgeAccounts :=
                (ElasticBridgeAccounts s)(network \<mapsto> some to)\<rparr>)) (\<lambda>_.
     deposit_event (ElasticBridgeAccountChanged network to))))"

definition set_claim_limit_elastic ::
  "('o, 'acc, 'l) claims_config \<Rightarrow> 'o \<Rightarrow> bridge_networks \<Rightarrow> balance \<Rightarrow>
   (('acc, 'l) claims_state, unit, dispatch_error) comp" where
  "set_claim_limit_elastic cfg origin network limit = transactional (
     and_then (lift (ensure_root (c_origins cfg) origin)) (\<lambda>_.
     and_then (modify (\<lambda>s. s\<lparr>ElasticClaimLimits :=
                (ElasticClaimLimits s)(network \<mapsto> limit)\<rparr>)) (\<lambda>_.
     deposit_event (ElasticClaimLimitUpdated network limit))))"

definition set_bridge_fee_elastic ::
  "('o, 'acc, 'l) claims_config \<Rightarrow> 'o \<Rightarrow> bridge_networks \<Rightarrow> balance \<Rightarrow> balance \<Rightarrow>
   (('acc, 'l) claims_state, unit, dispatch_error) comp" where
  "set_bridge_fee_elastic cfg origin network mint_fee burn_fee = transactional (
     and_then (lift (ensure_root (c_origins cfg) origin)) (\<lambda>_.
     and_then (modify (\<lambda>s. s\<lparr>BridgeFees :=
                (BridgeFees s)(network \<mapsto> (mint_fee, burn_fee))\<rparr>)) (\<lambda>_.
     deposit_event (ElasticFeeUpdated network mint_fee burn_fee))))"

definition mint_claim_elastic ::
  "('o, 'acc, 'l) claims_config \<Rightarrow> 'o \<Rightarrow> bridge_networks \<Rightarrow> ethereum_tx_hash \<Rightarrow>
   ethereum_address \<Rightarrow> balance \<Rightarrow> (('acc, 'l) claims_state, unit, dispatch_error) comp" where
  "mint_claim_elastic cfg origin network tx who value = transactional (
     and_then (lift (ensure_signed (c_origins cfg) origin)) (\<lambda>signer.
     and_then (do_mint_claim cfg signer network tx who value) (\<lambda>claim_amount.
     deposit_event (ElasticMintSuccess network tx who claim_amount))))"

definition claim_elastic ::
  "('o, 'acc, 'l) claims_config \<Rightarrow> 'o \<Rightarrow> bridge_networks \<Rightarrow> 'acc \<Rightarrow> ethereum_tx_hash \<Rightarrow>
   ecdsa_signature \<Rightarrow> (('acc, 'l) claims_state, unit, dispatch_error) comp" where
  "claim_elastic cfg origin network dest tx sig = transactional (
     and_then (lift (ensure_none (c_origins cfg) origin)) (\<lambda>_.
     and_then (do_claim cfg network dest tx sig) (\<lambda>(signer, amount).
     deposit_event (ElasticClaimed network dest signer amount))))"

definition burn_elastic ::
  "('o, 'acc, 'l) claims_config \<Rightarrow> 'o \<Rightarrow> bridge_networks \<Rightarrow> ethereum_address \<Rightarrow> balance \<Rightarrow>
   (('acc, 'l) claims_state, unit, dispatch_error) comp" where
  "burn_elastic cfg origin network dest amount = transactional (
     and_then (lift (ensure_signed (c_origins cfg) origin)) (\<lambda>who.
     and_then (do_burn cfg who network amount) (\<lambda>burn_amount.
     deposit_event (ElasticBurned network who dest burn_amount))))"

datatype 'acc claims_call =
    Set_bridge_account_elastic bridge_networks 'acc
  | Set_claim_limit_elastic bridge_networks balance
  | Set_bridge_fee_elastic bridge_networks balance balance
  | Mint_claim_elastic bridge_networks ethereum_tx_hash ethereum_address balance
  | Claim_elastic bridge_networks 'acc ethereum_tx_hash ecdsa_signature
  | Burn_elastic bridge_networks ethereum_address balance

fun claims_dispatch ::
  "('o, 'acc, 'l) claims_config \<Rightarrow> 'o \<Rightarrow> 'acc claims_call \<Rightarrow>
   (('acc, 'l) claims_state, unit, dispatch_error) comp" where
  "claims_dispatch cfg orig (Set_bridge_account_elastic n to) = set_bridge_account_elastic cfg orig n to"
| "claims_dispatch cfg orig (Set_claim_limit_elastic n v) = set_claim_limit_elastic cfg orig n v"
| "claims_dispatch cfg orig (Set_bridge_fee_elastic n m b) = set_bridge_fee_elastic cfg orig n m b"
| "claims_dispatch cfg orig (Mint_claim_elastic n tx who v) = mint_claim_elastic cfg orig n tx who v"
| "claims_dispatch cfg orig (Claim_elastic n dest tx sig) = claim_elastic cfg orig n dest tx sig"
| "claims_dispatch cfg orig (Burn_elastic n dest v) = burn_elastic cfg orig n dest v"

section \<open>Validation of unsigned claims\<close>

datatype validity_error = VInvalidEthereumSignature | VSignerHasNoClaim | VSignatureNotMatch | VAlreadyClaimed

fun validity_code :: "validity_error \<Rightarrow> u8" where
  "validity_code VInvalidEthereumSignature = 0"
| "validity_code VSignerHasNoClaim = 1"
| "validity_code VSignatureNotMatch = 2"
| "validity_code VAlreadyClaimed = 3"

datatype invalid_transaction = InvalidCall | Custom u8

record valid_transaction =
  priority :: u64
  requires :: "u8 list list"
  provides :: "u8 list list"
  longevity :: u64
  propagate :: bool

definition do_validate ::
  "('o, 'acc, 'l) claims_config \<Rightarrow> ('acc, 'l) claims_state \<Rightarrow> bridge_networks \<Rightarrow> 'acc \<Rightarrow>
   ethereum_tx_hash \<Rightarrow> ecdsa_signature \<Rightarrow> (valid_transaction, invalid_transaction) result" where
  "do_validate cfg s network account tx sig =
     result_bind (ok_or (claim_signer cfg account tx sig)
                   (Custom (validity_code VInvalidEthereumSignature))) (\<lambda>signer.
     case ElasticClaims s network tx of
       None \<Rightarrow> Err (Custom (validity_code VSignerHasNoClaim))
     | Some (address, _, claimed) \<Rightarrow>
         if address \<noteq> signer then Err (Custom (validity_code VSignatureNotMatch))
         else if claimed then Err (Custom (validity_code VAlreadyClaimed))
         else Ok \<lparr>priority = 100, requires = [],
                  provides = [c_encode_provides cfg ''claims'' signer],
                  longevity = - 1, propagate = True\<rparr>)"

fun validate_unsigned ::
  "('o, 'acc, 'l) claims_config \<Rightarrow> ('acc, 'l) claims_state \<Rightarrow> 'acc claims_call \<Rightarrow>
   (valid_transaction, invalid_transaction) result" where
  "validate_unsigned cfg s (Claim_elastic network account tx sig) = do_validate cfg s network account tx sig"
| "validate_unsigned cfg s _ = Err InvalidCall"

section \<open>The storage migration\<close>

text \<open>The body of the copy loop, for one entry of the old \<open>Claims\<close> map.\<close>

definition migrate_claim ::
  "ethereum_tx_hash \<times> claim_record option \<Rightarrow> ('acc, 'l) claims_state \<Rightarrow> ('acc, 'l) claims_state" where
  "migrate_claim kv s =
     (if ElasticClaims s BSC (fst kv) = None
      then (case snd kv of Some v \<Rightarrow> insert_claim BSC (fst kv) v s | None \<Rightarrow> s)
      else s)"

definition migrate_limit :: "('acc, 'l) claims_state \<Rightarrow> ('acc, 'l) claims_state" where
  "migrate_limit s =
     (if ClaimLimit s > 0
      then s\<lparr>ElasticClaimLimits := (ElasticClaimLimits s)(BSC \<mapsto> ClaimLimit s)\<rparr> else s)"

definition migrate_bridge_account :: "('acc, 'l) claims_state \<Rightarrow> ('acc, 'l) claims_state" where
  "migrate_bridge_account s =
     (case BridgeAccount s of
        Some account \<Rightarrow>
          if ElasticBridgeAccounts s BSC = None
          then s\<lparr>ElasticBridgeAccounts := (ElasticBridgeAccounts s)(BSC \<mapsto> some account)\<rparr>
          else s
      | None \<Rightarrow> s)"

definition migrate_fees :: "('acc, 'l) claims_state \<Rightarrow> ('acc, 'l) claims_state" where
  "migrate_fees s =
     (let mint_fee = (case MintFee s of Some v \<Rightarrow> v | None \<Rightarrow> 0);
          burn_fee = (case BurnFee s of Some v \<Rightarrow> v | None \<Rightarrow> 0)
      in if mint_fee > 0 \<or> burn_fee > 0
         then if BridgeFees s BSC = None
              then s\<lparr>BridgeFees := (BridgeFees s)(BSC \<mapsto> (mint_fee, burn_fee))\<rparr>
              else s
         else s)"

definition on_runtime_upgrade :: "('acc, 'l) claims_state \<Rightarrow> ('acc, 'l) claims_state \<times> u64" where
  "on_runtime_upgrade s =
     (if pallet_storage_version s \<ge> 2 then (s, 0)
      else (let s1 = fold migrate_claim (Claims s) s;
                s2 = migrate_limit s1;
                s3 = migrate_bridge_account s2;
                s4 = migrate_fees s3
            in (s4\<lparr>MintFee := None, BurnFee := None, Claims := [], BridgeAccount := None,
                  PalletStorageVersion := Some 2\<rparr>, 100)))"

section \<open>The pallet as a state machine\<close>

datatype ('o, 'acc) claims_label = Extrinsic 'o "'acc claims_call" | RuntimeUpgrade

fun claims_step ::
  "('o, 'acc, 'l) claims_config \<Rightarrow> ('o, 'acc) claims_label \<Rightarrow>
   ('acc, 'l) claims_state \<Rightarrow> ('acc, 'l) claims_state" where
  "claims_step cfg (Extrinsic orig c) s = fst (claims_dispatch cfg orig c s)"
| "claims_step cfg RuntimeUpgrade s = fst (on_runtime_upgrade s)"

definition claims_genesis :: "'l \<Rightarrow> ('acc, 'l) claims_state" where
  "claims_genesis l =
     \<lparr>BridgeAccount = None, ClaimLimit = 0, Claims = [], MintFee = None, BurnFee = None,
      ElasticBridgeAccounts = Map.empty, ElasticClaimLimits = Map.empty, BridgeFees = Map.empty,
      ElasticClaims = (\<lambda>_. Map.empty), PalletStorageVersion = None, events = [], ledger = l\<rparr>"

section \<open>Specification functions\<close>

text \<open>A record is never lost, never changes its beneficiary or amount, never becomes unclaimed.\<close>

definition claims_le :: "('acc, 'l) claims_state \<Rightarrow> ('acc, 'l) claims_state \<Rightarrow> bool" where
  "claims_le s t \<longleftrightarrow>
     (\<forall>n tx a v c. ElasticClaims s n tx = Some (a, v, c) \<longrightarrow>
        (\<exists>c'. ElasticClaims t n tx = Some (a, v, c') \<and> (c \<longrightarrow> c')))"

text \<open>Events are only ever appended.\<close>

definition history_le :: "('acc, 'l) claims_state \<Rightarrow> ('acc, 'l) claims_state \<Rightarrow> bool" where
  "history_le s t \<longleftrightarrow> (\<exists>es. events t = events s @ es)"

text \<open>The amounts minted and paid out for a network, by the events deposited.\<close>

fun minted_by :: "bridge_networks \<Rightarrow> 'acc claims_event \<Rightarrow> nat" where
  "minted_by n (ElasticMintSuccess m tx who v) = (if m = n then unat v else 0)"
| "minted_by n _ = 0"

fun paid_by :: "bridge_networks \<Rightarrow> 'acc claims_event \<Rightarrow> nat" where
  "paid_by n (ElasticClaimed m dest signer v) = (if m = n then unat v else 0)"
| "paid_by n _ = 0"

definition minted :: "bridge_networks \<Rightarrow> ('acc, 'l) claims_state \<Rightarrow> nat" where
  "minted n s = sum_list (map (minted_by n) (events s))"

definition paid :: "bridge_networks \<Rightarrow> ('acc, 'l) claims_state \<Rightarrow> nat" where
  "paid n s = sum_list (map (paid_by n) (events s))"

definition record_amount :: "claim_record \<Rightarrow> nat" where
  "record_amount r = unat (fst (snd r))"

definition record_paid :: "claim_record \<Rightarrow> nat" where
  "record_paid r = (if snd (snd r) then unat (fst (snd r)) else 0)"

text \<open>A step that sets the limit of a network anew; what is left of a limit plus what was minted.\<close>

definition resets_limit :: "bridge_networks \<Rightarrow> ('o, 'acc) claims_label \<Rightarrow> bool" where
  "resets_limit n l =
     (case l of Extrinsic orig (Set_claim_limit_elastic m v) \<Rightarrow> m = n
      | Extrinsic orig c \<Rightarrow> False
      | RuntimeUpgrade \<Rightarrow> n = BSC)"

definition limit_room :: "bridge_networks \<Rightarrow> ('acc, 'l) claims_state \<Rightarrow> nat" where
  "limit_room n s = unat (elastic_claim_limits s n) + minted n s"

text \<open>The books balance: the events agree with the records.\<close>

definition claims_balanced :: "('acc, 'l) claims_state \<Rightarrow> bool" where
  "claims_balanced s \<longleftrightarrow>
     Claims s = [] \<and>
     (\<forall>n. finite (dom (ElasticClaims s n)) \<and>
          minted n s = map_total record_amount (ElasticClaims s n) \<and>
          paid n s = map_total record_paid (ElasticClaims s n))"

text \<open>The bytes whose hash is signed for a claim.\<close>

definition claim_message ::
  "('o, 'acc, 'l) claims_config \<Rightarrow> 'acc \<Rightarrow> ethereum_tx_hash \<Rightarrow> u8 list" where
  "claim_message cfg dest tx =
     ethereum_signable_message (c_prefix cfg) (to_ascii_hex (c_encode_account cfg dest))
       (to_ascii_hex (c_encode_tx cfg tx))"

section \<open>A configuration for witnesses\<close>

definition demo_claims :: "(nat raw_origin, nat, nat book) claims_config" where
  "demo_claims =
     \<lparr>c_origins = raw_origins, c_currency = book, c_crypto = null_crypto,
      c_module_account = 99, c_prefix = ascii ''Pay CLVs to the Clover account:'',
      c_encode_account = (\<lambda>a. bytes_list (Bytes (replicate 32 (of_nat a)) :: 32 bytes)),
      c_encode_tx = (\<lambda>tx. case tx of EthereumTxHash h \<Rightarrow> bytes_list h),
      c_encode_provides = (\<lambda>tag a. ascii tag)\<rparr>"

definition demo_tx :: ethereum_tx_hash where
  "demo_tx = EthereumTxHash zero_array"

definition demo_address :: ethereum_address where
  "demo_address = EthereumAddress zero_array"

definition demo_sig :: ecdsa_signature where
  "demo_sig = EcdsaSignature zero_array"

text \<open>Account 1 is the bridge account of BSC, which may mint up to 2000, for a fee of 10.\<close>

definition demo_setup :: "(nat raw_origin, nat) claims_label list" where
  "demo_setup =
     [Extrinsic RootOrigin (Set_bridge_account_elastic BSC 1),
      Extrinsic RootOrigin (Set_claim_limit_elastic BSC 2000),
      Extrinsic RootOrigin (Set_bridge_fee_elastic BSC 10 20),
      Extrinsic (SignedBy 1) (Mint_claim_elastic BSC demo_tx demo_address 1200)]"

definition demo_minted :: "(nat, nat book) claims_state" where
  "demo_minted = run (claims_step demo_claims) demo_setup (claims_genesis ((\<lambda>_. 500), 5000))"

definition demo_configured :: "(nat, nat book) claims_state" where
  "demo_configured =
     \<lparr>BridgeAccount = None, ClaimLimit = 0, Claims = [], MintFee = None, BurnFee = None,
      ElasticBridgeAccounts = [BSC \<mapsto> Some 1], ElasticClaimLimits = [BSC \<mapsto> 2000],
      BridgeFees = [BSC \<mapsto> (10, 20)], ElasticClaims = (\<lambda>_. Map.empty), PalletStorageVersion = None,
      events = [ElasticBridgeAccountChanged BSC 1, ElasticClaimLimitUpdated BSC 2000,
        ElasticFeeUpdated BSC 10 20], ledger = (\<lambda>_. 500, 5000)\<rparr>"

definition demo_claimed :: "(nat, nat book) claims_state" where
  "demo_claimed =
     demo_minted\<lparr>ElasticClaims := (\<lambda>_. Map.empty)(BSC := [demo_tx \<mapsto> (demo_address, 1190, True)]),
       ledger := ((\<lambda>_. 500)(99 := 510, 7 := 1690), 6200),
       events := events demo_minted @ [ElasticClaimed BSC 7 demo_address 1190]\<rparr>"

definition demo_mint :: "(nat raw_origin, nat) claims_label" where
  "demo_mint = Extrinsic (SignedBy 1)
     (Mint_claim_elastic BSC (EthereumTxHash (Bytes (replicate 32 1))) demo_address 100)"

text \<open>A state of the old version, with one record.\<close>

definition demo_legacy :: "(nat, nat book) claims_state" where
  "demo_legacy = (claims_genesis ((\<lambda>_. 500), 5000))
     \<lparr>Claims := [(demo_tx, Some (demo_address, 7, True))], ClaimLimit := 42, BridgeAccount := Some 3\<rparr>"

definition demo_claims32 :: "(32 bytes raw_origin, 32 bytes, 32 bytes book) claims_config" where
  "demo_claims32 =
     \<lparr>c_origins = raw_origins, c_currency = book, c_crypto = null_crypto,
      c_module_account = zero_array, c_prefix = [],
      c_encode_account = bytes_list,
      c_encode_tx = (\<lambda>tx. case tx of EthereumTxHash h \<Rightarrow> bytes_list h),
      c_encode_provides = (\<lambda>tag a. ascii tag)\<rparr>"

section \<open>What each operation does when it succeeds\<close>

lemma credit_eq [simp]:
  "credit cfg who v s = (t, r) \<longleftrightarrow>
     t = s\<lparr>ledger := deposit_creating (c_currency cfg) who v (ledger s)\<rparr> \<and> r = Ok ()"
  by (auto simp: credit_def)

lemma deposit_event_eq [simp]:
  "deposit_event e s = (t, r) \<longleftrightarrow> t = s\<lparr>events := events s @ [e]\<rparr> \<and> r = Ok ()"
  by (auto simp: deposit_event_def)

lemma do_mint_claim_Ok:
  "do_mint_claim cfg from n tx who v s = (t, Ok a) \<longleftrightarrow>
     Some from = elastic_bridge_accounts s n \<and> ElasticClaims s n tx = None \<and>
     v \<le> elastic_claim_limits s n \<and>
     (fst (bridge_fees s n) > 0 \<longrightarrow> v > fst (bridge_fees s n)) \<and>
     a = saturating_sub v (fst (bridge_fees s n)) \<and>
     t = (insert_claim n tx (who, a, False) s)
           \<lparr>ElasticClaimLimits := (ElasticClaimLimits s)
              (n \<mapsto> saturating_sub (elastic_claim_limits s n) a),
            ledger := (if fst (bridge_fees s n) > 0
              then deposit_creating (c_currency cfg) (c_module_account cfg)
                     (fst (bridge_fees s n)) (ledger s)
              else ledger s)\<rparr>"
  by (cases "fst (bridge_fees s n) > 0")
    (auto simp: do_mint_claim_def Let_def insert_claim_def elastic_claim_limits_def)

lemma do_claim_Ok:
  "do_claim cfg n dest tx sig s = (t, Ok r) \<longleftrightarrow>
     (\<exists>a v. ElasticClaims s n tx = Some (a, v, False) \<and> claim_signer cfg dest tx sig = Some a \<and>
        r = (a, v) \<and>
        t = (insert_claim n tx (a, v, True) s)
              \<lparr>ledger := deposit_creating (c_currency cfg) dest v (ledger s)\<rparr>)"
  by (auto simp: do_claim_def insert_claim_def split: option.splits)

lemma do_burn_Ok:
  "do_burn cfg who n v s = (t, Ok b) \<longleftrightarrow>
     (\<exists>l. (snd (bridge_fees s n) > 0 \<longrightarrow> v > snd (bridge_fees s n)) \<and>
        b = saturating_sub v (snd (bridge_fees s n)) \<and>
        withdraw (c_currency cfg) who v TRANSFER KeepAlive (ledger s) = (l, Ok ()) \<and>
        t = s\<lparr>ledger := (if snd (bridge_fees s n) > 0
              then deposit_creating (c_currency cfg) (c_module_account cfg)
                     (snd (bridge_fees s n)) l
              else l)\<rparr>)"
  by (cases "snd (bridge_fees s n) > 0") (auto simp: do_burn_def)

lemmas claims_call_defs = set_bridge_account_elastic_def set_claim_limit_elastic_def
  set_bridge_fee_elastic_def mint_claim_elastic_def claim_elastic_def burn_elastic_def

text \<open>Every call is a transaction: a call that fails leaves the state as it was.\<close>

lemma claims_dispatch_Err: "claims_dispatch cfg orig c s = (t, Err e) \<Longrightarrow> t = s"
  by (cases c) (auto simp: claims_call_defs)

lemma claims_step_cases:
  assumes "\<And>t. claims_dispatch cfg orig c s = (t, Ok ()) \<Longrightarrow> P t" and "P s"
  shows "P (claims_step cfg (Extrinsic orig c) s)"
proof (cases "claims_dispatch cfg orig c s")
  case (Pair t r)
  then show ?thesis using assms by (cases r) (auto dest: claims_dispatch_Err)
qed

section \<open>Records only grow\<close>

lemma claims_le_refl: "claims_le s s"
  by (simp add: claims_le_def)

lemma claims_le_trans: "claims_le s t \<Longrightarrow> claims_le t u \<Longrightarrow> claims_le s u"
  unfolding claims_le_def by fastforce

lemma claims_le_claimed:
  "claims_le s t \<Longrightarrow> ElasticClaims s n tx = Some (a, v, True) \<Longrightarrow>
     ElasticClaims t n tx = Some (a, v, True)"
  unfolding claims_le_def by fastforce

lemma claims_le_present:
  "claims_le s t \<Longrightarrow> ElasticClaims s n tx \<noteq> None \<Longrightarrow> ElasticClaims t n tx \<noteq> None"
  unfolding claims_le_def by fastforce

lemma claims_le_same: "ElasticClaims t = ElasticClaims s \<Longrightarrow> claims_le s t"
  by (simp add: claims_le_def)

lemma ElasticClaims_insert_claim [simp]:
  "ElasticClaims (insert_claim n tx r s) = (ElasticClaims s)(n := (ElasticClaims s n)(tx \<mapsto> r))"
  by (simp add: insert_claim_def)

lemma claims_le_insert_new: "ElasticClaims s n tx = None \<Longrightarrow> claims_le s (insert_claim n tx r s)"
  by (auto simp: claims_le_def)

lemma claims_dispatch_le:
  "claims_dispatch cfg orig c s = (t, Ok ()) \<Longrightarrow> claims_le s t"
  by (cases c) (auto simp: claims_call_defs do_mint_claim_Ok do_claim_Ok do_burn_Ok claims_le_def)

lemma migrate_claim_le: "claims_le s (migrate_claim kv s)"
  by (auto simp: migrate_claim_def claims_le_refl claims_le_insert_new split: option.splits)

lemma migrate_claims_le: "claims_le s (fold migrate_claim kvs s)"
  by (induction kvs arbitrary: s)
    (auto simp: claims_le_refl intro: claims_le_trans migrate_claim_le)

lemma migrate_rest_claims [simp]:
  "ElasticClaims (migrate_limit s) = ElasticClaims s"
  "ElasticClaims (migrate_bridge_account s) = ElasticClaims s"
  "ElasticClaims (migrate_fees s) = ElasticClaims s"
  by (simp_all add: migrate_limit_def migrate_bridge_account_def migrate_fees_def Let_def
      split: option.splits)

lemma on_runtime_upgrade_le: "claims_le s (fst (on_runtime_upgrade s))"
proof (cases "pallet_storage_version s \<ge> 2")
  case True
  then show ?thesis by (simp add: on_runtime_upgrade_def claims_le_refl)
next
  case False
  have "claims_le s (fold migrate_claim (Claims s) s)" by (rule migrate_claims_le)
  with False show ?thesis by (simp add: on_runtime_upgrade_def Let_def claims_le_def)
qed

interpretation records: step_order "claims_step cfg" claims_le for cfg
proof
  fix l s
  show "claims_le s (claims_step cfg l s)"
  proof (cases l)
    case (Extrinsic orig c)
    show ?thesis unfolding Extrinsic
      by (rule claims_step_cases) (auto intro: claims_dispatch_le claims_le_refl)
  next
    case RuntimeUpgrade
    then show ?thesis by (simp add: on_runtime_upgrade_le)
  qed
qed (fact claims_le_refl claims_le_trans)+

section \<open>The books balance\<close>

lemma minted_snoc: "events t = events s @ [e] \<Longrightarrow> minted n t = minted n s + minted_by n e"
  by (simp add: minted_def)

lemma paid_snoc: "events t = events s @ [e] \<Longrightarrow> paid n t = paid n s + paid_by n e"
  by (simp add: paid_def)

lemma events_insert_claim [simp]: "events (insert_claim n tx r s) = events s"
  and Claims_insert_claim [simp]: "Claims (insert_claim n tx r s) = Claims s"
  by (simp_all add: insert_claim_def)

lemma claims_balanced_genesis: "claims_balanced (claims_genesis l)"
  by (simp add: claims_balanced_def claims_genesis_def minted_def paid_def)

lemma claims_balanced_same:
  "claims_balanced s \<Longrightarrow> Claims t = Claims s \<Longrightarrow> ElasticClaims t = ElasticClaims s \<Longrightarrow>
     (\<And>n. minted n t = minted n s) \<Longrightarrow> (\<And>n. paid n t = paid n s) \<Longrightarrow> claims_balanced t"
  by (simp add: claims_balanced_def)

lemma balanced_mint:
  assumes "claims_balanced s" and "do_mint_claim cfg from n tx who v s = (u, Ok a)"
    and "t = u\<lparr>events := events u @ [ElasticMintSuccess n tx who a]\<rparr>"
  shows "claims_balanced t"
proof -
  from assms(2) have new: "ElasticClaims s n tx = None" and u: "ElasticClaims u =
      (ElasticClaims s)(n := (ElasticClaims s n)(tx \<mapsto> (who, a, False)))"
    "events u = events s" "Claims u = Claims s"
    by (auto simp: do_mint_claim_Ok)
  show ?thesis
    using assms(1) new
    by (auto simp: claims_balanced_def assms(3) u minted_def paid_def map_total_upd_new
        record_amount_def record_paid_def)
qed

lemma balanced_claim:
  assumes "claims_balanced s" and "do_claim cfg n dest tx sig s = (u, Ok (a, v))"
    and "t = u\<lparr>events := events u @ [ElasticClaimed n dest a v]\<rparr>"
  shows "claims_balanced t"
proof -
  from assms(2) have old: "ElasticClaims s n tx = Some (a, v, False)" and u: "ElasticClaims u =
      (ElasticClaims s)(n := (ElasticClaims s n)(tx \<mapsto> (a, v, True)))"
    "events u = events s" "Claims u = Claims s"
    by (auto simp: do_claim_Ok)
  let ?m = "ElasticClaims s n" and ?m' = "(ElasticClaims s n)(tx \<mapsto> (a, v, True))"
  have fin: "finite (dom ?m)" using assms(1) by (simp add: claims_balanced_def)
  have "map_total record_amount ?m' = map_total record_amount ?m"
    using map_total_upd_old [OF fin old, of record_amount "(a, v, True)"]
    by (simp add: record_amount_def)
  moreover have "map_total record_paid ?m' = map_total record_paid ?m + unat v"
    using map_total_upd_old [OF fin old, of record_paid "(a, v, True)"]
    by (simp add: record_paid_def)
  ultimately show ?thesis
    using assms(1) by (auto simp: claims_balanced_def assms(3) u minted_def paid_def)
qed

lemma balanced_dispatch:
  assumes "claims_balanced s" and "claims_dispatch cfg orig c s = (t, Ok ())"
  shows "claims_balanced t"
proof (cases c)
  case Mint_claim_elastic
  with assms show ?thesis by (auto simp: claims_call_defs intro: balanced_mint)
next
  case Claim_elastic
  with assms show ?thesis by (auto simp: claims_call_defs intro: balanced_claim)
qed (use assms in \<open>auto simp: claims_call_defs do_burn_Ok minted_def paid_def
    elim!: claims_balanced_same\<close>)

lemma balanced_upgrade: "claims_balanced s \<Longrightarrow> claims_balanced (fst (on_runtime_upgrade s))"
  by (auto simp: on_runtime_upgrade_def Let_def migrate_limit_def migrate_bridge_account_def
      migrate_fees_def claims_balanced_def minted_def paid_def split: option.splits)

interpretation books: step_invariant "claims_step cfg" claims_balanced for cfg
proof
  fix l and s :: "('b, 'c) claims_state"
  assume bal: "claims_balanced s"
  show "claims_balanced (claims_step cfg l s)"
  proof (cases l)
    case (Extrinsic orig c)
    show ?thesis unfolding Extrinsic
      by (rule claims_step_cases) (auto intro: balanced_dispatch bal)
  next
    case RuntimeUpgrade
    with bal show ?thesis by (simp add: balanced_upgrade)
  qed
qed

section \<open>The migration\<close>

lemma migrate_claim_other [simp]:
  "n \<noteq> BSC \<or> k \<noteq> fst kv \<Longrightarrow> ElasticClaims (migrate_claim kv s) n k = ElasticClaims s n k"
  by (auto simp: migrate_claim_def split: option.splits)

lemma migrate_claims_other: "ElasticClaims (fold migrate_claim kvs s) Ethereum = ElasticClaims s Ethereum"
  by (induction kvs arbitrary: s) (auto simp: fun_eq_iff)

lemma migrate_claims_absent:
  "k \<notin> fst ` set kvs \<Longrightarrow> ElasticClaims (fold migrate_claim kvs s) BSC k = ElasticClaims s BSC k"
  by (induction kvs arbitrary: s) auto

lemma migrate_claim_self [simp]:
  "ElasticClaims (migrate_claim (j, v) s) BSC j =
     (case ElasticClaims s BSC j of Some r \<Rightarrow> Some r | None \<Rightarrow> v)"
  by (auto simp: migrate_claim_def split: option.splits)

lemma migrate_claims_BSC:
  "distinct (map fst kvs) \<Longrightarrow> ElasticClaims (fold migrate_claim kvs s) BSC k =
     (case ElasticClaims s BSC k of Some r \<Rightarrow> Some r
      | None \<Rightarrow> (case map_of kvs k of Some v \<Rightarrow> v | None \<Rightarrow> None))"
proof (induction kvs arbitrary: s)
  case Nil
  show ?case by (simp split: option.splits)
next
  case (Cons kv kvs)
  obtain j v where kv: "kv = (j, v)" by (cases kv)
  show ?case
  proof (cases "k = j")
    case True
    with Cons.prems kv have "k \<notin> fst ` set kvs" by auto
    with True kv show ?thesis
      by (simp add: migrate_claims_absent split: option.splits)
  next
    case False
    with Cons kv show ?thesis by (simp split: option.splits)
  qed
qed

lemma fold_migrate_frame [simp]:
  "ClaimLimit (fold migrate_claim kvs s) = ClaimLimit s"
  "BridgeAccount (fold migrate_claim kvs s) = BridgeAccount s"
  "MintFee (fold migrate_claim kvs s) = MintFee s"
  "BurnFee (fold migrate_claim kvs s) = BurnFee s"
  "ElasticClaimLimits (fold migrate_claim kvs s) = ElasticClaimLimits s"
  "ElasticBridgeAccounts (fold migrate_claim kvs s) = ElasticBridgeAccounts s"
  "BridgeFees (fold migrate_claim kvs s) = BridgeFees s"
  "ledger (fold migrate_claim kvs s) = ledger s"
  "events (fold migrate_claim kvs s) = events s"
  by (induction kvs arbitrary: s)
    (auto simp: migrate_claim_def insert_claim_def split: option.splits)

lemma migrate_settings [simp]:
  "ElasticClaimLimits (migrate_bridge_account s) = ElasticClaimLimits s" "ClaimLimit (migrate_bridge_account s) = ClaimLimit s"
  "BridgeFees (migrate_bridge_account s) = BridgeFees s" "MintFee (migrate_bridge_account s) = MintFee s"
  "BurnFee (migrate_bridge_account s) = BurnFee s" "ledger (migrate_bridge_account s) = ledger s"
  "events (migrate_bridge_account s) = events s"
  "ElasticClaimLimits (migrate_fees s) = ElasticClaimLimits s" "ClaimLimit (migrate_fees s) = ClaimLimit s"
  "ElasticBridgeAccounts (migrate_fees s) = ElasticBridgeAccounts s" "BridgeAccount (migrate_fees s) = BridgeAccount s"
  "ledger (migrate_fees s) = ledger s" "events (migrate_fees s) = events s"
  "BridgeFees (migrate_limit s) = BridgeFees s" "MintFee (migrate_limit s) = MintFee s" "BurnFee (migrate_limit s) = BurnFee s"
  "ElasticBridgeAccounts (migrate_limit s) = ElasticBridgeAccounts s" "BridgeAccount (migrate_limit s) = BridgeAccount s"
  "ledger (migrate_limit s) = ledger s" "events (migrate_limit s) = events s" "ClaimLimit (migrate_limit s) = ClaimLimit s"
  by (auto simp: migrate_bridge_account_def migrate_fees_def migrate_limit_def Let_def split: option.splits)

lemma upgrade_version: "pallet_storage_version (fst (on_runtime_upgrade s)) \<ge> 2"
  by (auto simp: on_runtime_upgrade_def pallet_storage_version_def Let_def)

lemma upgrade_again: "on_runtime_upgrade (fst (on_runtime_upgrade s)) = (fst (on_runtime_upgrade s), 0)"
  using upgrade_version [of s] by (simp add: on_runtime_upgrade_def [of "fst (on_runtime_upgrade s)"])

section \<open>Events are only appended\<close>

lemma history_le_refl: "history_le s s"
  by (simp add: history_le_def)

lemma history_le_trans: "history_le s t \<Longrightarrow> history_le t u \<Longrightarrow> history_le s u"
  by (auto simp: history_le_def)

lemma claims_dispatch_history:
  "claims_dispatch cfg orig c s = (t, Ok ()) \<Longrightarrow> history_le s t"
  by (cases c)
    (auto simp: claims_call_defs do_mint_claim_Ok do_claim_Ok do_burn_Ok history_le_def)

lemma upgrade_history: "history_le s (fst (on_runtime_upgrade s))"
  by (auto simp: on_runtime_upgrade_def Let_def migrate_limit_def migrate_bridge_account_def
      migrate_fees_def history_le_def split: option.splits)

interpretation history: step_order "claims_step cfg" history_le for cfg
proof
  fix l s
  show "history_le s (claims_step cfg l s)"
  proof (cases l)
    case (Extrinsic orig c)
    show ?thesis unfolding Extrinsic
      by (rule claims_step_cases) (auto intro: claims_dispatch_history history_le_refl)
  next
    case RuntimeUpgrade
    then show ?thesis by (simp add: upgrade_history)
  qed
qed (fact history_le_refl history_le_trans)+

lemma minted_mono: "history_le s t \<Longrightarrow> minted n s \<le> minted n t"
  by (auto simp: history_le_def minted_def)

section \<open>The claim limit\<close>

lemma elastic_claim_limits_upd [simp]:
  "elastic_claim_limits (s\<lparr>ElasticClaimLimits := (ElasticClaimLimits s)(m \<mapsto> v)\<rparr>) n =
     (if n = m then v else elastic_claim_limits s n)"
  by (simp add: elastic_claim_limits_def)

lemma mint_limit_room:
  assumes "do_mint_claim cfg from m tx who v s = (u, Ok a)"
  shows "limit_room n (u\<lparr>events := events u @ [ElasticMintSuccess m tx who a]\<rparr>) = limit_room n s"
proof -
  from assms have a: "unat a \<le> unat (elastic_claim_limits s m)"
    by (auto simp: do_mint_claim_Ok word_nat word_le_nat_alt)
  from assms have u: "ElasticClaimLimits u = (ElasticClaimLimits s)
      (m \<mapsto> saturating_sub (elastic_claim_limits s m) a)" "events u = events s"
    by (auto simp: do_mint_claim_Ok)
  show ?thesis
    using a by (auto simp: limit_room_def minted_def elastic_claim_limits_def u word_nat)
qed

lemma step_limit_room:
  assumes "\<not> resets_limit n l"
  shows "limit_room n (claims_step cfg l s) = limit_room n s"
proof (cases l)
  case (Extrinsic orig c)
  show ?thesis unfolding Extrinsic
  proof (rule claims_step_cases)
    fix t
    assume d: "claims_dispatch cfg orig c s = (t, Ok ())"
    show "limit_room n t = limit_room n s"
    proof (cases c)
      case Mint_claim_elastic
      with d show ?thesis by (auto simp: claims_call_defs mint_limit_room)
    qed (use d assms Extrinsic in \<open>auto simp: claims_call_defs do_claim_Ok do_burn_Ok limit_room_def
          minted_def resets_limit_def elastic_claim_limits_def insert_claim_def\<close>)
  qed simp
next
  case RuntimeUpgrade
  with assms have "n = Ethereum" by (cases n) (auto simp: resets_limit_def)
  with RuntimeUpgrade show ?thesis
    by (auto simp: on_runtime_upgrade_def Let_def limit_room_def minted_def
        elastic_claim_limits_def migrate_limit_def migrate_bridge_account_def migrate_fees_def
        split: option.splits)
qed

lemma run_limit_room:
  "(\<And>l. l \<in> set ls \<Longrightarrow> \<not> resets_limit n l) \<Longrightarrow>
     limit_room n (run (claims_step cfg) ls s) = limit_room n s"
  by (induction ls arbitrary: s) (auto simp: run_def step_limit_room)

section \<open>Validation, configuration and the demonstration states\<close>

lemma do_validate_Ok:
  "do_validate cfg s n dest tx sig = Ok vt \<longleftrightarrow>
     (\<exists>a v. ElasticClaims s n tx = Some (a, v, False) \<and> claim_signer cfg dest tx sig = Some a \<and>
        vt = \<lparr>priority = 100, requires = [], provides = [c_encode_provides cfg ''claims'' a],
              longevity = - 1, propagate = True\<rparr>)"
  by (cases "claim_signer cfg dest tx sig"; cases "ElasticClaims s n tx")
    (auto simp: do_validate_def split: if_splits)

lemma configuration_kept:
  assumes "ensure_root (c_origins cfg) orig \<noteq> Ok ()"
    and "claims_dispatch cfg orig c s = (t, Ok x)"
  shows "ElasticBridgeAccounts t = ElasticBridgeAccounts s \<and> BridgeFees t = BridgeFees s \<and>
    elastic_claim_limits t n \<le> elastic_claim_limits s n"
proof (cases c)
  case (Mint_claim_elastic m tx who v)
  with assms(2) obtain b where "ElasticClaimLimits t = (ElasticClaimLimits s)
      (m \<mapsto> saturating_sub (elastic_claim_limits s m) b)"
    "ElasticBridgeAccounts t = ElasticBridgeAccounts s" "BridgeFees t = BridgeFees s"
    by (auto simp: claims_call_defs do_mint_claim_Ok insert_claim_def)
  then show ?thesis by (simp add: elastic_claim_limits_def word_le_nat_alt word_nat)
qed (use assms in \<open>auto simp: claims_call_defs do_claim_Ok do_burn_Ok insert_claim_def
    elastic_claim_limits_def\<close>)

lemma demo_simps [simp]:
  "c_origins demo_claims = raw_origins" "c_currency demo_claims = book"
  "c_crypto demo_claims = null_crypto" "c_module_account demo_claims = 99"
  by (simp_all add: demo_claims_def)

lemma hash_tail_zero [simp]: "hash_tail zero_array = zero_array"
  by (simp add: hash_tail_def zero_array_def)

lemma demo_signer [simp]: "claim_signer demo_claims dest tx demo_sig = Some demo_address"
  by (simp add: claim_signer_def eth_recover_def eth_recover_bytes_def demo_sig_def demo_address_def)

lemma demo_minted_eq:
  "demo_minted = \<lparr>BridgeAccount = None, ClaimLimit = 0, Claims = [], MintFee = None, BurnFee = None,
      ElasticBridgeAccounts = [BSC \<mapsto> Some 1], ElasticClaimLimits = [BSC \<mapsto> 810],
      BridgeFees = [BSC \<mapsto> (10, 20)],
      ElasticClaims = (\<lambda>_. Map.empty)(BSC := [demo_tx \<mapsto> (demo_address, 1190, False)]),
      PalletStorageVersion = None,
      events = [ElasticBridgeAccountChanged BSC 1, ElasticClaimLimitUpdated BSC 2000,
        ElasticFeeUpdated BSC 10 20, ElasticMintSuccess BSC demo_tx demo_address 1190],
      ledger = ((\<lambda>_. 500)(99 := 510), 5010)\<rparr>"
  by (simp add: demo_minted_def demo_setup_def run_def claims_genesis_def claims_call_defs
      do_mint_claim_def comp_eval deposit_event_def credit_def insert_claim_def
      elastic_bridge_accounts_def elastic_claim_limits_def bridge_fees_def saturating_sub_def
      book_deposit_def checked_add_def saturating_add_def)

lemma demo_mint_Ok:
  "claims_dispatch demo_claims (SignedBy 1) (Mint_claim_elastic BSC demo_tx demo_address 1200)
     demo_configured = (demo_minted, Ok ())"
  unfolding demo_configured_def demo_minted_eq
  by (simp add: claims_call_defs do_mint_claim_def comp_eval deposit_event_def credit_def
      insert_claim_def elastic_bridge_accounts_def elastic_claim_limits_def bridge_fees_def
      saturating_sub_def book_deposit_def checked_add_def saturating_add_def)

lemma demo_claim_Ok:
  "claims_dispatch demo_claims NoOrigin (Claim_elastic BSC 7 demo_tx demo_sig) demo_minted =
     (demo_claimed, Ok ())"
  by (simp add: demo_claimed_def demo_minted_eq claims_call_defs do_claim_def comp_eval deposit_event_def
      credit_def insert_claim_def book_deposit_def checked_add_def saturating_add_def)

section \<open>Properties\<close>

text \<open>
  C1. A claim is paid at most once. After a successful \<open>claim_elastic\<close> for a
  network and a transaction hash, and after any further sequence of calls and
  runtime upgrades, every other attempt to claim the same transaction on that
  network fails with \<open>AlreadyClaimed\<close> and changes nothing, whoever the
  destination is and whatever the signature.
\<close>

theorem claim_at_most_once:
  assumes "claims_dispatch cfg orig (Claim_elastic n dest tx sig) s = (t, Ok ())"
    and "ensure_none (c_origins cfg) orig' = Ok ()"
    and "u = run (claims_step cfg) ls t"
  shows "claims_dispatch cfg orig' (Claim_elastic n dest' tx sig') u =
    (u, Err (ClaimsError AlreadyClaimed))"
proof -
  from assms(1) obtain a v where t: "ElasticClaims t n tx = Some (a, v, True)"
    by (auto simp: claims_call_defs do_claim_Ok)
  have "claims_le t u" unfolding assms(3) by (rule records.run_increases)
  from claims_le_claimed [OF this t] have "ElasticClaims u n tx = Some (a, v, True)" .
  with assms(2) show ?thesis by (auto simp: claims_call_defs do_claim_def)
qed

theorem claim_at_most_once_witness:
  "snd (claims_dispatch demo_claims NoOrigin (Claim_elastic BSC 8 demo_tx demo_sig)
     (run (claims_step demo_claims) [RuntimeUpgrade]
       demo_claimed)) = Err (ClaimsError AlreadyClaimed)"
proof -
  have none: "ensure_none (c_origins demo_claims) NoOrigin = Ok ()" by simp
  show ?thesis using claim_at_most_once [OF demo_claim_Ok none refl]
    by (simp only: snd_conv)
qed

text \<open>
  C2. The bridge never pays out more than was minted. In every state reached from
  the empty pallet by any sequence of calls and upgrades, for each network, the
  amounts of all successful claims together do not exceed the amounts of all
  successful mints, and both equal the totals of the stored records.
\<close>

theorem paid_within_minted:
  "let s = run (claims_step cfg) ls (claims_genesis l) in
     paid n s \<le> minted n s \<and>
     minted n s = map_total record_amount (ElasticClaims s n) \<and>
     paid n s = map_total record_paid (ElasticClaims s n)"
proof -
  have "claims_balanced (run (claims_step cfg) ls (claims_genesis l))"
    by (rule books.run_keeps [OF claims_balanced_genesis])
  moreover have "map_total record_paid m \<le> map_total record_amount m" for m :: "'k \<rightharpoonup> claim_record"
    by (rule map_total_mono) (simp add: record_paid_def record_amount_def)
  ultimately show ?thesis by (simp add: claims_balanced_def Let_def)
qed

text \<open>
  C3. The claim limit bounds minting. Over any sequence of steps that does not set
  the limit of a network anew, the limit that is left plus the total minted for
  the network stays constant, so no more than the limit at the start is minted.
\<close>

theorem minting_within_limit:
  assumes "list_all (\<lambda>l. \<not> resets_limit n l) ls"
  shows "unat (elastic_claim_limits (run (claims_step cfg) ls s) n) +
      (minted n (run (claims_step cfg) ls s) - minted n s) = unat (elastic_claim_limits s n)
    \<and> minted n s \<le> minted n (run (claims_step cfg) ls s)"
proof -
  have "limit_room n (run (claims_step cfg) ls s) = limit_room n s"
    using assms by (auto simp: list_all_iff intro: run_limit_room)
  moreover have "minted n s \<le> minted n (run (claims_step cfg) ls s)"
    by (rule minted_mono [OF history.run_increases])
  ultimately show ?thesis by (auto simp: limit_room_def)
qed

theorem minting_within_limit_witness:
  "unat (elastic_claim_limits (run (claims_step demo_claims) [demo_mint] demo_minted) BSC) +
    (minted BSC (run (claims_step demo_claims) [demo_mint] demo_minted) - minted BSC demo_minted) = 810"
proof -
  have "list_all (\<lambda>l. \<not> resets_limit BSC l) [demo_mint]"
    by (simp add: resets_limit_def demo_mint_def)
  moreover have "elastic_claim_limits demo_minted BSC = 810"
    by (simp add: demo_minted_eq elastic_claim_limits_def)
  ultimately show ?thesis
    using minting_within_limit [where ls = "[demo_mint]" and n = BSC and cfg = demo_claims
        and s = demo_minted] by simp
qed

text \<open>
  C23. Pool validation and execution agree. For the unsigned origin, the validation
  of an unsigned claim accepts it in exactly the states in which \<open>claim_elastic\<close>
  succeeds, although the two check signature and claim flag in different order.
\<close>

theorem validate_iff_claim:
  assumes "ensure_none (c_origins cfg) orig = Ok ()"
  shows "(\<exists>v. validate_unsigned cfg s (Claim_elastic n dest tx sig) = Ok v) \<longleftrightarrow>
    (\<exists>t. claims_dispatch cfg orig (Claim_elastic n dest tx sig) s = (t, Ok ()))"
proof -
  have "(\<exists>v. do_validate cfg s n dest tx sig = Ok v) \<longleftrightarrow>
      (\<exists>a v. ElasticClaims s n tx = Some (a, v, False) \<and> claim_signer cfg dest tx sig = Some a)"
    by (simp add: do_validate_Ok)
  with assms show ?thesis by (auto simp: claims_call_defs do_claim_Ok)
qed

theorem validate_iff_claim_witness:
  "\<exists>v. validate_unsigned demo_claims demo_minted (Claim_elastic BSC 7 demo_tx demo_sig) = Ok v"
proof -
  have none: "ensure_none (c_origins demo_claims) NoOrigin = Ok ()" by simp
  show ?thesis unfolding validate_iff_claim [OF none] using demo_claim_Ok by blast
qed

text \<open>
  C4. Records come from the bridge. If a call creates a record for a network and a
  transaction hash, the call is a mint signed by the bridge account of that
  network for an amount within the limit, and the record is unclaimed and holds
  the amount less the mint fee.
\<close>

theorem records_only_minted_by_bridge:
  assumes "ElasticClaims s n tx = None"
    and "claims_dispatch cfg orig c s = (t, res)" and "ElasticClaims t n tx = Some r"
  shows "\<exists>signer who v. c = Mint_claim_elastic n tx who v \<and>
    ensure_signed (c_origins cfg) orig = Ok signer \<and>
    elastic_bridge_accounts s n = Some signer \<and> v \<le> elastic_claim_limits s n \<and>
    r = (who, saturating_sub v (fst (bridge_fees s n)), False)"
proof -
  from assms have "res = Ok ()" by (cases res) (auto dest: claims_dispatch_Err)
  with assms show ?thesis
    by (cases c) (auto simp: claims_call_defs do_mint_claim_Ok do_claim_Ok do_burn_Ok
        split: if_splits)
qed

theorem records_only_minted_by_bridge_witness:
  "elastic_bridge_accounts demo_configured BSC = Some 1 \<and> 1200 \<le> elastic_claim_limits demo_configured BSC"
proof -
  have none: "ElasticClaims demo_configured BSC demo_tx = None" by (simp add: demo_configured_def)
  have rec: "ElasticClaims demo_minted BSC demo_tx = Some (demo_address, 1190, False)"
    by (simp add: demo_minted_eq)
  from records_only_minted_by_bridge [OF none demo_mint_Ok rec] show ?thesis by auto
qed

text \<open>
  C22. A successful claim pays the destination exactly the recorded amount, and
  nobody else, provided the amount fits its balance: the signer recovered from the
  signature over destination and transaction is the recorded beneficiary, the
  record becomes claimed and keeps its beneficiary and amount.
\<close>

theorem claim_pays_amount:
  assumes "deposit_credits (c_currency cfg)" and "deposit_frame (c_currency cfg)"
    and "claims_dispatch cfg orig (Claim_elastic n dest tx sig) s = (t, Ok ())"
    and "ElasticClaims s n tx = Some (a, v, c)"
    and "minimum_balance (c_currency cfg) \<le> v"
    and "unat (free_balance (c_currency cfg) (ledger s) dest) + unat v < 2 ^ 128"
  shows "claim_signer cfg dest tx sig = Some a \<and> \<not> c \<and>
    ElasticClaims t n tx = Some (a, v, True) \<and>
    free_balance (c_currency cfg) (ledger t) =
      (free_balance (c_currency cfg) (ledger s))
        (dest := free_balance (c_currency cfg) (ledger s) dest + v)"
proof -
  from assms(3,4) have rec: "claim_signer cfg dest tx sig = Some a" "\<not> c"
      "ElasticClaims t n tx = Some (a, v, True)"
    and l: "ledger t = deposit_creating (c_currency cfg) dest v (ledger s)"
    by (auto simp: claims_call_defs do_claim_Ok)
  have "free_balance (c_currency cfg) (ledger t) b =
      ((free_balance (c_currency cfg) (ledger s))
        (dest := free_balance (c_currency cfg) (ledger s) dest + v)) b" for b
    using assms(1,2,5,6) by (auto simp: l deposit_credits_def deposit_frame_def)
  with rec show ?thesis by (simp add: fun_eq_iff)
qed

theorem claim_pays_amount_witness:
  "free_balance book (ledger demo_claimed) = (free_balance book (ledger demo_minted))
     (7 := free_balance book (ledger demo_minted) 7 + 1190)"
proof -
  have laws: "deposit_credits (c_currency demo_claims)" "deposit_frame (c_currency demo_claims)"
    by (simp_all add: book_laws)
  have rec: "ElasticClaims demo_minted BSC demo_tx = Some (demo_address, 1190, False)"
    by (simp add: demo_minted_eq)
  have fits: "minimum_balance (c_currency demo_claims) \<le> 1190"
    "unat (free_balance (c_currency demo_claims) (ledger demo_minted) 7) + unat (1190 :: u128) < 2 ^ 128"
    by (simp_all add: demo_minted_eq)
  from claim_pays_amount [OF laws demo_claim_Ok rec fits] show ?thesis
    unfolding demo_simps by (elim conjE)
qed

text \<open>
  C24. Burning takes exactly what it says. A successful \<open>burn_elastic\<close> of an
  amount by an account other than the pallet's takes the amount from the sender,
  gives the burn fee to the pallet's account, leaves every other balance alone,
  and lowers the total issuance by the amount less the fee, which is the amount
  the event announces to the target network.
\<close>

theorem burn_exact:
  assumes "withdraw_debits (c_currency cfg)" and "withdraw_frame (c_currency cfg)"
    and "deposit_credits (c_currency cfg)" and "deposit_frame (c_currency cfg)"
    and "deposit_issues (c_currency cfg)"
    and "claims_dispatch cfg orig (Burn_elastic n dest v) s = (t, Ok ())"
    and "ensure_signed (c_origins cfg) orig = Ok who" and "who \<noteq> c_module_account cfg"
    and "fee = snd (bridge_fees s n)" and "minimum_balance (c_currency cfg) \<le> fee"
    and "unat (free_balance (c_currency cfg) (ledger s) (c_module_account cfg)) + unat fee < 2 ^ 128"
  shows "unat (free_balance (c_currency cfg) (ledger s) who) =
      unat (free_balance (c_currency cfg) (ledger t) who) + unat v \<and>
    free_balance (c_currency cfg) (ledger t) (c_module_account cfg) =
      free_balance (c_currency cfg) (ledger s) (c_module_account cfg) + fee \<and>
    unat (total_issuance (c_currency cfg) (ledger s)) =
      unat (total_issuance (c_currency cfg) (ledger t)) + (unat v - unat fee) \<and>
    events t = events s @ [ElasticBurned n who dest (saturating_sub v fee)]"
proof -
  let ?C = "c_currency cfg" and ?m = "c_module_account cfg"
  from assms(6,7,9) obtain l where fee: "fee > 0 \<Longrightarrow> v > fee"
    and w: "withdraw ?C who v TRANSFER KeepAlive (ledger s) = (l, Ok ())"
    and t: "ledger t = (if fee > 0 then deposit_creating ?C ?m fee l else l)"
      "events t = events s @ [ElasticBurned n who dest (saturating_sub v fee)]"
    by (auto simp: claims_call_defs do_burn_Ok)
  have fee_le: "unat fee \<le> unat v"
    using fee by (cases "fee > 0") (simp_all add: word_less_nat_alt)
  from assms(1) w have debit: "unat (free_balance ?C (ledger s) who) = unat (free_balance ?C l who) + unat v"
    "unat (total_issuance ?C (ledger s)) = unat (total_issuance ?C l) + unat v"
    unfolding withdraw_debits_def by blast+
  from assms(2,8) w have mod: "free_balance ?C l ?m = free_balance ?C (ledger s) ?m"
    unfolding withdraw_frame_def by metis
  have iss: "unat (total_issuance ?C l) + unat fee < 2 ^ 128"
    using debit(2) fee_le u128_bound [of "total_issuance ?C (ledger s)"] by linarith
  have dep: "free_balance ?C (deposit_creating ?C ?m fee l) ?m = free_balance ?C l ?m + fee"
    "total_issuance ?C (deposit_creating ?C ?m fee l) = total_issuance ?C l + fee"
    "free_balance ?C (deposit_creating ?C ?m fee l) who = free_balance ?C l who"
    using assms(3-5,8,10,11) iss mod
    by (auto simp: deposit_credits_def deposit_issues_def deposit_frame_def)
  show ?thesis
    using debit dep mod fee_le iss t
    by (cases "fee > 0") (auto simp: unat_add_fits)
qed

theorem burn_exact_witness:
  "fst (ledger (fst (claims_dispatch demo_claims (SignedBy 5) (Burn_elastic BSC demo_address 100)
     demo_minted))) 99 = 530"
proof -
  have laws: "withdraw_debits (c_currency demo_claims)" "withdraw_frame (c_currency demo_claims)"
    "deposit_credits (c_currency demo_claims)" "deposit_frame (c_currency demo_claims)"
    "deposit_issues (c_currency demo_claims)"
    by (simp_all add: book_laws)
  let ?t = "fst (claims_dispatch demo_claims (SignedBy 5) (Burn_elastic BSC demo_address 100) demo_minted)"
  have step: "claims_dispatch demo_claims (SignedBy 5) (Burn_elastic BSC demo_address 100) demo_minted =
      (?t, Ok ())"
    by (simp add: demo_minted_eq claims_call_defs do_burn_def comp_eval deposit_event_def credit_def
        bridge_fees_def book_withdraw_def book_deposit_def checked_sub_def checked_add_def)
  have cond: "ensure_signed (c_origins demo_claims) (SignedBy 5) = Ok 5"
    "5 \<noteq> c_module_account demo_claims" "20 = snd (bridge_fees demo_minted BSC)"
    "minimum_balance (c_currency demo_claims) \<le> 20"
    "unat (free_balance (c_currency demo_claims) (ledger demo_minted) (c_module_account demo_claims))
       + unat (20 :: u128) < 2 ^ 128"
    by (simp_all add: demo_minted_eq bridge_fees_def)
  have "fst (ledger demo_minted) 99 = 510" by (simp add: demo_minted_eq)
  with burn_exact [OF laws step cond] show ?thesis by (simp del: claims_dispatch.simps)
qed

text \<open>
  C32. A signature for one claim is not a signature for another. When the encodings
  of accounts and of transaction hashes are injective and of fixed length, the
  message whose hash is signed determines the destination and the transaction;
  the signer that both the pool and the dispatch check is recovered from the hash
  of that message.
\<close>

theorem signed_message_binds:
  assumes "inj (c_encode_account cfg)" and "inj (c_encode_tx cfg)"
    and "length (c_encode_account cfg dest) = length (c_encode_account cfg dest')"
    and "length (c_encode_tx cfg tx) = length (c_encode_tx cfg tx')"
  shows "(claim_message cfg dest tx = claim_message cfg dest' tx' \<longleftrightarrow> dest = dest' \<and> tx = tx') \<and>
    claim_signer cfg dest tx (EcdsaSignature bs) =
      map_option (\<lambda>pub. EthereumAddress (hash_tail (keccak_256 (c_crypto cfg) (bytes_list pub))))
        (secp256k1_ecdsa_recover (c_crypto cfg) bs
          (keccak_256 (c_crypto cfg) (claim_message cfg dest tx)))"
  using assms
  by (auto simp: claim_message_def signable_message_inject claim_signer_def eth_recover_def
      eth_recover_bytes_def Let_def dest: injD split: option.splits)

theorem signed_message_binds_witness:
  "claim_message demo_claims32 zero_array demo_tx \<noteq> claim_message demo_claims32 (Bytes (replicate 32 1)) demo_tx"
proof -
  have inj: "inj (c_encode_account demo_claims32)" "inj (c_encode_tx demo_claims32)"
    by (auto simp: demo_claims32_def inj_def bytes_list_inject split: ethereum_tx_hash.splits)
  have "(zero_array :: 32 bytes) \<noteq> Bytes (replicate 32 1)"
    by (simp add: zero_array_def Bytes_inject)
  with signed_message_binds [OF inj, of zero_array "Bytes (replicate 32 1)" demo_tx demo_tx]
  show ?thesis by (simp add: demo_claims32_def)
qed

text \<open>
  C35. A bridge transaction is minted at most once per network. After a successful
  mint, and after any further sequence of steps, every mint of the same transaction
  hash on the same network fails and changes nothing, whatever the beneficiary and
  the amount.
\<close>

theorem mint_at_most_once:
  assumes "claims_dispatch cfg orig (Mint_claim_elastic n tx who v) s = (t, Ok ())"
    and "u = run (claims_step cfg) ls t"
  shows "\<exists>e. claims_dispatch cfg orig' (Mint_claim_elastic n tx who' v') u = (u, Err e)"
proof -
  from assms(1) have "ElasticClaims t n tx \<noteq> None"
    by (auto simp: claims_call_defs do_mint_claim_Ok)
  moreover have "claims_le t u" unfolding assms(2) by (rule records.run_increases)
  ultimately have old: "ElasticClaims u n tx \<noteq> None" by (blast dest: claims_le_present)
  show ?thesis
  proof (cases "claims_dispatch cfg orig' (Mint_claim_elastic n tx who' v') u")
    case (Pair w r)
    with old have "r \<noteq> Ok ()" by (auto simp: claims_call_defs do_mint_claim_Ok)
    then obtain e where "r = Err e" by (cases r) auto
    with Pair have "claims_dispatch cfg orig' (Mint_claim_elastic n tx who' v') u = (w, Err e)"
      by (simp only:)
    with claims_dispatch_Err [OF this] show ?thesis by blast
  qed
qed

theorem mint_at_most_once_witness:
  "\<exists>e. claims_dispatch demo_claims (SignedBy 1) (Mint_claim_elastic BSC demo_tx demo_address 5)
     (run (claims_step demo_claims) [demo_mint, RuntimeUpgrade] demo_minted) =
       (run (claims_step demo_claims) [demo_mint, RuntimeUpgrade] demo_minted, Err e)"
  by (rule mint_at_most_once [OF demo_mint_Ok refl])

text \<open>
  C25. The storage migration loses nothing. From a state of the old version, with
  the keys of the old map distinct, the upgrade gives BSC every record of the old map
  that BSC did not have and keeps every record BSC had; it copies the bridge account
  and the fees where they were set and BSC has none yet, and keeps those BSC has; the
  old limit, where one was set, replaces that of BSC. Everything of Ethereum, the
  ledger and the events stay as they are, the old map, account and fees are cleared,
  and a second upgrade changes nothing.
\<close>

theorem migration_correct:
  assumes "pallet_storage_version s < 2" and "distinct (map fst (Claims s))"
    and "on_runtime_upgrade s = (t, weight)"
    and "mint = (case MintFee s of Some f \<Rightarrow> f | None \<Rightarrow> 0)" and "burn = (case BurnFee s of Some f \<Rightarrow> f | None \<Rightarrow> 0)"
  shows "ElasticClaims t = (ElasticClaims s)(BSC := (\<lambda>tx. case ElasticClaims s BSC tx of Some r \<Rightarrow> Some r
       | None \<Rightarrow> (case map_of (Claims s) tx of Some r \<Rightarrow> r | None \<Rightarrow> None))) \<and>
    ElasticClaimLimits t =
      (if ClaimLimit s > 0 then (ElasticClaimLimits s)(BSC \<mapsto> ClaimLimit s) else ElasticClaimLimits s) \<and>
    ElasticBridgeAccounts t = (ElasticBridgeAccounts s)(BSC := (case ElasticBridgeAccounts s BSC of
       Some a \<Rightarrow> Some a | None \<Rightarrow> (case BridgeAccount s of Some a \<Rightarrow> Some (Some a) | None \<Rightarrow> None))) \<and>
    BridgeFees t = (BridgeFees s)(BSC := (case BridgeFees s BSC of
       Some f \<Rightarrow> Some f | None \<Rightarrow> (if mint > 0 \<or> burn > 0 then Some (mint, burn) else None))) \<and>
    ledger t = ledger s \<and> events t = events s \<and>
    Claims t = [] \<and> BridgeAccount t = None \<and> MintFee t = None \<and> BurnFee t = None \<and>
    on_runtime_upgrade t = (t, 0)"
proof -
  have t: "t = fst (on_runtime_upgrade s)" using assms(3) by simp
  have v: "\<not> 2 \<le> pallet_storage_version s" using assms(1) by simp
  have copied: "ElasticClaims t n tx = ElasticClaims (fold migrate_claim (Claims s) s) n tx" for n tx
    using v by (simp add: t on_runtime_upgrade_def Let_def)
  have claims: "ElasticClaims t = (ElasticClaims s)(BSC := (\<lambda>tx. case ElasticClaims s BSC tx of Some r \<Rightarrow> Some r
       | None \<Rightarrow> (case map_of (Claims s) tx of Some r \<Rightarrow> r | None \<Rightarrow> None)))" (is "_ = ?records")
  proof (intro ext)
    fix n tx
    show "ElasticClaims t n tx = ?records n tx"
      by (cases n) (simp_all add: copied migrate_claims_BSC [OF assms(2)] migrate_claims_other)
  qed
  have limits: "ElasticClaimLimits t =
      (if ClaimLimit s > 0 then (ElasticClaimLimits s)(BSC \<mapsto> ClaimLimit s) else ElasticClaimLimits s)"
    using v by (simp add: t on_runtime_upgrade_def Let_def migrate_limit_def)
  have accounts: "ElasticBridgeAccounts t = (ElasticBridgeAccounts s)(BSC := (case ElasticBridgeAccounts s BSC of
       Some a \<Rightarrow> Some a | None \<Rightarrow> (case BridgeAccount s of Some a \<Rightarrow> Some (Some a) | None \<Rightarrow> None)))"
    using v by (auto simp: t on_runtime_upgrade_def Let_def migrate_bridge_account_def fun_eq_iff some_def split: option.splits)
  have fees: "BridgeFees t = (BridgeFees s)(BSC := (case BridgeFees s BSC of
       Some f \<Rightarrow> Some f | None \<Rightarrow> (if mint > 0 \<or> burn > 0 then Some (mint, burn) else None)))"
    using v by (auto simp: t on_runtime_upgrade_def Let_def migrate_fees_def fun_eq_iff assms(4,5) split: option.splits)
  have frame: "ledger t = ledger s" "events t = events s" "Claims t = []" "BridgeAccount t = None"
    "MintFee t = None" "BurnFee t = None"
    using v by (simp_all add: t on_runtime_upgrade_def Let_def)
  have "on_runtime_upgrade t = (t, 0)" unfolding t by (rule upgrade_again)
  with frame claims limits accounts fees show ?thesis by blast
qed

theorem migration_correct_witness:
  "ElasticClaims (fst (on_runtime_upgrade demo_legacy)) BSC demo_tx = Some (demo_address, 7, True) \<and>
   elastic_claim_limits (fst (on_runtime_upgrade demo_legacy)) BSC = 42 \<and>
   elastic_bridge_accounts (fst (on_runtime_upgrade demo_legacy)) BSC = Some 3"
proof -
  have h: "pallet_storage_version demo_legacy < 2" "distinct (map fst (Claims demo_legacy))"
    by (simp_all add: demo_legacy_def claims_genesis_def pallet_storage_version_def VersionDefault_def)
  from migration_correct [OF h prod.collapse [symmetric] refl refl] show ?thesis
    by (simp add: demo_legacy_def claims_genesis_def elastic_claim_limits_def elastic_bridge_accounts_def)
qed

text \<open>
  C33. The bridge configuration belongs to root. A call that changes a bridge
  account or a fee, or raises a claim limit, comes from the root origin; every
  other call leaves them, or lowers one limit.
\<close>

theorem configuration_by_root:
  assumes "claims_dispatch cfg orig c s = (t, res)"
    and "ElasticBridgeAccounts t \<noteq> ElasticBridgeAccounts s \<or> BridgeFees t \<noteq> BridgeFees s \<or>
      elastic_claim_limits s n < elastic_claim_limits t n"
  shows "ensure_root (c_origins cfg) orig = Ok ()"
proof (rule ccontr)
  assume nr: "ensure_root (c_origins cfg) orig \<noteq> Ok ()"
  have "ElasticBridgeAccounts t = ElasticBridgeAccounts s \<and> BridgeFees t = BridgeFees s \<and>
      elastic_claim_limits t n \<le> elastic_claim_limits s n"
  proof (cases res)
    case (Ok x)
    with assms(1) show ?thesis by (simp add: configuration_kept [OF nr])
  next
    case (Err e)
    with assms(1) show ?thesis by (auto dest: claims_dispatch_Err)
  qed
  with assms(2) show False by auto
qed

theorem configuration_by_root_witness:
  "ensure_root (c_origins demo_claims) RootOrigin = Ok ()"
proof -
  let ?s = "claims_genesis ((\<lambda>_. 500), 5000) :: (nat, nat book) claims_state"
  have "claims_dispatch demo_claims RootOrigin (Set_bridge_fee_elastic BSC 10 20) ?s =
      (?s\<lparr>BridgeFees := [BSC \<mapsto> (10, 20)], events := [ElasticFeeUpdated BSC 10 20]\<rparr>, Ok ())"
    by (simp add: claims_genesis_def claims_call_defs comp_eval deposit_event_def)
  from configuration_by_root [OF this, of BSC] show ?thesis by (simp add: claims_genesis_def)
qed

end
