(* ===== verification/Bridge_Supply.thy ===== *)
theory Bridge_Supply
  imports Claims
begin

text \<open>
  What the bridge does to the supply of the currency: over every sequence of
  extrinsics and upgrades of the claims pallet, the total issuance grows by the claims
  paid and the mint fees taken, and shrinks by what is burned for the other chain.
\<close>

section \<open>Specification functions\<close>

fun burned_by :: "'acc claims_event \<Rightarrow> nat" where
  "burned_by (ElasticBurned n who dest v) = unat v"
| "burned_by _ = 0"

definition burned :: "('acc, 'l) claims_state \<Rightarrow> nat" where
  "burned s = sum_list (map burned_by (events s))"

definition total_paid :: "('acc, 'l) claims_state \<Rightarrow> nat" where
  "total_paid s = paid BSC s + paid Ethereum s"

definition issuance :: "('o, 'acc, 'l) claims_config \<Rightarrow> ('acc, 'l) claims_state \<Rightarrow> nat" where
  "issuance cfg s = unat (total_issuance (c_currency cfg) (ledger s))"

text \<open>The mint fee a step takes: that of the network, when it is a mint that succeeds.\<close>

fun step_fee :: "('o, 'acc, 'l) claims_config \<Rightarrow> ('o, 'acc) claims_label \<Rightarrow> ('acc, 'l) claims_state \<Rightarrow> nat" where
  "step_fee cfg (Extrinsic orig (Mint_claim_elastic n tx who v)) s =
     (if snd (claims_dispatch cfg orig (Mint_claim_elastic n tx who v) s) = Ok ()
      then unat (fst (bridge_fees s n)) else 0)"
| "step_fee cfg _ s = 0"

fun fees_taken ::
  "('o, 'acc, 'l) claims_config \<Rightarrow> ('o, 'acc) claims_label list \<Rightarrow> ('acc, 'l) claims_state \<Rightarrow> nat" where
  "fees_taken cfg [] s = 0"
| "fees_taken cfg (l # ls) s = step_fee cfg l s + fees_taken cfg ls (claims_step cfg l s)"

text \<open>
  Documented behaviour of a currency whose issuance covers every balance: \<open>P\<close> holds of
  its ledgers as long as deposits do not overflow the issuance.
\<close>

definition keeps_covered :: "('acc, 'l) currency \<Rightarrow> ('l \<Rightarrow> bool) \<Rightarrow> bool" where
  "keeps_covered C P \<longleftrightarrow>
     (\<forall>l a. P l \<longrightarrow> unat (free_balance C l a) \<le> unat (total_issuance C l)) \<and>
     (\<forall>l a v. P l \<longrightarrow> unat (total_issuance C l) + unat v < 2 ^ 128 \<longrightarrow> P (deposit_creating C a v l)) \<and>
     (\<forall>l l' a v rs k. P l \<longrightarrow> withdraw C a v rs k l = (l', Ok ()) \<longrightarrow> P l')"

text \<open>The laws together, for a currency without a minimum balance, as the runtime's is.\<close>

definition accounted :: "('acc, 'l) currency \<Rightarrow> ('l \<Rightarrow> bool) \<Rightarrow> bool" where
  "accounted C P \<longleftrightarrow>
     deposit_issues C \<and> withdraw_debits C \<and> keeps_covered C P \<and> minimum_balance C = 0"

section \<open>One step\<close>

lemma accounted_deposit:
  assumes "accounted C P" and "P l" and "unat (total_issuance C l) + unat v < 2 ^ 128"
  shows "unat (total_issuance C (deposit_creating C a v l)) = unat (total_issuance C l) + unat v \<and>
    P (deposit_creating C a v l)"
proof -
  have "unat (free_balance C l a) \<le> unat (total_issuance C l)" "P (deposit_creating C a v l)"
    using assms unfolding accounted_def keeps_covered_def by blast+
  moreover from this(1) assms(3) have "unat (free_balance C l a) + unat v < 2 ^ 128" by linarith
  ultimately have "total_issuance C (deposit_creating C a v l) = total_issuance C l + v"
    using assms(1,3) by (simp add: accounted_def deposit_issues_def)
  with assms(3) \<open>P (deposit_creating C a v l)\<close> show ?thesis by (simp add: unat_add_fits)
qed

lemma accounted_withdraw:
  assumes "accounted C P" and "P l" and "withdraw C a v rs k l = (l', Ok ())"
  shows "unat (total_issuance C l) = unat (total_issuance C l') + unat v \<and> P l'"
  using assms unfolding accounted_def withdraw_debits_def keeps_covered_def by blast

lemma paid_total_snoc: "events t = events s @ [e] \<Longrightarrow> total_paid t = total_paid s + paid_by BSC e + paid_by Ethereum e"
  by (simp add: total_paid_def paid_snoc)

lemma burned_snoc: "events t = events s @ [e] \<Longrightarrow> burned t = burned s + burned_by e"
  by (simp add: burned_def)

text \<open>The account of one step, for states whose ledgers satisfy \<open>P\<close>.\<close>

definition balances_step ::
  "('o, 'acc, 'l) claims_config \<Rightarrow> ('l \<Rightarrow> bool) \<Rightarrow> nat \<Rightarrow> ('acc, 'l) claims_state \<Rightarrow> ('acc, 'l) claims_state \<Rightarrow> bool" where
  "balances_step cfg P fee s t \<longleftrightarrow>
     issuance cfg t + burned t + total_paid s = issuance cfg s + burned s + total_paid t + fee \<and>
     burned s \<le> burned t \<and> total_paid s \<le> total_paid t \<and> P (ledger t)"

lemma balances_same:
  "ledger t = ledger s \<Longrightarrow> burned t = burned s \<Longrightarrow> total_paid t = total_paid s \<Longrightarrow> P (ledger s) \<Longrightarrow>
     balances_step cfg P 0 s t"
  by (simp add: balances_step_def issuance_def)

lemma mint_balances:
  assumes "accounted (c_currency cfg) P" and "P (ledger s)"
    and "claims_dispatch cfg orig (Mint_claim_elastic n tx who v) s = (t, Ok ())"
    and "issuance cfg s + unat (fst (bridge_fees s n)) < 2 ^ 128"
  shows "balances_step cfg P (unat (fst (bridge_fees s n))) s t"
proof -
  let ?fee = "fst (bridge_fees s n)" and ?C = "c_currency cfg"
  obtain a where e: "events t = events s @ [ElasticMintSuccess n tx who a]"
    and l: "ledger t = (if ?fee > 0 then deposit_creating ?C (c_module_account cfg) ?fee (ledger s) else ledger s)"
    using assms(3) by (auto simp: claims_call_defs do_mint_claim_Ok)
  from accounted_deposit [OF assms(1,2)] assms(2,4) paid_total_snoc [OF e] burned_snoc [OF e] show ?thesis
    by (auto simp: balances_step_def issuance_def l)
qed

lemma claim_balances:
  assumes "accounted (c_currency cfg) P" and "P (ledger s)"
    and "claims_dispatch cfg orig (Claim_elastic n dest tx sig) s = (t, Ok ())"
    and "issuance cfg s + (total_paid t - total_paid s) < 2 ^ 128"
  shows "balances_step cfg P 0 s t"
proof -
  let ?C = "c_currency cfg"
  obtain a v where e: "events t = events s @ [ElasticClaimed n dest a v]"
    and l: "ledger t = deposit_creating ?C dest v (ledger s)"
    using assms(3) by (auto simp: claims_call_defs do_claim_Ok)
  have p: "total_paid t = total_paid s + unat v" using paid_total_snoc [OF e] by (cases n) simp_all
  with accounted_deposit [OF assms(1,2), of v dest] assms(4) burned_snoc [OF e] show ?thesis
    by (simp add: balances_step_def issuance_def l)
qed

lemma burn_balances:
  assumes "accounted (c_currency cfg) P" and "P (ledger s)"
    and "claims_dispatch cfg orig (Burn_elastic n dest v) s = (t, Ok ())"
  shows "balances_step cfg P 0 s t"
proof -
  let ?fee = "snd (bridge_fees s n)" and ?C = "c_currency cfg"
  obtain who l where w: "withdraw ?C who v TRANSFER KeepAlive (ledger s) = (l, Ok ())"
    and e: "events t = events s @ [ElasticBurned n who dest (saturating_sub v ?fee)]"
    and t: "ledger t = (if ?fee > 0 then deposit_creating ?C (c_module_account cfg) ?fee l else l)"
    and fee: "?fee > 0 \<longrightarrow> v > ?fee"
    using assms(3) by (auto simp: claims_call_defs do_burn_Ok)
  note w' = accounted_withdraw [OF assms(1,2) w]
  have le: "unat ?fee \<le> unat v" using fee by (cases "?fee > 0") (simp_all add: word_less_nat_alt)
  then have "unat (total_issuance ?C l) + unat ?fee < 2 ^ 128"
    using w' u128_bound [of "total_issuance ?C (ledger s)"] by linarith
  from accounted_deposit [OF assms(1) _ this] w' le paid_total_snoc [OF e] burned_snoc [OF e] show ?thesis
    by (auto simp: balances_step_def issuance_def t word_nat)
qed

lemma dispatch_balances:
  assumes "accounted (c_currency cfg) P" and "P (ledger s)"
    and "claims_dispatch cfg orig c s = (t, Ok ())"
    and "issuance cfg s + (total_paid t - total_paid s) + step_fee cfg (Extrinsic orig c) s < 2 ^ 128"
  shows "balances_step cfg P (step_fee cfg (Extrinsic orig c) s) s t"
proof (cases c)
  case (Mint_claim_elastic n tx who v)
  with assms(3) have "snd (claims_dispatch cfg orig (Mint_claim_elastic n tx who v) s) = Ok ()" by simp
  then have fee: "step_fee cfg (Extrinsic orig c) s = unat (fst (bridge_fees s n))"
    by (simp add: Mint_claim_elastic del: claims_dispatch.simps)
  show ?thesis unfolding fee
    by (rule mint_balances [OF assms(1,2)]) (use assms(3,4) fee in \<open>simp_all add: Mint_claim_elastic\<close>)
next
  case (Claim_elastic n dest tx sig)
  with assms claim_balances [OF assms(1,2), of orig n dest tx sig t] show ?thesis by simp
next
  case (Burn_elastic n dest v)
  with assms burn_balances [OF assms(1,2), of orig n dest v t] show ?thesis by simp
qed (use assms(2,3) in \<open>auto simp: claims_call_defs burned_def total_paid_def paid_def intro!: balances_same\<close>)

lemma upgrade_frame: "ledger (fst (on_runtime_upgrade s)) = ledger s" "events (fst (on_runtime_upgrade s)) = events s"
  by (auto simp: on_runtime_upgrade_def Let_def migrate_limit_def migrate_bridge_account_def
      migrate_fees_def split: option.splits)

lemma step_balances:
  assumes "accounted (c_currency cfg) P" and "P (ledger s)"
    and "issuance cfg s + (total_paid (claims_step cfg l s) - total_paid s) + step_fee cfg l s < 2 ^ 128"
  shows "balances_step cfg P (step_fee cfg l s) s (claims_step cfg l s)"
proof (cases l)
  case RuntimeUpgrade
  then show ?thesis
    using assms(2) by (auto simp: upgrade_frame burned_def total_paid_def paid_def intro!: balances_same)
next
  case (Extrinsic orig c)
  obtain t r where d: "claims_dispatch cfg orig c s = (t, r)" by fastforce
  show ?thesis
  proof (cases r)
    case (Ok x)
    with d dispatch_balances [OF assms(1,2), of orig c t] assms(3) Extrinsic show ?thesis by simp
  next
    case (Err e)
    then have "step_fee cfg l s = 0" using d Extrinsic by (cases c) (simp_all del: claims_dispatch.simps)
    moreover have "t = s" using d Err by (auto dest: claims_dispatch_Err)
    ultimately show ?thesis using assms(2) d Extrinsic by (simp add: balances_same)
  qed
qed

section \<open>Runs\<close>

lemma run_Cons: "run step (l # ls) s = run step ls (step l s)"
  by (simp add: run_def)

lemma total_paid_mono: "total_paid s \<le> total_paid (run (claims_step cfg) ls s)"
  using history.run_increases [of s cfg ls] by (auto simp: history_le_def total_paid_def paid_def)

lemma run_balances:
  assumes "accounted (c_currency cfg) P" and "P (ledger s)"
    and "issuance cfg s + (total_paid (run (claims_step cfg) ls s) - total_paid s) + fees_taken cfg ls s < 2 ^ 128"
  shows "balances_step cfg P (fees_taken cfg ls s) s (run (claims_step cfg) ls s)"
  using assms(2,3)
proof (induction ls arbitrary: s)
  case Nil
  then show ?case by (simp add: run_def balances_same)
next
  case (Cons l ls)
  let ?u = "claims_step cfg l s" and ?t = "run (claims_step cfg) ls (claims_step cfg l s)"
  have ut: "total_paid ?u \<le> total_paid ?t" by (rule total_paid_mono)
  have su: "total_paid s \<le> total_paid ?u" using total_paid_mono [of s cfg "[l]"] by (simp add: run_def)
  have first: "balances_step cfg P (step_fee cfg l s) s ?u"
    using Cons.prems ut su by (intro step_balances [OF assms(1)]) (simp_all add: run_Cons)
  then have "balances_step cfg P (fees_taken cfg ls ?u) ?u ?t"
    using Cons.prems(2) ut by (intro Cons.IH) (auto simp: balances_step_def run_Cons)
  with first show ?case by (auto simp: balances_step_def run_Cons)
qed

section \<open>A covered ledger for witnesses\<close>

text \<open>Finitely many balances, which add up to at most the issuance.\<close>

definition book_covered :: "'acc book \<Rightarrow> bool" where
  "book_covered l \<longleftrightarrow> (\<exists>A. finite A \<and> (\<forall>a. a \<notin> A \<longrightarrow> fst l a = 0) \<and> (\<Sum>a\<in>A. unat (fst l a)) \<le> unat (snd l))"

lemma book_coveredE:
  assumes "book_covered l"
  obtains A where "finite A" "who \<in> A" "\<And>a. a \<notin> A \<Longrightarrow> fst l a = 0" "(\<Sum>a\<in>A. unat (fst l a)) \<le> unat (snd l)"
proof -
  from assms obtain A where A: "finite A" "\<forall>a. a \<notin> A \<longrightarrow> fst l a = 0" "(\<Sum>a\<in>A. unat (fst l a)) \<le> unat (snd l)"
    by (auto simp: book_covered_def)
  have "(\<Sum>a\<in>insert who A. unat (fst l a)) = (\<Sum>a\<in>A. unat (fst l a))"
    using A(1,2) by (cases "who \<in> A") (simp_all add: insert_absorb)
  with A that [of "insert who A"] show ?thesis by simp
qed

lemma book_covered_upd:
  assumes "book_covered l" and "unat b + unat (snd l) \<le> unat (fst l who) + unat t"
  shows "book_covered ((fst l)(who := b), t)"
proof -
  obtain A where A: "finite A" "who \<in> A" "\<And>a. a \<notin> A \<Longrightarrow> fst l a = 0" "(\<Sum>a\<in>A. unat (fst l a)) \<le> unat (snd l)"
    using assms(1) by (rule book_coveredE [where who = who]) blast
  have "(\<Sum>a\<in>A. unat (((fst l)(who := b)) a)) = unat b + (\<Sum>a\<in>A - {who}. unat (fst l a))"
    using A(1,2) by (subst sum.remove [OF A(1,2)]) simp
  moreover have "(\<Sum>a\<in>A. unat (fst l a)) = unat (fst l who) + (\<Sum>a\<in>A - {who}. unat (fst l a))"
    by (rule sum.remove [OF A(1,2)])
  ultimately have "(\<Sum>a\<in>A. unat (((fst l)(who := b)) a)) \<le> unat t" using assms(2) A(4) by linarith
  with A(1-3) show ?thesis unfolding book_covered_def by (intro exI [of _ A]) auto
qed

lemma book_covered_le:
  assumes "book_covered l"
  shows "unat (fst l a) \<le> unat (snd l)"
proof -
  obtain A where "finite A" "a \<in> A" "\<And>b. b \<notin> A \<Longrightarrow> fst l b = 0" "(\<Sum>a\<in>A. unat (fst l a)) \<le> unat (snd l)"
    using assms by (rule book_coveredE [where who = a]) blast
  with member_le_sum [of a A "\<lambda>a. unat (fst l a)"] show ?thesis by simp
qed

lemma book_covered_deposit:
  "book_covered l \<Longrightarrow> unat (snd l) + unat v < 2 ^ 128 \<Longrightarrow> book_covered (book_deposit a v l)"
  by (auto simp: book_deposit_def word_nat intro!: book_covered_upd split: option.splits)

lemma book_covered_withdraw:
  "book_covered l \<Longrightarrow> book_withdraw a v rs k l = (l', Ok ()) \<Longrightarrow> book_covered l'"
  by (auto simp: book_withdraw_Ok word_nat intro!: book_covered_upd)

lemma book_accounted: "accounted book book_covered"
  by (auto simp: accounted_def keeps_covered_def book_laws intro: book_covered_deposit book_covered_withdraw
      dest: book_covered_le simp del: split_paired_All)

definition demo_trade :: "(nat raw_origin, nat) claims_label list" where
  "demo_trade = demo_setup @ [Extrinsic NoOrigin (Claim_elastic BSC 7 demo_tx demo_sig),
     Extrinsic (SignedBy 7) (Burn_elastic BSC demo_address 100)]"

definition demo_empty :: "(nat, nat book) claims_state" where
  "demo_empty = claims_genesis ((\<lambda>_. 0), 0)"

lemmas demo_trade_eval = claims_genesis_def claims_call_defs do_mint_claim_def do_claim_def do_burn_def
  comp_eval deposit_event_def credit_def insert_claim_def elastic_bridge_accounts_def
  elastic_claim_limits_def bridge_fees_def saturating_sub_def book_deposit_def book_withdraw_def
  checked_add_def checked_sub_def saturating_add_def

section \<open>Properties\<close>

text \<open>
  C5. The bridge accounts for the supply. Over every sequence of extrinsics and
  upgrades, what the issuance gains is exactly the claims paid on both networks plus
  the mint fees, less what was burned for the other chains; for a currency whose
  issuance covers its balances and is not driven to its bound.
\<close>

theorem supply_accounted:
  assumes "accounted (c_currency cfg) P" and "P (ledger s)" and "t = run (claims_step cfg) ls s"
    and "issuance cfg s + (total_paid t - total_paid s) + fees_taken cfg ls s < 2 ^ 128"
  shows "issuance cfg t + (burned t - burned s) =
    issuance cfg s + (total_paid t - total_paid s) + fees_taken cfg ls s"
  using run_balances [OF assms(1,2), of ls] assms(3,4) by (auto simp: balances_step_def)

theorem supply_accounted_witness:
  "issuance demo_claims (run (claims_step demo_claims) demo_trade demo_empty) + 80 = 1190 + 10"
proof -
  have e: "events (run (claims_step demo_claims) demo_trade demo_empty) =
      events demo_minted @ [ElasticClaimed BSC 7 demo_address 1190, ElasticBurned BSC 7 demo_address 80]"
    by (simp add: demo_trade_def demo_setup_def demo_empty_def run_def demo_trade_eval demo_minted_eq)
  have f: "fees_taken demo_claims demo_trade demo_empty = 10"
    by (simp add: demo_trade_def demo_setup_def demo_empty_def demo_trade_eval)
  have p: "total_paid (run (claims_step demo_claims) demo_trade demo_empty) = 1190"
    "burned (run (claims_step demo_claims) demo_trade demo_empty) = 80"
    by (simp_all add: total_paid_def paid_def burned_def e demo_minted_eq)
  have z: "total_paid demo_empty = 0" "burned demo_empty = 0" "issuance demo_claims demo_empty = 0"
    by (simp_all add: total_paid_def paid_def burned_def issuance_def demo_empty_def claims_genesis_def)
  have "accounted (c_currency demo_claims) book_covered" by (simp add: book_accounted)
  moreover have "book_covered (ledger demo_empty)"
    by (auto simp: demo_empty_def claims_genesis_def book_covered_def)
  ultimately show ?thesis
    using supply_accounted [OF _ _ refl, of demo_claims book_covered demo_empty demo_trade] by (simp add: p z f)
qed

end
