(* ===== verification/Bridge_Ledger.thy ===== *)
theory Bridge_Ledger
  imports Claims
begin

text \<open>
  An abstract bridge, and the claims pallet as its implementation.

  The abstract state says, per network, what is known of each transaction of the
  other chain (nothing yet, an amount payable to an address, or an amount paid) and
  how much may still be minted; and what the storage of the first version of the
  pallet holds. Its events have a guard and an action each: a mint, a payment, a new
  allowance, and the import of the old storage. \<open>bridge_view\<close> reads the abstract state
  off the pallet's storage, and \<open>bridge_event_of\<close> says which event an extrinsic or a
  runtime upgrade is meant to be: a call that fails, and a call to anything else, none.
  Every run of the pallet is an execution of the abstract bridge with these events.
\<close>

section \<open>The abstract bridge\<close>

datatype ticket = Unknown | Payable ethereum_address nat | Paid ethereum_address nat

record bridge =
  tickets :: "bridge_networks \<Rightarrow> ethereum_tx_hash \<Rightarrow> ticket"
  allowance :: "bridge_networks \<Rightarrow> nat"
  old_tickets :: "ethereum_tx_hash \<Rightarrow> ticket"
  old_allowance :: nat
  imported :: bool

definition set_ticket :: "bridge_networks \<Rightarrow> ethereum_tx_hash \<Rightarrow> ticket \<Rightarrow> bridge \<Rightarrow> bridge" where
  "set_ticket n tx k b = b\<lparr>tickets := (tickets b)(n := (tickets b n)(tx := k))\<rparr>"

definition set_allowance :: "bridge_networks \<Rightarrow> nat \<Rightarrow> bridge \<Rightarrow> bridge" where
  "set_allowance n v b = b\<lparr>allowance := (allowance b)(n := v)\<rparr>"

text \<open>
  The import moves the tickets of the old storage to BSC, where a ticket that BSC has
  already stays, and the old allowance, if there is one.
\<close>

definition import_old :: "bridge \<Rightarrow> bridge" where
  "import_old b =
     b\<lparr>tickets := (tickets b)(BSC := (\<lambda>tx. if tickets b BSC tx = Unknown then old_tickets b tx else tickets b BSC tx)),
       allowance := (if old_allowance b > 0 then (allowance b)(BSC := old_allowance b) else allowance b),
       old_tickets := (\<lambda>_. Unknown), imported := True\<rparr>"

text \<open>
  A mint of an amount, of which the fee is kept: the transaction is unknown, the whole
  amount is within the allowance, and the rest becomes payable and uses the allowance
  up. A payment pays a payable ticket. The import happens once.
\<close>

datatype bridge_event =
    MintEvent bridge_networks ethereum_tx_hash ethereum_address nat nat
  | PayEvent bridge_networks ethereum_tx_hash
  | AllowEvent bridge_networks nat
  | ImportEvent

inductive bridge_step :: "bridge_event \<Rightarrow> bridge \<Rightarrow> bridge \<Rightarrow> bool" where
  Mint: "tickets b n tx = Unknown \<Longrightarrow> v \<le> allowance b n \<Longrightarrow> fee < v \<or> fee = 0 \<Longrightarrow>
    bridge_step (MintEvent n tx a v fee) b
      (set_ticket n tx (Payable a (v - fee)) (set_allowance n (allowance b n - (v - fee)) b))"
| Pay: "tickets b n tx = Payable a v \<Longrightarrow> bridge_step (PayEvent n tx) b (set_ticket n tx (Paid a v) b)"
| Allow: "bridge_step (AllowEvent n v) b (set_allowance n v b)"
| Import: "\<not> imported b \<Longrightarrow> bridge_step ImportEvent b (import_old b)"

inductive_cases bridge_stepE: "bridge_step e b b'"

text \<open>How far a transaction has come.\<close>

fun ticket_le :: "ticket \<Rightarrow> ticket \<Rightarrow> bool" where
  "ticket_le Unknown k = True"
| "ticket_le (Payable a v) k = (k = Payable a v \<or> k = Paid a v)"
| "ticket_le (Paid a v) k = (k = Paid a v)"

section \<open>The abstraction\<close>

fun ticket_of :: "claim_record option \<Rightarrow> ticket" where
  "ticket_of None = Unknown"
| "ticket_of (Some (a, v, claimed)) = (if claimed then Paid a (unat v) else Payable a (unat v))"

text \<open>The old map, of which an entry may hold no record.\<close>

fun old_record :: "(ethereum_tx_hash \<times> claim_record option) list \<Rightarrow> ethereum_tx_hash \<Rightarrow> claim_record option" where
  "old_record [] tx = None"
| "old_record ((k, r) # kvs) tx = (if k = tx \<and> r \<noteq> None then r else old_record kvs tx)"

definition bridge_view :: "('acc, 'l) claims_state \<Rightarrow> bridge" where
  "bridge_view s =
     \<lparr>tickets = (\<lambda>n tx. ticket_of (ElasticClaims s n tx)),
      allowance = (\<lambda>n. unat (elastic_claim_limits s n)),
      old_tickets = (\<lambda>tx. ticket_of (old_record (Claims s) tx)),
      old_allowance = unat (ClaimLimit s), imported = (2 \<le> pallet_storage_version s)\<rparr>"

text \<open>What a call is meant to be, if it succeeds.\<close>

fun call_event :: "'acc claims_call \<Rightarrow> ('acc, 'l) claims_state \<Rightarrow> bridge_event option" where
  "call_event (Mint_claim_elastic n tx a v) s = Some (MintEvent n tx a (unat v) (unat (fst (bridge_fees s n))))"
| "call_event (Claim_elastic n dest tx sig) s = Some (PayEvent n tx)"
| "call_event (Set_claim_limit_elastic n v) s = Some (AllowEvent n (unat v))"
| "call_event _ s = None"

fun bridge_event_of ::
  "('o, 'acc, 'l) claims_config \<Rightarrow> ('o, 'acc) claims_label \<Rightarrow> ('acc, 'l) claims_state \<Rightarrow> bridge_event option" where
  "bridge_event_of cfg (Extrinsic orig c) s =
     (case snd (claims_dispatch cfg orig c s) of Ok _ \<Rightarrow> call_event c s | Err _ \<Rightarrow> None)"
| "bridge_event_of cfg RuntimeUpgrade s = (if 2 \<le> pallet_storage_version s then None else Some ImportEvent)"

section \<open>The abstract bridge only moves forward\<close>

lemma ticket_le_refl [simp]: "ticket_le k k"
  by (cases k) simp_all

lemma ticket_le_trans: "ticket_le j k \<Longrightarrow> ticket_le k l \<Longrightarrow> ticket_le j l"
  by (cases j; cases k) auto

lemma bridge_step_forward: "bridge_step e b b' \<Longrightarrow> ticket_le (tickets b n tx) (tickets b' n tx)"
  by (elim bridge_stepE) (auto simp: set_ticket_def set_allowance_def import_old_def)

lemma executes_forward: "executes bridge_step es b b' \<Longrightarrow> ticket_le (tickets b n tx) (tickets b' n tx)"
  by (induction rule: executes.induct) (auto intro: ticket_le_trans bridge_step_forward)

section \<open>The simulation\<close>

lemma bridge_view_eqI:
  "(\<And>n tx. tickets b n tx = ticket_of (ElasticClaims s n tx)) \<Longrightarrow>
   (\<And>n. allowance b n = unat (elastic_claim_limits s n)) \<Longrightarrow>
   (\<And>tx. old_tickets b tx = ticket_of (old_record (Claims s) tx)) \<Longrightarrow>
   old_allowance b = unat (ClaimLimit s) \<Longrightarrow> imported b = (2 \<le> pallet_storage_version s) \<Longrightarrow> bridge_view s = b"
  by (simp add: bridge_view_def fun_eq_iff)

lemma bridge_view_simps [simp]:
  "tickets (bridge_view s) n tx = ticket_of (ElasticClaims s n tx)"
  "allowance (bridge_view s) n = unat (elastic_claim_limits s n)"
  "old_tickets (bridge_view s) tx = ticket_of (old_record (Claims s) tx)"
  "old_allowance (bridge_view s) = unat (ClaimLimit s)"
  "imported (bridge_view s) = (2 \<le> pallet_storage_version s)"
  by (simp_all add: bridge_view_def)

text \<open>The calls do not touch the storage of the first version.\<close>

definition same_old :: "('acc, 'l) claims_state \<Rightarrow> ('acc, 'l) claims_state \<Rightarrow> bool" where
  "same_old s t \<longleftrightarrow> Claims t = Claims s \<and> ClaimLimit t = ClaimLimit s \<and>
     pallet_storage_version t = pallet_storage_version s"

lemma dispatch_same_old: "claims_dispatch cfg orig c s = (t, Ok ()) \<Longrightarrow> same_old s t"
  by (cases c) (auto simp: claims_call_defs do_mint_claim_Ok do_claim_Ok do_burn_Ok insert_claim_def same_old_def
      pallet_storage_version_def)

lemma bridge_view_cong:
  "ElasticClaims t = ElasticClaims s \<Longrightarrow> ElasticClaimLimits t = ElasticClaimLimits s \<Longrightarrow> same_old s t \<Longrightarrow>
     bridge_view t = bridge_view s"
  by (simp add: bridge_view_def elastic_claim_limits_def same_old_def)

lemma ticket_of_Unknown [simp]: "ticket_of r = Unknown \<longleftrightarrow> r = None"
  by (cases r) (auto split: if_splits)

lemma mint_simulated:
  assumes "claims_dispatch cfg orig (Mint_claim_elastic n tx who v) s = (t, Ok ())"
  shows "bridge_step (MintEvent n tx who (unat v) (unat (fst (bridge_fees s n)))) (bridge_view s) (bridge_view t)"
proof -
  let ?fee = "fst (bridge_fees s n)" and ?b = "bridge_view s"
  from assms obtain a where new: "ElasticClaims s n tx = None" and le: "unat v \<le> unat (elastic_claim_limits s n)"
    and fee: "?fee > 0 \<longrightarrow> v > ?fee" and a: "a = saturating_sub v ?fee"
    and t: "ElasticClaims t = (ElasticClaims s)(n := (ElasticClaims s n)(tx \<mapsto> (who, a, False)))"
      "ElasticClaimLimits t = (ElasticClaimLimits s)(n \<mapsto> saturating_sub (elastic_claim_limits s n) a)"
    by (auto simp: claims_call_defs do_mint_claim_Ok insert_claim_def word_le_nat_alt)
  have net: "unat a = unat v - unat ?fee" using a by (simp add: word_nat)
  note old = dispatch_same_old [OF assms]
  have view: "bridge_view t = set_ticket n tx (Payable who (unat v - unat ?fee))
      (set_allowance n (allowance ?b n - (unat v - unat ?fee)) ?b)"
    using old by (intro bridge_view_eqI)
      (auto simp: set_ticket_def set_allowance_def t net same_old_def elastic_claim_limits_def [of t] word_nat,
       simp add: elastic_claim_limits_def)
  show ?thesis unfolding view using fee
    by (intro bridge_step.Mint) (auto simp: new le word_less_nat_alt unat_eq_0)
qed

lemma claim_simulated:
  assumes "claims_dispatch cfg orig (Claim_elastic n dest tx sig) s = (t, Ok ())"
  shows "bridge_step (PayEvent n tx) (bridge_view s) (bridge_view t)"
proof -
  obtain a v where old: "ElasticClaims s n tx = Some (a, v, False)"
    and t: "ElasticClaims t = (ElasticClaims s)(n := (ElasticClaims s n)(tx \<mapsto> (a, v, True)))"
      "ElasticClaimLimits t = ElasticClaimLimits s"
    using assms by (auto simp: claims_call_defs do_claim_Ok insert_claim_def)
  have "bridge_view t = set_ticket n tx (Paid a (unat v)) (bridge_view s)"
    using dispatch_same_old [OF assms]
    by (intro bridge_view_eqI) (auto simp: set_ticket_def t elastic_claim_limits_def same_old_def)
  with old show ?thesis by (auto intro: bridge_step.Pay)
qed

lemma limit_simulated:
  assumes "claims_dispatch cfg orig (Set_claim_limit_elastic n v) s = (t, Ok ())"
  shows "bridge_step (AllowEvent n (unat v)) (bridge_view s) (bridge_view t)"
proof -
  have "bridge_view t = set_allowance n (unat v) (bridge_view s)"
    using dispatch_same_old [OF assms] assms
    by (intro bridge_view_eqI) (auto simp: claims_call_defs set_allowance_def elastic_claim_limits_def same_old_def)
  then show ?thesis by (simp add: bridge_step.Allow)
qed

lemma dispatch_simulated:
  assumes "claims_dispatch cfg orig c s = (t, Ok ())"
  shows "case call_event c s of Some e \<Rightarrow> bridge_step e (bridge_view s) (bridge_view t)
    | None \<Rightarrow> bridge_view t = bridge_view s"
proof (cases c)
  case Mint_claim_elastic
  with assms show ?thesis using mint_simulated by simp
next
  case Claim_elastic
  with assms show ?thesis using claim_simulated by simp
next
  case Set_claim_limit_elastic
  with assms show ?thesis using limit_simulated by simp
qed (use assms dispatch_same_old [OF assms] in
    \<open>auto simp: claims_call_defs do_burn_Ok intro!: bridge_view_cong\<close>)

text \<open>The copy loop of the migration gives BSC the record of the old map where it had none.\<close>

lemma migrate_claims_old:
  "ElasticClaims (fold migrate_claim kvs s) BSC tx =
     (case ElasticClaims s BSC tx of Some r \<Rightarrow> Some r | None \<Rightarrow> old_record kvs tx)"
proof (induction kvs arbitrary: s)
  case (Cons kv kvs)
  obtain k r where kv: "kv = (k, r)" by force
  show ?case by (cases "k = tx"; cases r; cases "ElasticClaims s BSC tx") (simp_all add: Cons kv)
qed (simp split: option.splits)

lemma upgrade_simulated:
  assumes "\<not> 2 \<le> pallet_storage_version s"
  shows "bridge_step ImportEvent (bridge_view s) (bridge_view (fst (on_runtime_upgrade s)))"
proof -
  let ?t = "fst (on_runtime_upgrade s)"
  have claims: "ElasticClaims ?t n tx = (if n = BSC then
      (case ElasticClaims s BSC tx of Some r \<Rightarrow> Some r | None \<Rightarrow> old_record (Claims s) tx) else ElasticClaims s n tx)" for n tx
    using assms migrate_claims_other [of "Claims s" s]
    by (cases n) (simp_all add: on_runtime_upgrade_def Let_def migrate_claims_old)
  have limits: "ElasticClaimLimits ?t = (if ClaimLimit s > 0 then (ElasticClaimLimits s)(BSC \<mapsto> ClaimLimit s)
      else ElasticClaimLimits s)" and old: "Claims ?t = []" "ClaimLimit ?t = ClaimLimit s"
    using assms by (simp_all add: on_runtime_upgrade_def Let_def migrate_limit_def)
  have "bridge_view ?t = import_old (bridge_view s)"
    by (rule bridge_view_eqI)
      (auto simp: import_old_def claims limits old elastic_claim_limits_def upgrade_version unat_gt_0 word_neq_0_conv
        split: option.splits)
  with assms show ?thesis by (auto intro: bridge_step.Import)
qed

interpretation bridge_sim: step_simulation "claims_step cfg" "bridge_event_of cfg" bridge_view bridge_step for cfg
proof
  fix l e and s :: "('b, 'c) claims_state"
  show "bridge_step e (bridge_view s) (bridge_view (claims_step cfg l s))" if "bridge_event_of cfg l s = Some e"
  proof (cases l)
    case (Extrinsic orig c)
    obtain t r where d: "claims_dispatch cfg orig c s = (t, r)" by force
    with that Extrinsic have "r = Ok ()" "call_event c s = Some e" by (auto split: result.splits)
    with d dispatch_simulated [of cfg orig c s t] Extrinsic show ?thesis by simp
  next
    case RuntimeUpgrade
    with that upgrade_simulated show ?thesis by (simp split: if_splits)
  qed
  show "bridge_view (claims_step cfg l s) = bridge_view s" if "bridge_event_of cfg l s = None"
  proof (cases l)
    case (Extrinsic orig c)
    obtain t r where d: "claims_dispatch cfg orig c s = (t, r)" by force
    with that Extrinsic dispatch_simulated [of cfg orig c s t] show ?thesis
      by (cases r) (auto dest: claims_dispatch_Err)
  next
    case RuntimeUpgrade
    with that show ?thesis by (simp add: on_runtime_upgrade_def split: if_splits)
  qed
qed

lemma record_persists:
  assumes "ElasticClaims s n tx = Some (a, v, False)" and "u = run (claims_step cfg) ls s"
  obtains c where "ElasticClaims u n tx = Some (a, v, c)"
proof -
  have "claims_le s u" unfolding assms(2) by (rule records.run_increases)
  with assms(1) show ?thesis using that unfolding claims_le_def by blast
qed

section \<open>Properties\<close>

text \<open>
  C15. The claims pallet implements the abstract bridge: over every sequence of
  extrinsics and runtime upgrades, successful or not, the storage read as an abstract
  bridge is the result of executing exactly the events that the steps are meant to be,
  in their order, each with its guard met: a successful mint takes an unknown
  transaction, an amount within the allowance and the configured fee, and makes the
  rest payable; a successful claim pays a payable one; an upgrade of the old version
  imports its storage once; every other call and every failed one leaves the bridge
  alone. So a transaction passes from unknown to payable to paid, with one beneficiary
  and one amount, and never back.
\<close>

theorem claims_refine_bridge:
  "executes bridge_step (run_events (claims_step cfg) (bridge_event_of cfg) ls s)
     (bridge_view s) (bridge_view (run (claims_step cfg) ls s)) \<and>
   ticket_le (tickets (bridge_view s) n tx) (tickets (bridge_view (run (claims_step cfg) ls s)) n tx)"
  using bridge_sim.run_simulated executes_forward [OF bridge_sim.run_simulated] by blast

text \<open>
  C20. Nobody can keep a beneficiary from being paid. After a successful mint for an
  address, and after any further sequence of extrinsics and upgrades, either the
  transaction has been paid, or a claim with a signature of that address for any
  destination succeeds and marks it as paid.
\<close>

theorem minted_stays_claimable:
  assumes "claims_dispatch cfg orig (Mint_claim_elastic n tx a v) s = (t, Ok ())"
    and "u = run (claims_step cfg) ls t"
    and "claim_signer cfg dest tx sig = Some a" and "ensure_none (c_origins cfg) orig' = Ok ()"
  shows "(\<exists>x. tickets (bridge_view u) n tx = Paid a x) \<or>
    (\<exists>w x. claims_dispatch cfg orig' (Claim_elastic n dest tx sig) u = (w, Ok ()) \<and>
           tickets (bridge_view w) n tx = Paid a x)"
proof -
  obtain x where "ElasticClaims t n tx = Some (a, x, False)"
    using assms(1) by (auto simp: claims_call_defs do_mint_claim_Ok)
  then obtain c where u: "ElasticClaims u n tx = Some (a, x, c)"
    using assms(2) by (rule record_persists)
  show ?thesis
  proof (cases c)
    case True
    with u show ?thesis by simp
  next
    case False
    with u assms(3,4) show ?thesis
      by (simp add: claims_call_defs do_claim_Ok)
  qed
qed

theorem minted_stays_claimable_witness:
  "\<exists>w. claims_dispatch demo_claims NoOrigin (Claim_elastic BSC 7 demo_tx demo_sig)
         (run (claims_step demo_claims) [RuntimeUpgrade] demo_minted) = (w, Ok ())"
proof -
  have not_paid: "tickets (bridge_view (run (claims_step demo_claims) [RuntimeUpgrade] demo_minted)) BSC demo_tx =
      Payable demo_address 1190"
    by (simp add: run_def on_runtime_upgrade_def Let_def demo_minted_eq pallet_storage_version_def
        VersionDefault_def migrate_limit_def migrate_bridge_account_def migrate_fees_def)
  have signer: "claim_signer demo_claims 7 demo_tx demo_sig = Some demo_address"
    and none: "ensure_none (c_origins demo_claims) NoOrigin = Ok ()" by simp_all
  from minted_stays_claimable [OF demo_mint_Ok refl signer none, of "[RuntimeUpgrade]"] not_paid
  show ?thesis by auto
qed

end
