(* ===== verification/Evm_Accounts.thy ===== *)
theory Evm_Accounts
  imports Ethereum_Address
begin

text \<open>
  The EVM-accounts pallet, \<^verbatim>\<open>modules/evm-accounts/src/lib.rs\<close>: a two-way mapping
  between accounts and EVM addresses, claimed with an Ethereum signature, undone
  when an account is killed; the address mapping the EVM uses; and the pallet's
  own copies of the message construction, signing and recovery.

  \<open>evm_accounts_state\<close> holds the two storage maps, the events, the nonces of the
  system's account storage and the rest of the chain state. The merging and
  killing of accounts, which the configuration provides, act on the whole state,
  because killing an account calls back into this pallet; the law
  \<open>changes_maps_by_kills\<close> says that this is all they do to the maps.
\<close>

section \<open>Data\<close>

type_synonym evm_address = h160

record 'l evm_accounts_state =
  Accounts :: "evm_address \<rightharpoonup> account_id"
  EvmAddresses :: "account_id \<rightharpoonup> evm_address"
  claim_events :: "(account_id \<times> evm_address) list"
  system_nonces :: "account_id \<rightharpoonup> tx_index"
  chain :: 'l

record ('o, 'l) evm_accounts_config =
  ea_origins :: "('o, account_id) origin_checks"
  ea_crypto :: host_crypto
  ea_encode_account :: "account_id \<Rightarrow> u8 list"
  ea_into_account_id :: "'l evm_accounts_state \<Rightarrow> evm_address \<Rightarrow> account_id"
  ea_merge_account :: "account_id \<Rightarrow> account_id \<Rightarrow> ('l evm_accounts_state, unit, dispatch_error) comp"
  ea_killed :: "account_id \<Rightarrow> ('l evm_accounts_state, unit, dispatch_error) comp"

text \<open>The part of the \<open>secp256k1\<close> crate that signing uses.\<close>

record ('sk, 'pk) secp_library =
  public_from_secret_key :: "'sk \<Rightarrow> 'pk"
  serialize_public :: "'pk \<Rightarrow> 65 bytes"
  secp_sign :: "32 bytes \<Rightarrow> 'sk \<Rightarrow> 64 bytes \<times> u8"

section \<open>Messages\<close>

text \<open>The loops of the pallet push onto a vector that starts empty.\<close>

fun push_hex :: "u8 list \<Rightarrow> u8 list \<Rightarrow> u8 list" where
  "push_hex [] r = r"
| "push_hex (b # bs) r =
     (let r1 = r @ [if b div 16 < 10 then 48 + b div 16 else 97 - 10 + b div 16];
          r2 = r1 @ [if b mod 16 < 10 then 48 + b mod 16 else 97 - 10 + b mod 16]
      in push_hex bs r2)"

definition evm_to_ascii_hex :: "u8 list \<Rightarrow> u8 list" where
  "evm_to_ascii_hex data = push_hex data []"

function push_digits :: "nat \<Rightarrow> u8 list \<Rightarrow> u8 list" where
  "push_digits l r = (if l > 0 then push_digits (l div 10) (r @ [48 + of_nat (l mod 10)]) else r)"
  by auto
termination
  by (relation "measure fst") auto

declare push_digits.simps [simp del]

definition evm_prefix :: "u8 list" where
  "evm_prefix = ascii ''clover evm:''"

definition evm_signable_message :: "u8 list \<Rightarrow> u8 list \<Rightarrow> u8 list" where
  "evm_signable_message what extra =
     (let l = length evm_prefix + length what + length extra;
          r = push_digits l []
      in 0x19 # ascii ''Ethereum Signed Message:'' @ [10] @ rev r @ evm_prefix @ what @ extra)"

definition evm_eth_recover :: "host_crypto \<Rightarrow> 65 bytes \<Rightarrow> u8 list \<Rightarrow> u8 list \<Rightarrow> evm_address option" where
  "evm_eth_recover K s what extra =
     (let msg = keccak_256 K (evm_signable_message what extra)
      in case secp256k1_ecdsa_recover K s msg of
           None \<Rightarrow> None
         | Some pub \<Rightarrow> Some (hash_tail (keccak_256 K (bytes_list pub))))"

definition eth_public :: "('sk, 'pk) secp_library \<Rightarrow> 'sk \<Rightarrow> 'pk" where
  "eth_public S secret = public_from_secret_key S secret"

definition eth_address :: "('sk, 'pk) secp_library \<Rightarrow> host_crypto \<Rightarrow> 'sk \<Rightarrow> evm_address" where
  "eth_address S K secret =
     hash_tail (keccak_256 K (take 64 (drop 1 (bytes_list (serialize_public S (eth_public S secret))))))"

definition eth_sign ::
  "('sk, 'pk) secp_library \<Rightarrow> host_crypto \<Rightarrow> 'sk \<Rightarrow> u8 list \<Rightarrow> u8 list \<Rightarrow> 65 bytes" where
  "eth_sign S K secret what extra =
     (let msg = keccak_256 K (evm_signable_message (evm_to_ascii_hex what) extra);
          (sig, recovery_id) = secp_sign S msg secret;
          r = bytes_list sig @ drop 64 (replicate 65 0)
      in Bytes (r[64 := recovery_id]))"

section \<open>The address mapping\<close>

text \<open>\<open>data[off..].copy_from_slice(xs)\<close>.\<close>

definition copy_into :: "nat \<Rightarrow> u8 list \<Rightarrow> u8 list \<Rightarrow> u8 list" where
  "copy_into off xs data = take off data @ xs @ drop (off + length xs) data"

definition padded_account :: "evm_address \<Rightarrow> account_id" where
  "padded_account address =
     (let data = replicate 32 0;
          data = copy_into 0 (ascii ''evm:'') data;
          data = copy_into 4 (bytes_list address) data
      in Bytes data)"

definition into_account_id :: "'l evm_accounts_state \<Rightarrow> evm_address \<Rightarrow> account_id" where
  "into_account_id s address =
     (case Accounts s address of Some acc \<Rightarrow> acc | None \<Rightarrow> padded_account address)"

definition to_evm_address :: "'l evm_accounts_state \<Rightarrow> account_id \<Rightarrow> evm_address option" where
  "to_evm_address s acc =
     (case EvmAddresses s acc of
        Some address \<Rightarrow> Some address
      | None \<Rightarrow>
          (let data = bytes_list acc
           in if take 4 data = ascii ''evm:'' then Some (Bytes (take 20 (drop 4 data))) else None))"

section \<open>Operations\<close>

definition account_nonce :: "'l evm_accounts_state \<Rightarrow> account_id \<Rightarrow> tx_index" where
  "account_nonce s a = (case system_nonces s a of Some n \<Rightarrow> n | None \<Rightarrow> 0)"

definition on_killed_account :: "account_id \<Rightarrow> 'l evm_accounts_state \<Rightarrow> 'l evm_accounts_state" where
  "on_killed_account who s =
     (case EvmAddresses s who of
        Some evm_addr \<Rightarrow> s\<lparr>Accounts := (Accounts s)(evm_addr := None),
                           EvmAddresses := (EvmAddresses s)(who := None)\<rparr>
      | None \<Rightarrow> s)"

text \<open>The hook that the runtime names in its configuration of the system.\<close>

definition CallKillAccount :: "account_id \<Rightarrow> 'l evm_accounts_state \<Rightarrow> 'l evm_accounts_state" where
  [simp]: "CallKillAccount who = on_killed_account who"

text \<open>\<open>let _ = \<dots>\<close>: the writes stay, the result is dropped.\<close>

definition ignore_result :: "('s, 'a, 'e) comp \<Rightarrow> ('s, unit, 'e) comp" where
  "ignore_result m = (\<lambda>s. (fst (m s), Ok ()))"

definition store_mapping ::
  "account_id \<Rightarrow> evm_address \<Rightarrow> 'l evm_accounts_state \<Rightarrow> 'l evm_accounts_state" where
  "store_mapping who eth s =
     (let s1 = (case EvmAddresses s who of
                  Some evm_addr \<Rightarrow> s\<lparr>Accounts := (Accounts s)(evm_addr := None)\<rparr>
                | None \<Rightarrow> s)
      in s1\<lparr>Accounts := (Accounts s1)(eth \<mapsto> who),
            EvmAddresses := (EvmAddresses s1)(who \<mapsto> eth)\<rparr>)"

definition raise_nonce :: "account_id \<Rightarrow> tx_index \<Rightarrow> 'l evm_accounts_state \<Rightarrow> 'l evm_accounts_state" where
  "raise_nonce who nonce s =
     (let origin_nonce = account_nonce s who
      in if origin_nonce < nonce then s\<lparr>system_nonces := (system_nonces s)(who \<mapsto> nonce)\<rparr> else s)"

definition merge_padded ::
  "('o, 'l) evm_accounts_config \<Rightarrow> account_id \<Rightarrow> evm_address \<Rightarrow>
   ('l evm_accounts_state, tx_index, dispatch_error) comp" where
  "merge_padded cfg who eth =
     and_then (gets (\<lambda>s. ea_into_account_id cfg s eth)) (\<lambda>account_id.
     and_then (gets (\<lambda>s. system_nonces s account_id \<noteq> None)) (\<lambda>exists.
     if exists
     then and_then (ea_merge_account cfg account_id who) (\<lambda>_.
          and_then (gets (\<lambda>s. account_nonce s account_id)) (\<lambda>nonce.
          and_then (ignore_result (ea_killed cfg account_id)) (\<lambda>_.
          ok nonce)))
     else ok 0))"

definition claim_account ::
  "('o, 'l) evm_accounts_config \<Rightarrow> 'o \<Rightarrow> evm_address \<Rightarrow> 65 bytes \<Rightarrow>
   ('l evm_accounts_state, unit, dispatch_error) comp" where
  "claim_account cfg origin eth sig =
     and_then (lift (ensure_signed (ea_origins cfg) origin)) (\<lambda>who.
     and_then (gets id) (\<lambda>st.
     and_then (ensure (EvmAddresses st who = None) (EvmAccountsError AccountIdHasMapped)) (\<lambda>_.
     and_then (ensure (Accounts st eth = None) (EvmAccountsError EthAddressHasMapped)) (\<lambda>_.
     transactional (
       and_then (lift (ok_or (evm_eth_recover (ea_crypto cfg) sig
                                (evm_to_ascii_hex (ea_encode_account cfg who)) [])
                         (EvmAccountsError BadSignature))) (\<lambda>address.
       and_then (ensure (eth = address) (EvmAccountsError InvalidSignature)) (\<lambda>_.
       and_then (merge_padded cfg who eth) (\<lambda>nonce.
       and_then (modify (raise_nonce who nonce)) (\<lambda>_.
       and_then (modify (store_mapping who eth)) (\<lambda>_.
       modify (\<lambda>s. s\<lparr>claim_events := claim_events s @ [(who, eth)]\<rparr>))))))))))) "

section \<open>The pallet as a state machine\<close>

datatype 'o evm_accounts_label = Claim_account 'o evm_address "65 bytes" | Killed_account account_id

fun evm_accounts_step ::
  "('o, 'l) evm_accounts_config \<Rightarrow> 'o evm_accounts_label \<Rightarrow> 'l evm_accounts_state \<Rightarrow>
   'l evm_accounts_state" where
  "evm_accounts_step cfg (Claim_account orig eth sig) s = fst (claim_account cfg orig eth sig s)"
| "evm_accounts_step cfg (Killed_account who) s = on_killed_account who s"

definition evm_accounts_genesis :: "(account_id \<rightharpoonup> tx_index) \<Rightarrow> 'l \<Rightarrow> 'l evm_accounts_state" where
  "evm_accounts_genesis nonces l =
     \<lparr>Accounts = Map.empty, EvmAddresses = Map.empty, claim_events = [], system_nonces = nonces,
      chain = l\<rparr>"

section \<open>Specification functions\<close>

text \<open>The two maps are inverse to each other.\<close>

definition two_way :: "'l evm_accounts_state \<Rightarrow> bool" where
  "two_way s \<longleftrightarrow> (\<forall>e a. Accounts s e = Some a \<longleftrightarrow> EvmAddresses s a = Some e)"

text \<open>
  Documented behaviour of merging and killing: the mapping changes only through the
  call-back on killed accounts.
\<close>

definition changes_maps_by_kills :: "('l evm_accounts_state, 'a, 'e) comp \<Rightarrow> bool" where
  "changes_maps_by_kills m \<longleftrightarrow>
     (\<forall>s. \<exists>ks. Accounts (fst (m s)) = Accounts (fold on_killed_account ks s) \<and>
               EvmAddresses (fst (m s)) = EvmAddresses (fold on_killed_account ks s))"

text \<open>Documented behaviour of signing: the recovery of a signature gives the signer's public key.\<close>

definition signatures_recover :: "('sk, 'pk) secp_library \<Rightarrow> host_crypto \<Rightarrow> bool" where
  "signatures_recover S K \<longleftrightarrow>
     (\<forall>msg sk. case secp_sign S msg sk of (sig, rid) \<Rightarrow>
        secp256k1_ecdsa_recover K (Bytes (bytes_list sig @ [rid])) msg =
          Some (Bytes (drop 1 (bytes_list (serialize_public S (public_from_secret_key S sk))))))"

text \<open>
  An address mapping, as the EVM and the interop pallet use it: a state in which an
  address is \<open>regular\<close> reads the address back from its account.
\<close>

locale address_mapping =
  fixes into_account :: "'s \<Rightarrow> evm_address \<Rightarrow> 'acc"
    and to_address :: "'s \<Rightarrow> 'acc \<Rightarrow> evm_address option"
    and regular :: "'s \<Rightarrow> evm_address \<Rightarrow> bool"
  assumes to_into: "regular s e \<Longrightarrow> to_address s (into_account s e) = Some e"
begin

lemma into_account_inject:
  "regular s e \<Longrightarrow> regular s e' \<Longrightarrow> into_account s e = into_account s e' \<longleftrightarrow> e = e'"
  by (metis option.inject to_into)

end

text \<open>The padded account of the address has no mapping of its own.\<close>

definition regular_address :: "'l evm_accounts_state \<Rightarrow> evm_address \<Rightarrow> bool" where
  "regular_address s e \<longleftrightarrow> two_way s \<and> EvmAddresses s (padded_account e) = None"

section \<open>A configuration for witnesses\<close>

definition demo_evm :: "(account_id raw_origin, unit) evm_accounts_config" where
  "demo_evm =
     \<lparr>ea_origins = raw_origins, ea_crypto = null_crypto, ea_encode_account = bytes_list,
      ea_into_account_id = into_account_id,
      ea_merge_account = (\<lambda>src dst. ok ()),
      ea_killed = (\<lambda>a. modify (\<lambda>s. on_killed_account a (s\<lparr>system_nonces := (system_nonces s)(a := None)\<rparr>)))\<rparr>"

definition demo_who :: account_id where
  "demo_who = Bytes (replicate 32 7)"

definition demo_chain :: "unit evm_accounts_state" where
  "demo_chain = evm_accounts_genesis [padded_account zero_array \<mapsto> 9, demo_who \<mapsto> 4] ()"

definition demo_secp :: "(unit, unit) secp_library" where
  "demo_secp = \<lparr>public_from_secret_key = (\<lambda>_. ()), serialize_public = (\<lambda>_. zero_array),
     secp_sign = (\<lambda>_ _. (zero_array, 0))\<rparr>"

section \<open>Messages agree with the claims pallet\<close>

lemma push_hex_eq: "push_hex bs r = r @ to_ascii_hex bs"
  by (induction bs arbitrary: r) (auto simp: Let_def push_nibble_def)

lemma evm_to_ascii_hex_eq: "evm_to_ascii_hex = to_ascii_hex"
  by (simp add: fun_eq_iff evm_to_ascii_hex_def push_hex_eq)

lemma push_digits_0 [simp]: "push_digits 0 r = r"
  by (simp add: push_digits.simps)

lemma push_digits_eq: "push_digits l r = r @ rev_digits l"
proof (induction l r rule: push_digits.induct)
  case (1 l r)
  then show ?case by (cases "l > 0") (simp_all add: push_digits.simps [of l r] rev_digits.simps [of l])
qed

lemma evm_signable_message_eq:
  "evm_signable_message what extra = ethereum_signable_message evm_prefix what extra"
  by (simp add: evm_signable_message_def ethereum_signable_message_def message_header_def
      push_digits_eq Let_def)

lemma evm_eth_recover_eq: "evm_eth_recover K s what extra = eth_recover_bytes K evm_prefix s what extra"
  by (simp add: evm_eth_recover_def eth_recover_bytes_def evm_signable_message_eq)

section \<open>The address mapping\<close>

lemma length_ascii [simp]: "length (ascii cs) = length cs"
  by (simp add: ascii_def)

lemma bytes_list_padded [simp]:
  "bytes_list (padded_account e) = ascii ''evm:'' @ bytes_list e @ replicate 8 0"
proof -
  have "copy_into 4 (bytes_list e) (copy_into 0 (ascii ''evm:'') (replicate 32 0)) =
      ascii ''evm:'' @ bytes_list e @ replicate 8 0"
    by (simp add: copy_into_def ascii_def)
  then show ?thesis by (simp add: padded_account_def Let_def)
qed

lemma to_evm_address_padded:
  "EvmAddresses s (padded_account e) = None \<Longrightarrow> to_evm_address s (padded_account e) = Some e"
  by (simp add: to_evm_address_def Let_def bytes_list_inverse)

interpretation evm_mapping: address_mapping into_account_id to_evm_address regular_address
proof
  fix s :: "'a evm_accounts_state" and e
  assume "regular_address s e"
  then have "two_way s" and none: "EvmAddresses s (padded_account e) = None"
    by (simp_all add: regular_address_def)
  show "to_evm_address s (into_account_id s e) = Some e"
  proof (cases "Accounts s e")
    case None
    with none show ?thesis by (simp add: into_account_id_def to_evm_address_padded)
  next
    case (Some acc)
    with \<open>two_way s\<close> have "EvmAddresses s acc = Some e" by (simp add: two_way_def)
    with Some show ?thesis by (simp add: into_account_id_def to_evm_address_def)
  qed
qed

section \<open>The two-way mapping\<close>

lemma two_way_inject:
  "two_way s \<Longrightarrow> EvmAddresses s a = Some e \<Longrightarrow> EvmAddresses s b = Some e \<Longrightarrow> a = b"
  by (metis option.inject two_way_def)

lemma two_way_killed: "two_way s \<Longrightarrow> two_way (on_killed_account who s)"
  using two_way_inject [of s] by (fastforce simp: two_way_def on_killed_account_def split: option.splits)

lemma two_way_kills: "two_way s \<Longrightarrow> two_way (fold on_killed_account ks s)"
  by (induction ks arbitrary: s) (auto simp: two_way_killed)

lemma killed_shrinks:
  "Accounts (on_killed_account who s) \<subseteq>\<^sub>m Accounts s \<and>
   EvmAddresses (on_killed_account who s) \<subseteq>\<^sub>m EvmAddresses s"
  by (auto simp: on_killed_account_def map_le_def split: option.splits)

lemma kills_shrink:
  "Accounts (fold on_killed_account ks s) \<subseteq>\<^sub>m Accounts s \<and>
   EvmAddresses (fold on_killed_account ks s) \<subseteq>\<^sub>m EvmAddresses s"
proof (induction ks arbitrary: s)
  case (Cons k ks)
  from Cons [of "on_killed_account k s"] killed_shrinks [of k s] show ?case
    by (auto intro: map_le_trans)
qed simp

lemma kills_law:
  assumes "changes_maps_by_kills m" and "m s = (t, r)"
  shows "(two_way s \<longrightarrow> two_way t) \<and> Accounts t \<subseteq>\<^sub>m Accounts s \<and> EvmAddresses t \<subseteq>\<^sub>m EvmAddresses s"
proof -
  from assms obtain ks where "Accounts t = Accounts (fold on_killed_account ks s)"
    "EvmAddresses t = EvmAddresses (fold on_killed_account ks s)"
    unfolding changes_maps_by_kills_def by (metis fst_conv)
  with two_way_kills [of s ks] kills_shrink [of ks s] show ?thesis by (simp add: two_way_def)
qed

lemma ignore_result_eq [simp]: "ignore_result m s = (t, r) \<longleftrightarrow> t = fst (m s) \<and> r = Ok ()"
  by (auto simp: ignore_result_def)

lemma merge_padded_Ok:
  "merge_padded cfg who eth s = (t, Ok n) \<longleftrightarrow>
     (let acc = ea_into_account_id cfg s eth in
      if system_nonces s acc = None then t = s \<and> n = 0
      else (\<exists>u. ea_merge_account cfg acc who s = (u, Ok ()) \<and> n = account_nonce u acc \<and>
             t = fst (ea_killed cfg acc u)))"
  by (auto simp: merge_padded_def Let_def)

lemma merge_padded_kills:
  assumes "\<And>src dst. changes_maps_by_kills (ea_merge_account cfg src dst)"
    and "\<And>a. changes_maps_by_kills (ea_killed cfg a)"
    and "merge_padded cfg who eth s = (t, Ok n)"
  shows "(two_way s \<longrightarrow> two_way t) \<and> Accounts t \<subseteq>\<^sub>m Accounts s \<and> EvmAddresses t \<subseteq>\<^sub>m EvmAddresses s"
proof (cases "system_nonces s (ea_into_account_id cfg s eth) = None")
  case False
  let ?acc = "ea_into_account_id cfg s eth"
  from False assms(3) obtain u where u: "ea_merge_account cfg ?acc who s = (u, Ok ())"
    and t: "t = fst (ea_killed cfg ?acc u)" by (auto simp: merge_padded_Ok Let_def)
  obtain r where "ea_killed cfg ?acc u = (t, r)" using t by (cases "ea_killed cfg ?acc u") auto
  from kills_law [OF assms(2) this] kills_law [OF assms(1) u] show ?thesis
    by (auto intro: map_le_trans)
qed (use assms(3) in \<open>simp add: merge_padded_Ok Let_def\<close>)

lemma raise_nonce_simps [simp]:
  "Accounts (raise_nonce who n s) = Accounts s" "EvmAddresses (raise_nonce who n s) = EvmAddresses s"
  "claim_events (raise_nonce who n s) = claim_events s"
  "account_nonce (raise_nonce who n s) who = max n (account_nonce s who)"
  by (auto simp: raise_nonce_def Let_def account_nonce_def max_def split: option.splits)

lemma claim_events_store_mapping [simp]: "claim_events (store_mapping who eth s) = claim_events s"
  by (simp add: store_mapping_def Let_def split: option.splits)

lemma account_nonce_frame [simp]:
  "account_nonce (store_mapping who eth s) a = account_nonce s a"
  "account_nonce (s\<lparr>claim_events := es\<rparr>) a = account_nonce s a"
  by (simp_all add: store_mapping_def account_nonce_def Let_def split: option.splits)

text \<open>A claim that succeeds; \<open>u\<close> is the state after merging.\<close>

lemma claim_account_Ok:
  "claim_account cfg orig eth sig s = (t, Ok ()) \<longleftrightarrow>
     (\<exists>who u n. ensure_signed (ea_origins cfg) orig = Ok who \<and>
        EvmAddresses s who = None \<and> Accounts s eth = None \<and>
        evm_eth_recover (ea_crypto cfg) sig (evm_to_ascii_hex (ea_encode_account cfg who)) [] = Some eth \<and>
        merge_padded cfg who eth s = (u, Ok n) \<and>
        t = (store_mapping who eth (raise_nonce who n u))\<lparr>claim_events := claim_events u @ [(who, eth)]\<rparr>)"
  by (fastforce simp: claim_account_def)

lemma claim_account_Err: "claim_account cfg orig eth sig s = (t, Err e) \<Longrightarrow> t = s"
  by (auto simp: claim_account_def)

lemma store_mapping_fresh:
  "EvmAddresses s who = None \<Longrightarrow> store_mapping who eth s =
     s\<lparr>Accounts := (Accounts s)(eth \<mapsto> who), EvmAddresses := (EvmAddresses s)(who \<mapsto> eth)\<rparr>"
  by (simp add: store_mapping_def Let_def)

lemma claim_account_maps:
  fixes s :: "'l evm_accounts_state"
  assumes "\<And>src dst. changes_maps_by_kills (ea_merge_account cfg src dst)"
    and "\<And>a. changes_maps_by_kills (ea_killed cfg a)"
    and "claim_account cfg orig eth sig s = (t, Ok ())"
  obtains who and u :: "'l evm_accounts_state" where "ensure_signed (ea_origins cfg) orig = Ok who"
    "EvmAddresses s who = None" "Accounts s eth = None"
    "evm_eth_recover (ea_crypto cfg) sig (evm_to_ascii_hex (ea_encode_account cfg who)) [] = Some eth"
    "two_way s \<Longrightarrow> two_way u" "Accounts u \<subseteq>\<^sub>m Accounts s" "EvmAddresses u \<subseteq>\<^sub>m EvmAddresses s"
    "Accounts u eth = None" "EvmAddresses u who = None"
    "Accounts t = (Accounts u)(eth \<mapsto> who)" "EvmAddresses t = (EvmAddresses u)(who \<mapsto> eth)"
proof -
  from assms(3) obtain who u n where w: "ensure_signed (ea_origins cfg) orig = Ok who"
    "EvmAddresses s who = None" "Accounts s eth = None"
    "evm_eth_recover (ea_crypto cfg) sig (evm_to_ascii_hex (ea_encode_account cfg who)) [] = Some eth"
    and m: "merge_padded cfg who eth s = (u, Ok n)"
    and t: "t = (store_mapping who eth (raise_nonce who n u))\<lparr>claim_events := claim_events u @ [(who, eth)]\<rparr>"
    by (auto simp: claim_account_Ok)
  note k = merge_padded_kills [OF assms(1,2) m]
  have none: "Accounts u eth = None" "EvmAddresses u who = None"
    using k w(2,3) by (metis domIff map_le_def)+
  show ?thesis
    by (rule that [OF w, of u]) (use k none in \<open>auto simp: t store_mapping_fresh\<close>)
qed

lemma two_way_claim:
  fixes s :: "'l evm_accounts_state"
  assumes "\<And>src dst. changes_maps_by_kills (ea_merge_account cfg src dst)"
    and "\<And>a. changes_maps_by_kills (ea_killed cfg a)"
    and "claim_account cfg orig eth sig s = (t, Ok ())" and "two_way s"
  shows "two_way t"
proof -
  obtain who and u :: "'l evm_accounts_state" where
    "two_way u" "Accounts u eth = None" "EvmAddresses u who = None"
    "Accounts t = (Accounts u)(eth \<mapsto> who)" "EvmAddresses t = (EvmAddresses u)(who \<mapsto> eth)"
    by (rule claim_account_maps [OF assms(1-3)]) (use assms(4) in blast)
  moreover from this have "EvmAddresses u a \<noteq> Some eth" for a
    by (metis option.distinct(1) two_way_def)
  ultimately show ?thesis by (auto simp: two_way_def)
qed

lemma two_way_step:
  assumes "\<And>src dst. changes_maps_by_kills (ea_merge_account cfg src dst)"
    and "\<And>a. changes_maps_by_kills (ea_killed cfg a)" and "two_way s"
  shows "two_way (evm_accounts_step cfg l s)"
proof (cases l)
  case (Claim_account orig eth sig)
  show ?thesis
  proof (cases "claim_account cfg orig eth sig s")
    case (Pair t r)
    then show ?thesis
      using Claim_account assms(3) two_way_claim [OF assms(1,2) _ assms(3)]
      by (cases r) (auto dest: claim_account_Err)
  qed
next
  case (Killed_account who)
  with assms(3) show ?thesis by (simp add: two_way_killed)
qed

lemma demo_evm_kills:
  "changes_maps_by_kills (ea_merge_account demo_evm src dst)" "changes_maps_by_kills (ea_killed demo_evm a)"
proof -
  show "changes_maps_by_kills (ea_merge_account demo_evm src dst)"
    unfolding changes_maps_by_kills_def
    by (intro allI exI [of _ "[]"]) (simp add: demo_evm_def comp_defs)
  show "changes_maps_by_kills (ea_killed demo_evm a)"
    unfolding changes_maps_by_kills_def
    by (intro allI exI [of _ "[a]"])
      (simp add: demo_evm_def comp_defs on_killed_account_def split: option.splits)
qed

lemma padded_neq_who: "padded_account zero_array \<noteq> demo_who"
proof
  assume "padded_account zero_array = demo_who"
  then have "hd (bytes_list (padded_account zero_array)) = hd (bytes_list demo_who)" by simp
  then show False by (simp add: demo_who_def ascii_def)
qed

lemma demo_bind_Ok:
  "\<exists>t. claim_account demo_evm (SignedBy demo_who) zero_array zero_array demo_chain = (t, Ok ()) \<and>
     account_nonce t demo_who = 9"
proof -
  have "evm_eth_recover null_crypto zero_array w [] = Some zero_array" for w
    by (simp add: evm_eth_recover_eq eth_recover_bytes_def hash_tail_def zero_array_def)
  with padded_neq_who show ?thesis
    by (simp add: claim_account_def demo_evm_def demo_chain_def evm_accounts_genesis_def merge_padded_def
        comp_eval ignore_result_def into_account_id_def on_killed_account_def raise_nonce_def
        account_nonce_def store_mapping_def)
qed

section \<open>Properties\<close>

text \<open>
  C16. The mapping is two-way in every reachable state: an EVM address maps to an
  account exactly when the account maps to that address, whatever claims are made
  and whatever accounts are killed, as long as merging and killing reach the maps
  only through the call-back.
\<close>

theorem mapping_two_way:
  assumes "\<And>src dst. changes_maps_by_kills (ea_merge_account cfg src dst)"
    and "\<And>a. changes_maps_by_kills (ea_killed cfg a)"
    and "s = run (evm_accounts_step cfg) ls (evm_accounts_genesis nonces l)"
  shows "Accounts s e = Some a \<longleftrightarrow> EvmAddresses s a = Some e"
proof -
  have "two_way (evm_accounts_genesis nonces l)" by (simp add: two_way_def evm_accounts_genesis_def)
  then have "two_way s" unfolding assms(3)
    by (rule run_guarded [of "\<lambda>_. True", rotated])
      (auto simp: list_all_iff intro: two_way_step [OF assms(1,2)])
  then show ?thesis by (simp add: two_way_def)
qed

theorem mapping_two_way_witness:
  "Accounts (run (evm_accounts_step demo_evm) [Claim_account (SignedBy demo_who) zero_array zero_array]
      demo_chain) zero_array = Some demo_who \<longleftrightarrow>
   EvmAddresses (run (evm_accounts_step demo_evm) [Claim_account (SignedBy demo_who) zero_array zero_array]
      demo_chain) demo_who = Some zero_array"
  unfolding demo_chain_def by (rule mapping_two_way [OF demo_evm_kills refl])

text \<open>
  C17. Only the owner of the Ethereum key can bind an address. A successful claim
  was signed by an account whose hex encoding was signed by the key of the claimed
  address, neither side was mapped before, afterwards they map to each other, and
  every other entry of the maps was there before.
\<close>

theorem claim_account_binds:
  fixes s :: "'l evm_accounts_state"
  assumes "\<And>src dst. changes_maps_by_kills (ea_merge_account cfg src dst)"
    and "\<And>a. changes_maps_by_kills (ea_killed cfg a)"
    and "claim_account cfg orig eth sig s = (t, Ok ())"
  shows "\<exists>who. ensure_signed (ea_origins cfg) orig = Ok who \<and>
    eth_recover_bytes (ea_crypto cfg) evm_prefix sig (to_ascii_hex (ea_encode_account cfg who)) [] = Some eth \<and>
    EvmAddresses s who = None \<and> Accounts s eth = None \<and>
    EvmAddresses t who = Some eth \<and> Accounts t eth = Some who \<and>
    (e \<noteq> eth \<longrightarrow> Accounts t e \<noteq> None \<longrightarrow> Accounts t e = Accounts s e) \<and>
    (a \<noteq> who \<longrightarrow> EvmAddresses t a \<noteq> None \<longrightarrow> EvmAddresses t a = EvmAddresses s a)"
proof -
  obtain who and u :: "'l evm_accounts_state" where w: "ensure_signed (ea_origins cfg) orig = Ok who"
    "EvmAddresses s who = None" "Accounts s eth = None"
    "evm_eth_recover (ea_crypto cfg) sig (evm_to_ascii_hex (ea_encode_account cfg who)) [] = Some eth"
    and le: "Accounts u \<subseteq>\<^sub>m Accounts s" "EvmAddresses u \<subseteq>\<^sub>m EvmAddresses s"
    and t: "Accounts t = (Accounts u)(eth \<mapsto> who)" "EvmAddresses t = (EvmAddresses u)(who \<mapsto> eth)"
    by (rule claim_account_maps [OF assms])
  have "Accounts u e \<noteq> None \<Longrightarrow> Accounts u e = Accounts s e"
    "EvmAddresses u a \<noteq> None \<Longrightarrow> EvmAddresses u a = EvmAddresses s a"
    using le by (metis domI map_le_def not_None_eq)+
  with w t show ?thesis by (auto simp: evm_eth_recover_eq evm_to_ascii_hex_eq)
qed

theorem claim_account_binds_witness:
  "\<exists>t. claim_account demo_evm (SignedBy demo_who) zero_array zero_array demo_chain = (t, Ok ()) \<and>
     Accounts t zero_array = Some demo_who"
proof -
  obtain t where t: "claim_account demo_evm (SignedBy demo_who) zero_array zero_array demo_chain = (t, Ok ())"
    using demo_bind_Ok by blast
  from claim_account_binds [OF demo_evm_kills t] obtain who where
    "ensure_signed (ea_origins demo_evm) (SignedBy demo_who) = Ok who" "Accounts t zero_array = Some who"
    by blast
  with t show ?thesis by (simp add: demo_evm_def)
qed

text \<open>
  C29. Going from an address to its account and back gives the address, in a state
  whose maps are inverse to each other and where the padded account of the address
  has no mapping of its own; so different such addresses have different accounts.
\<close>

theorem address_account_roundtrip:
  assumes "two_way s" and "EvmAddresses s (padded_account e) = None"
    and "EvmAddresses s (padded_account e') = None"
  shows "to_evm_address s (into_account_id s e) = Some e \<and>
    (into_account_id s e = into_account_id s e' \<longleftrightarrow> e = e')"
  using assms evm_mapping.to_into [of s e] evm_mapping.into_account_inject [of s e e']
  by (simp add: regular_address_def)

theorem address_account_roundtrip_witness:
  "to_evm_address demo_chain (into_account_id demo_chain zero_array) = Some zero_array"
proof -
  have "two_way demo_chain" "EvmAddresses demo_chain (padded_account e) = None" for e
    by (simp_all add: two_way_def demo_chain_def evm_accounts_genesis_def)
  with address_account_roundtrip [of demo_chain zero_array zero_array] show ?thesis by simp
qed

text \<open>
  The other direction is not a round trip: every account whose bytes start
  with the padding prefix and that has no mapping reads as an EVM address, because
  the last eight bytes are not compared. Such an account is its address's own
  account only if those bytes are zero.
\<close>

theorem padding_suffix_ignored:
  assumes "EvmAddresses s acc = None" and "Accounts s e = None"
    and "bytes_list acc = ascii ''evm:'' @ bytes_list e @ suffix"
  shows "to_evm_address s acc = Some e \<and>
    (into_account_id s e = acc \<longleftrightarrow> suffix = replicate 8 0)"
proof -
  have "to_evm_address s acc = Some e"
    using assms(1,3) by (simp add: to_evm_address_def Let_def bytes_list_inverse)
  moreover have "into_account_id s e = acc \<longleftrightarrow> bytes_list (padded_account e) = bytes_list acc"
    unfolding bytes_list_inject using assms(2) by (simp add: into_account_id_def)
  ultimately show ?thesis using assms(3) by auto
qed

theorem padding_suffix_ignored_witness:
  "to_evm_address demo_chain (Bytes (ascii ''evm:'' @ replicate 20 0 @ replicate 8 1)) = Some zero_array \<and>
   into_account_id demo_chain zero_array \<noteq> Bytes (ascii ''evm:'' @ replicate 20 0 @ replicate 8 1)"
proof -
  let ?acc = "Bytes (ascii ''evm:'' @ replicate 20 0 @ replicate 8 1) :: account_id"
  have "EvmAddresses demo_chain ?acc = None" "Accounts demo_chain zero_array = None"
    by (simp_all add: demo_chain_def evm_accounts_genesis_def)
  moreover have "bytes_list ?acc = ascii ''evm:'' @ bytes_list (zero_array :: h160) @ replicate 8 1"
    by simp
  ultimately show ?thesis
    using padding_suffix_ignored [of demo_chain ?acc zero_array "replicate 8 1"] by simp
qed

text \<open>
  A claim never lowers a nonce. After a successful claim the nonce of the
  account is at least the nonce its padded address had after merging, so no
  transaction of either can be replayed, and the event of the claim is the last
  one deposited.
\<close>

theorem claim_account_nonce:
  assumes "claim_account cfg orig eth sig s = (t, Ok ())"
    and "ensure_signed (ea_origins cfg) orig = Ok who"
    and "ea_merge_account cfg (ea_into_account_id cfg s eth) who s = (u, Ok ())"
    and "system_nonces s (ea_into_account_id cfg s eth) \<noteq> None"
    and "v = fst (ea_killed cfg (ea_into_account_id cfg s eth) u)"
  shows "account_nonce t who = max (account_nonce u (ea_into_account_id cfg s eth)) (account_nonce v who) \<and>
    last (claim_events t) = (who, eth)"
proof -
  from assms have t: "t = (store_mapping who eth (raise_nonce who
      (account_nonce u (ea_into_account_id cfg s eth)) v))\<lparr>claim_events := claim_events v @ [(who, eth)]\<rparr>"
    by (auto simp: claim_account_Ok merge_padded_Ok Let_def)
  show ?thesis by (simp add: t)
qed

theorem claim_account_nonce_witness:
  "\<exists>t. claim_account demo_evm (SignedBy demo_who) zero_array zero_array demo_chain = (t, Ok ()) \<and>
     account_nonce t demo_who = 9"
proof -
  obtain t where t: "claim_account demo_evm (SignedBy demo_who) zero_array zero_array demo_chain = (t, Ok ())"
    using demo_bind_Ok by blast
  let ?acc = "ea_into_account_id demo_evm demo_chain zero_array"
  have acc: "?acc = padded_account zero_array"
    by (simp add: demo_evm_def into_account_id_def demo_chain_def evm_accounts_genesis_def)
  have h: "ensure_signed (ea_origins demo_evm) (SignedBy demo_who) = Ok demo_who"
    "ea_merge_account demo_evm ?acc demo_who demo_chain = (demo_chain, Ok ())"
    "system_nonces demo_chain ?acc \<noteq> None"
    by (simp_all add: acc) (simp_all add: demo_evm_def comp_defs demo_chain_def evm_accounts_genesis_def)
  have n: "account_nonce demo_chain ?acc = 9"
    "account_nonce (fst (ea_killed demo_evm ?acc demo_chain)) demo_who = 4"
    using padded_neq_who
    by (simp_all add: acc)
      (simp_all add: account_nonce_def demo_evm_def comp_defs demo_chain_def evm_accounts_genesis_def
        on_killed_account_def)
  from claim_account_nonce [OF t h refl] t show ?thesis by (auto simp: n)
qed

text \<open>
  Signing and recovering agree: with a signature library whose recovery gives
  back the signer's public key, recovering the signature that \<open>eth_sign\<close> makes for
  some data, over the hex encoding of that data, gives the address of the signer.
\<close>

lemma sign_recover_roundtrip:
  assumes "signatures_recover S K"
  shows "evm_eth_recover K (eth_sign S K secret what extra) (evm_to_ascii_hex what) extra =
    Some (eth_address S K secret)"
proof -
  let ?msg = "keccak_256 K (evm_signable_message (evm_to_ascii_hex what) extra)"
  obtain sig rid where s: "secp_sign S ?msg secret = (sig, rid)" by (cases "secp_sign S ?msg secret")
  have "(bytes_list sig @ [0])[64 := rid] = bytes_list sig @ [rid]"
    by (simp add: list_update_append)
  then have "eth_sign S K secret what extra = Bytes (bytes_list sig @ [rid])"
    by (simp add: eth_sign_def s Let_def)
  moreover have "secp256k1_ecdsa_recover K (Bytes (bytes_list sig @ [rid])) ?msg =
      Some (Bytes (drop 1 (bytes_list (serialize_public S (public_from_secret_key S secret)))))"
    using assms [unfolded signatures_recover_def, rule_format, of ?msg secret]
    by (simp only: s case_prod_conv)
  ultimately show ?thesis
    by (simp add: evm_eth_recover_def eth_address_def eth_public_def Let_def)
qed

lemma demo_signatures_recover: "signatures_recover demo_secp null_crypto"
  by (simp add: signatures_recover_def demo_secp_def zero_array_def)

text \<open>
  The two copies of the message code agree: the loops of this pallet compute
  the same hex encoding and, for its own prefix, the same signable message and
  recovered address as the claims pallet.
\<close>

theorem message_code_agrees:
  "evm_to_ascii_hex = to_ascii_hex \<and>
   evm_signable_message what extra = ethereum_signable_message evm_prefix what extra \<and>
   evm_eth_recover K s what extra = eth_recover_bytes K evm_prefix s what extra"
  by (simp add: evm_to_ascii_hex_eq evm_signable_message_eq evm_eth_recover_eq)

end
