(* ===== verification/Evm_Interop.thy ===== *)
theory Evm_Interop
  imports Evm_Accounts
begin

text \<open>
  Two small components around the EVM accounts: the interop pallet
  (\<^verbatim>\<open>modules/evm-interop/src/lib.rs\<close>), whose only call sends native currency to the
  account of an EVM address, and the merging of accounts, the trait
  \<open>MergeAccount\<close> with its implementation for tuples
  (\<^verbatim>\<open>modules/traits/src/account.rs\<close>) and the runtime's \<open>MergeAccountEvm\<close>
  (\<^verbatim>\<open>runtime/src/impls.rs\<close>). The balances pallet is the parameter \<open>balances\<close>, with its
  documented behaviour as laws.
\<close>

section \<open>Transfer to an EVM address\<close>

record ('o, 's, 'acc) interop_config =
  io_origins :: "('o, 'acc) origin_checks"
  io_into_account_id :: "'s \<Rightarrow> evm_address \<Rightarrow> 'acc"
  io_transfer :: "'acc \<Rightarrow> 'acc \<Rightarrow> balance \<Rightarrow> existence_requirement \<Rightarrow> ('s, unit, dispatch_error) comp"

definition transfer_to_evm ::
  "('o, 's, 'acc) interop_config \<Rightarrow> 'o \<Rightarrow> evm_address \<Rightarrow> balance \<Rightarrow> ('s, unit, dispatch_error) comp" where
  "transfer_to_evm cfg origin to amount = transactional (
     and_then (lift (ensure_signed (io_origins cfg) origin)) (\<lambda>from.
     and_then (gets (\<lambda>s. io_into_account_id cfg s to)) (\<lambda>account.
     and_then (io_transfer cfg from account amount AllowDeath) (\<lambda>_.
     ok ()))))"

section \<open>Merging accounts\<close>

type_synonym ('s, 'acc) merge_account = "'acc \<Rightarrow> 'acc \<Rightarrow> ('s, unit, dispatch_error) comp"

text \<open>The implementation for tuples runs the components in order inside one transaction.\<close>

fun merge_each :: "('s, 'acc) merge_account list \<Rightarrow> ('s, 'acc) merge_account" where
  "merge_each [] source dest = ok ()"
| "merge_each (m # ms) source dest = and_then (m source dest) (\<lambda>_. merge_each ms source dest)"

definition merge_account_tuple :: "('s, 'acc) merge_account list \<Rightarrow> ('s, 'acc) merge_account" where
  "merge_account_tuple ms source dest = transactional (merge_each ms source dest)"

record ('acc, 'b) balances =
  b_free :: "'b \<Rightarrow> 'acc \<Rightarrow> balance"
  b_reserved :: "'b \<Rightarrow> 'acc \<Rightarrow> balance"
  b_unreserve :: "'acc \<Rightarrow> balance \<Rightarrow> 'b \<Rightarrow> 'b"
  b_transfer :: "'acc \<Rightarrow> 'acc \<Rightarrow> balance \<Rightarrow> ('b, unit, dispatch_error) comp"

definition merge_account_evm :: "('acc, 'b) balances \<Rightarrow> ('b, 'acc) merge_account" where
  "merge_account_evm B source dest = transactional (
     and_then (modify (\<lambda>s. b_unreserve B source (b_reserved B s source) s)) (\<lambda>_.
     and_then (gets (\<lambda>s. b_free B s source)) (\<lambda>free.
     b_transfer B source dest free)))"

section \<open>Documented behaviour of the balances pallet\<close>

text \<open>
  Unreserving moves the amount, or what is reserved if that is less, back to the
  free balance, for an account whose total balance fits.
\<close>

definition unreserve_frees :: "('acc, 'b) balances \<Rightarrow> bool" where
  "unreserve_frees B \<longleftrightarrow>
     (\<forall>s a v. unat (b_free B s a) + unat (b_reserved B s a) < 2 ^ 128 \<longrightarrow>
       (let t = b_unreserve B a v s; m = min (unat v) (unat (b_reserved B s a)) in
        unat (b_reserved B t a) = unat (b_reserved B s a) - m \<and>
        unat (b_free B t a) = unat (b_free B s a) + m \<and>
        (\<forall>b. b \<noteq> a \<longrightarrow> b_free B t b = b_free B s b \<and> b_reserved B t b = b_reserved B s b)))"

text \<open>A successful transfer moves its amount and leaves what is reserved alone.\<close>

definition transfer_exact :: "('acc, 'b) balances \<Rightarrow> bool" where
  "transfer_exact B \<longleftrightarrow>
     (\<forall>s t a b v. b_transfer B a b v s = (t, Ok ()) \<longrightarrow> a \<noteq> b \<longrightarrow>
        unat (b_free B s a) = unat (b_free B t a) + unat v \<and>
        unat (b_free B t b) = unat (b_free B s b) + unat v \<and>
        (\<forall>c. b_reserved B t c = b_reserved B s c) \<and>
        (\<forall>c. c \<noteq> a \<longrightarrow> c \<noteq> b \<longrightarrow> b_free B t c = b_free B s c))"

section \<open>A balances pallet for witnesses\<close>

type_synonym demo_bank = "(nat \<Rightarrow> balance) \<times> (nat \<Rightarrow> balance)"

definition demo_unreserve :: "nat \<Rightarrow> balance \<Rightarrow> demo_bank \<Rightarrow> demo_bank" where
  "demo_unreserve a v s =
     (let m = min v (snd s a) in ((fst s)(a := fst s a + m), (snd s)(a := snd s a - m)))"

definition demo_bank_transfer :: "nat \<Rightarrow> nat \<Rightarrow> balance \<Rightarrow> (demo_bank, unit, dispatch_error) comp" where
  "demo_bank_transfer a b v s =
     (if a = b then (s, Ok ())
      else case (checked_sub (fst s a) v, checked_add (fst s b) v) of
        (Some x, Some y) \<Rightarrow> (((fst s)(a := x, b := y), snd s), Ok ())
      | _ \<Rightarrow> (s, Err (ForeignError 3)))"

definition demo_balances :: "(nat, demo_bank) balances" where
  "demo_balances =
     \<lparr>b_free = fst, b_reserved = snd, b_unreserve = demo_unreserve, b_transfer = demo_bank_transfer\<rparr>"

definition demo_interop :: "(account_id raw_origin, unit evm_accounts_state, account_id) interop_config" where
  "demo_interop =
     \<lparr>io_origins = raw_origins, io_into_account_id = into_account_id,
      io_transfer = (\<lambda>from to v k. ok ())\<rparr>"

lemma demo_unreserve_frees: "unreserve_frees demo_balances"
proof -
  have "unat (fst s a + min v (snd s a)) = unat (fst s a) + min (unat v) (unat (snd s a)) \<and>
      unat (snd s a - min v (snd s a)) = unat (snd s a) - min (unat v) (unat (snd s a))"
    if "unat (fst s a) + unat (snd s a) < 2 ^ 128" for s :: demo_bank and a v
  proof -
    have m: "unat (min v (snd s a)) = min (unat v) (unat (snd s a))"
      by (simp add: min_def word_le_nat_alt)
    with that have "unat (fst s a) + unat (min v (snd s a)) < 2 ^ 128" by simp
    with m show ?thesis by (simp add: unat_add_fits unat_sub_le)
  qed
  then show ?thesis
    by (simp add: unreserve_frees_def demo_balances_def demo_unreserve_def Let_def)
qed

lemma demo_transfer_exact: "transfer_exact demo_balances"
proof -
  have "demo_bank_transfer a b v s = (t, Ok ()) \<longleftrightarrow>
      (if a = b then t = s
       else \<exists>x y. checked_sub (fst s a) v = Some x \<and> checked_add (fst s b) v = Some y \<and>
         t = ((fst s)(a := x, b := y), snd s))" for a b v s t
    by (cases "checked_sub (fst s a) v"; cases "checked_add (fst s b) v")
      (auto simp: demo_bank_transfer_def)
  then show ?thesis by (auto simp: transfer_exact_def demo_balances_def word_nat)
qed

section \<open>Laws of merging\<close>

lemma merge_account_tuple_Err: "merge_account_tuple ms a b s = (t, Err e) \<Longrightarrow> t = s"
  by (auto simp: merge_account_tuple_def)

lemma merge_each_Ok:
  "merge_each ms a b s = (t, Ok ()) \<longleftrightarrow>
     (\<exists>ss. length ss = Suc (length ms) \<and> ss ! 0 = s \<and> ss ! length ms = t \<and>
        (\<forall>i < length ms. (ms ! i) a b (ss ! i) = (ss ! Suc i, Ok ())))"
proof (induction ms arbitrary: s)
  case Nil
  show ?case by (auto simp: length_Suc_conv intro!: exI [of _ "[s]"])
next
  case (Cons m ms)
  show ?case
  proof
    assume "merge_each (m # ms) a b s = (t, Ok ())"
    then obtain u ss where "m a b s = (u, Ok ())" "length ss = Suc (length ms)" "ss ! 0 = u"
      "ss ! length ms = t" "\<forall>i < length ms. (ms ! i) a b (ss ! i) = (ss ! Suc i, Ok ())"
      using Cons by auto
    then show "\<exists>ss. length ss = Suc (length (m # ms)) \<and> ss ! 0 = s \<and> ss ! length (m # ms) = t \<and>
        (\<forall>i < length (m # ms). ((m # ms) ! i) a b (ss ! i) = (ss ! Suc i, Ok ()))"
      by (intro exI [of _ "s # ss"]) (auto simp: less_Suc_eq_0_disj nth_Cons')
  next
    assume "\<exists>ss. length ss = Suc (length (m # ms)) \<and> ss ! 0 = s \<and> ss ! length (m # ms) = t \<and>
        (\<forall>i < length (m # ms). ((m # ms) ! i) a b (ss ! i) = (ss ! Suc i, Ok ()))"
    then obtain ss where ss: "length ss = Suc (Suc (length ms))" "ss ! 0 = s" "ss ! Suc (length ms) = t"
      "\<forall>i < Suc (length ms). ((m # ms) ! i) a b (ss ! i) = (ss ! Suc i, Ok ())" by auto
    then have "merge_each ms a b (ss ! 1) = (t, Ok ())"
      unfolding Cons by (intro exI [of _ "tl ss"]) (auto simp: nth_tl)
    with ss show "merge_each (m # ms) a b s = (t, Ok ())" by auto
  qed
qed

lemma merge_account_evm_Ok:
  "merge_account_evm B a b s = (t, Ok ()) \<longleftrightarrow>
     (let u = b_unreserve B a (b_reserved B s a) s in b_transfer B a b (b_free B u a) u = (t, Ok ()))"
  by (auto simp: merge_account_evm_def Let_def)

section \<open>Transfers through the address mapping\<close>

lemma transfer_to_evm_Ok:
  "transfer_to_evm cfg orig to v s = (t, Ok ()) \<longleftrightarrow>
     (\<exists>from. ensure_signed (io_origins cfg) orig = Ok from \<and>
        io_transfer cfg from (io_into_account_id cfg s to) v AllowDeath s = (t, Ok ()))"
  by (auto simp: transfer_to_evm_def)

context address_mapping
begin

lemma transfer_reaches_owner:
  assumes "io_into_account_id cfg = into_account" and "regular s e"
    and "transfer_to_evm cfg orig e v s = (t, Ok ())"
  shows "\<exists>from acc. ensure_signed (io_origins cfg) orig = Ok from \<and> to_address s acc = Some e \<and>
    io_transfer cfg from acc v AllowDeath s = (t, Ok ())"
  using assms to_into [OF assms(2)] by (auto simp: transfer_to_evm_Ok)

end

section \<open>Properties\<close>

text \<open>
  C30. Merging leaves nothing behind. When \<open>MergeAccountEvm\<close> succeeds between two
  accounts, the source ends with no free and no reserved balance, the destination
  gains exactly the source's free and reserved balance as free balance, and no
  other balance changes; when it fails, nothing changes.
\<close>

theorem merge_moves_everything:
  assumes "unreserve_frees B" and "transfer_exact B" and "a \<noteq> b"
    and "unat (b_free B s a) + unat (b_reserved B s a) < 2 ^ 128"
    and "merge_account_evm B a b s = (t, r)"
  shows "case r of
      Ok _ \<Rightarrow> b_free B t a = 0 \<and> b_reserved B t a = 0 \<and>
        unat (b_free B t b) = unat (b_free B s b) + unat (b_free B s a) + unat (b_reserved B s a) \<and>
        b_reserved B t b = b_reserved B s b \<and>
        (\<forall>c. c \<noteq> a \<longrightarrow> c \<noteq> b \<longrightarrow> b_free B t c = b_free B s c \<and> b_reserved B t c = b_reserved B s c)
    | Err _ \<Rightarrow> t = s"
proof (cases r)
  case (Ok x)
  define u where "u = b_unreserve B a (b_reserved B s a) s"
  from assms(5) Ok have tr: "b_transfer B a b (b_free B u a) u = (t, Ok ())"
    by (simp add: merge_account_evm_Ok u_def Let_def)
  have u: "unat (b_reserved B u a) = 0" "unat (b_free B u a) = unat (b_free B s a) + unat (b_reserved B s a)"
    "\<And>c. c \<noteq> a \<Longrightarrow> b_free B u c = b_free B s c \<and> b_reserved B u c = b_reserved B s c"
    using assms(1,4) by (auto simp: unreserve_frees_def u_def Let_def)
  from assms(2,3) tr have t: "unat (b_free B u a) = unat (b_free B t a) + unat (b_free B u a)"
    "unat (b_free B t b) = unat (b_free B u b) + unat (b_free B u a)"
    "\<And>c. b_reserved B t c = b_reserved B u c"
    "\<And>c. c \<noteq> a \<Longrightarrow> c \<noteq> b \<Longrightarrow> b_free B t c = b_free B u c"
    unfolding transfer_exact_def by blast+
  from Ok u t assms(3) show ?thesis by (auto simp: unat_eq_iff)
next
  case (Err e)
  with assms(5) show ?thesis by (auto simp: merge_account_evm_def)
qed

theorem merge_moves_everything_witness:
  "unat (b_free demo_balances (fst (merge_account_evm demo_balances 1 2 ((\<lambda>_. 10), (\<lambda>_. 5)))) 2) = 25"
proof -
  let ?s = "((\<lambda>_. 10), (\<lambda>_. 5)) :: demo_bank"
  have m: "merge_account_evm demo_balances 1 2 ?s = (fst (merge_account_evm demo_balances 1 2 ?s), Ok ())"
    by (simp add: merge_account_evm_def comp_eval demo_balances_def demo_unreserve_def
        demo_bank_transfer_def checked_sub_def checked_add_def Let_def)
  have fits: "unat (b_free demo_balances ?s 1) + unat (b_reserved demo_balances ?s 1) < 2 ^ 128"
    by (simp add: demo_balances_def)
  from merge_moves_everything [OF demo_unreserve_frees demo_transfer_exact _ fits m]
  show ?thesis by (simp add: demo_balances_def)
qed

text \<open>
  The tuple implementation is one transaction: it succeeds exactly when every
  component succeeds in order, each from the state the one before it left, and
  otherwise it changes nothing.
\<close>

theorem merge_tuple_sequential:
  "(merge_account_tuple ms a b s = (t, Ok ()) \<longleftrightarrow>
      (\<exists>ss. length ss = Suc (length ms) \<and> ss ! 0 = s \<and> ss ! length ms = t \<and>
         (\<forall>i < length ms. (ms ! i) a b (ss ! i) = (ss ! Suc i, Ok ())))) \<and>
   (merge_account_tuple ms a b s = (t, Err e) \<longrightarrow> t = s)"
  using merge_account_tuple_Err [of ms a b s t e]
  by (simp add: merge_account_tuple_def merge_each_Ok)

theorem merge_tuple_sequential_witness:
  "merge_account_tuple [\<lambda>a b. fail BadOrigin] (1 :: nat) 2 (0 :: nat) = (0, Err BadOrigin)"
proof -
  let ?m = "merge_account_tuple [\<lambda>a b. fail BadOrigin] (1 :: nat) 2 (0 :: nat)"
  have err: "?m = (fst ?m, Err BadOrigin)" by (simp add: merge_account_tuple_def comp_eval)
  then have "fst ?m = 0" by (rule conjunct2 [OF merge_tuple_sequential, rule_format])
  with err show ?thesis by (simp only:)
qed

text \<open>
  Currency sent to an EVM address reaches the account that owns the address:
  a successful transfer goes from the signer to an account whose EVM address is the
  target, when the maps are inverse and the padded account has no mapping of its own.
\<close>

theorem transfer_reaches_address:
  assumes "io_into_account_id cfg = into_account_id" and "two_way s"
    and "EvmAddresses s (padded_account e) = None"
    and "transfer_to_evm cfg orig e v s = (t, Ok ())"
  shows "\<exists>from acc. ensure_signed (io_origins cfg) orig = Ok from \<and> to_evm_address s acc = Some e \<and>
    io_transfer cfg from acc v AllowDeath s = (t, Ok ())"
  using evm_mapping.transfer_reaches_owner [OF assms(1) _ assms(4)] assms(2,3)
  by (simp add: regular_address_def)

theorem transfer_reaches_address_witness:
  "\<exists>from acc. ensure_signed (io_origins demo_interop) (SignedBy demo_who) = Ok from \<and>
     to_evm_address demo_chain acc = Some zero_array"
proof -
  have tr: "transfer_to_evm demo_interop (SignedBy demo_who) zero_array 5 demo_chain = (demo_chain, Ok ())"
    by (simp add: transfer_to_evm_def demo_interop_def comp_eval)
  have h: "io_into_account_id demo_interop = into_account_id" "two_way demo_chain"
    "EvmAddresses demo_chain (padded_account zero_array) = None"
    by (simp_all add: demo_interop_def two_way_def demo_chain_def evm_accounts_genesis_def)
  from transfer_reaches_address [OF h tr] show ?thesis by blast
qed

text \<open>
  After an account has claimed an address, currency sent to the address is
  transferred to that account.
\<close>

theorem transfer_after_claim:
  assumes "\<And>src dst. changes_maps_by_kills (ea_merge_account cfg src dst)"
    and "\<And>a. changes_maps_by_kills (ea_killed cfg a)"
    and "claim_account cfg orig eth sig s = (t, Ok ())"
    and "ensure_signed (ea_origins cfg) orig = Ok who"
    and "io_into_account_id icfg = into_account_id"
    and "transfer_to_evm icfg sender eth v t = (u, Ok ())"
  shows "\<exists>from. ensure_signed (io_origins icfg) sender = Ok from \<and>
    io_transfer icfg from who v AllowDeath t = (u, Ok ())"
proof -
  have "Accounts t eth = Some who"
    using assms(4) by (auto intro: claim_account_maps [OF assms(1-3)])
  with assms(5,6) show ?thesis by (auto simp: transfer_to_evm_Ok into_account_id_def)
qed

theorem transfer_after_claim_witness:
  "\<exists>t from. ensure_signed (io_origins demo_interop) (SignedBy demo_who) = Ok from \<and>
     io_transfer demo_interop from demo_who 5 AllowDeath t = (t, Ok ())"
proof -
  obtain t where t: "claim_account demo_evm (SignedBy demo_who) zero_array zero_array demo_chain = (t, Ok ())"
    using demo_bind_Ok by blast
  have h: "ensure_signed (ea_origins demo_evm) (SignedBy demo_who) = Ok demo_who"
    "io_into_account_id demo_interop = into_account_id"
    by (simp_all add: demo_evm_def demo_interop_def)
  have tr: "transfer_to_evm demo_interop (SignedBy demo_who) zero_array 5 t = (t, Ok ())"
    by (simp add: transfer_to_evm_def demo_interop_def comp_eval)
  from transfer_after_claim [OF demo_evm_kills t h tr] show ?thesis by blast
qed

end
