(* ===== verification/Runtime_Config.thy ===== *)
theory Runtime_Config
  imports Primitives
begin

text \<open>
  The constants and parameters of the runtime: \<^verbatim>\<open>runtime/src/constants.rs\<close>,
  \<^verbatim>\<open>runtime/src/clover_evm_config.rs\<close>, the weights of
  \<^verbatim>\<open>runtime/src/weights/evm_accounts.rs\<close>, and the constants, \<open>parameter_types\<close>,
  origin rules and pallet list of \<^verbatim>\<open>runtime/src/lib.rs\<close>. Each \<open>parameter_types\<close>
  block is one record. Ratios keep the constructor the source calls; weights of
  the framework (\<open>WEIGHT_PER_SECOND\<close>, database weights) are arguments.

  The lemmas check what the source's comments and the relations between the
  pallets say of these numbers.
\<close>

section \<open>Time\<close>

definition SECS_PER_BLOCK :: moment where
  "SECS_PER_BLOCK = 6"

definition time_MILLISECS_PER_BLOCK :: moment where
  "time_MILLISECS_PER_BLOCK = SECS_PER_BLOCK * 1000"

definition time_MINUTES :: block_number where
  "time_MINUTES = 60 div ucast SECS_PER_BLOCK"

definition time_HOURS :: block_number where
  "time_HOURS = time_MINUTES * 60"

definition time_DAYS :: block_number where
  "time_DAYS = time_HOURS * 24"

definition time_SLOT_DURATION :: moment where
  "time_SLOT_DURATION = time_MILLISECS_PER_BLOCK"

definition PRIMARY_PROBABILITY :: "u64 \<times> u64" where
  "PRIMARY_PROBABILITY = (1, 4)"

definition EPOCH_DURATION_IN_BLOCKS :: block_number where
  "EPOCH_DURATION_IN_BLOCKS = 10 * time_MINUTES"

text \<open>
  The floating-point computation of the source, as the floor of the exact
  quotient: the slot fill rate is the quotient of two equal numbers.
\<close>

definition EPOCH_DURATION_IN_SLOTS :: u64 where
  "EPOCH_DURATION_IN_SLOTS =
     of_nat (unat EPOCH_DURATION_IN_BLOCKS * unat time_MILLISECS_PER_BLOCK div unat time_SLOT_DURATION)"

text \<open>The constants of the same names in \<^verbatim>\<open>lib.rs\<close>.\<close>

definition MILLISECS_PER_BLOCK :: u64 where
  "MILLISECS_PER_BLOCK = 6000"

definition SLOT_DURATION :: u64 where
  "SLOT_DURATION = MILLISECS_PER_BLOCK"

definition MINUTES :: block_number where
  "MINUTES = 60000 div ucast MILLISECS_PER_BLOCK"

definition HOURS :: block_number where
  "HOURS = MINUTES * 60"

definition DAYS :: block_number where
  "DAYS = HOURS * 24"

section \<open>Version\<close>

record runtime_version =
  spec_name :: string
  impl_name :: string
  authoring_version :: u32
  spec_version :: u32
  impl_version :: u32
  transaction_version :: u32

definition VERSION :: runtime_version where
  "VERSION = \<lparr>spec_name = ''clover'', impl_name = ''clover'', authoring_version = 1,
     spec_version = 18, impl_version = 1, transaction_version = 1\<rparr>"

section \<open>Ratios and weights\<close>

datatype ratio = from_percent nat | from_perthousand nat | from_rational nat nat

type_synonym weight = u64

definition MAXIMUM_BLOCK_WEIGHT :: "weight \<Rightarrow> weight" where
  "MAXIMUM_BLOCK_WEIGHT WEIGHT_PER_SECOND = 2 * WEIGHT_PER_SECOND"

definition NORMAL_DISPATCH_RATIO :: ratio where
  "NORMAL_DISPATCH_RATIO = from_percent 75"

definition AVERAGE_ON_INITIALIZE_RATIO :: ratio where
  "AVERAGE_ON_INITIALIZE_RATIO = from_perthousand 25"

text \<open>The limits the builder sets; \<open>mul\<close> is the multiplication of a ratio and a weight.\<close>

record block_weights =
  base_extrinsic :: weight
  normal_max_total :: weight
  operational_max_total :: weight
  operational_reserved :: weight
  avg_block_initialization :: ratio

definition block_weights_for ::
  "(ratio \<Rightarrow> weight \<Rightarrow> weight) \<Rightarrow> weight \<Rightarrow> weight \<Rightarrow> block_weights" where
  "block_weights_for mul WEIGHT_PER_SECOND extrinsic_base =
     (let m = MAXIMUM_BLOCK_WEIGHT WEIGHT_PER_SECOND
      in \<lparr>base_extrinsic = extrinsic_base,
          normal_max_total = mul NORMAL_DISPATCH_RATIO m,
          operational_max_total = m,
          operational_reserved = m - mul NORMAL_DISPATCH_RATIO m,
          avg_block_initialization = AVERAGE_ON_INITIALIZE_RATIO\<rparr>)"

record system_parameters =
  BlockLengthMax :: u32
  BlockHashCount :: block_number
  AvailableBlockRatio :: ratio
  SS58Prefix :: u8

definition system_params :: system_parameters where
  "system_params = \<lparr>BlockLengthMax = 5 * 1024 * 1024, BlockHashCount = 2400,
     AvailableBlockRatio = from_percent 75, SS58Prefix = 42\<rparr>"

text \<open>\<open>WeightInfo\<close> of the EVM-accounts pallet; \<open>reads\<close> and \<open>writes\<close> are the database weights.\<close>

definition claim_account_weight :: "(weight \<Rightarrow> weight) \<Rightarrow> (weight \<Rightarrow> weight) \<Rightarrow> weight" where
  "claim_account_weight reads writes =
     saturating_add (saturating_add 1253760000 (reads 3)) (writes 4)"

definition default_claim_account_weight :: "(weight \<Rightarrow> weight) \<Rightarrow> (weight \<Rightarrow> weight) \<Rightarrow> weight" where
  "default_claim_account_weight reads writes =
     saturating_add (saturating_add 1253760000 (reads 3)) (writes 4)"

section \<open>Parameters of the pallets\<close>

record staking_parameters =
  SessionsPerEra :: u32
  BondingDuration :: era_index
  SlashDeferDuration :: era_index
  ElectionLookahead :: block_number
  MaxNominatorRewardedPerValidator :: u32
  StakingUnsignedPriority :: u64
  MaxIterations :: u32
  MinSolutionScoreBump :: ratio

definition staking_params :: staking_parameters where
  "staking_params = \<lparr>SessionsPerEra = 36, BondingDuration = 48, SlashDeferDuration = 24,
     ElectionLookahead = EPOCH_DURATION_IN_BLOCKS div 4, MaxNominatorRewardedPerValidator = 64,
     StakingUnsignedPriority = (- 1) div 2, MaxIterations = 10,
     MinSolutionScoreBump = from_rational 5 10000\<rparr>"

record babe_parameters =
  EpochDuration :: u64
  ExpectedBlockTime :: moment
  ReportLongevity :: u64

definition babe_params :: babe_parameters where
  "babe_params = \<lparr>EpochDuration = EPOCH_DURATION_IN_SLOTS, ExpectedBlockTime = MILLISECS_PER_BLOCK,
     ReportLongevity = ucast (BondingDuration staking_params) * ucast (SessionsPerEra staking_params) *
       EPOCH_DURATION_IN_SLOTS\<rparr>"

record identity_parameters =
  BasicDeposit :: balance
  FieldDeposit :: balance
  SubAccountDeposit :: balance
  MaxSubAccounts :: u32
  MaxAdditionalFields :: u32
  MaxRegistrars :: u32

definition identity_params :: identity_parameters where
  "identity_params = \<lparr>BasicDeposit = 10 * DOLLARS, FieldDeposit = 250 * CENTS,
     SubAccountDeposit = 2 * DOLLARS, MaxSubAccounts = 100, MaxAdditionalFields = 100,
     MaxRegistrars = 20\<rparr>"

definition MinVestedTransfer :: balance where
  "MinVestedTransfer = 100 * DOLLARS"

definition MinimumPeriod :: u64 where
  "MinimumPeriod = SLOT_DURATION div 2"

definition UncleGenerations :: block_number where
  "UncleGenerations = 5"

definition DisabledValidatorsThreshold :: ratio where
  "DisabledValidatorsThreshold = from_percent 17"

definition ExistentialDeposit :: u128 where
  "ExistentialDeposit = 0"

definition MaxLocks :: u32 where
  "MaxLocks = 50"

definition SessionDuration :: block_number where
  "SessionDuration = EPOCH_DURATION_IN_BLOCKS"

definition ImOnlineUnsignedPriority :: u64 where
  "ImOnlineUnsignedPriority = - 1"

definition MaxScheduledPerBlock :: u32 where
  "MaxScheduledPerBlock = 50"

record democracy_parameters =
  LaunchPeriod :: block_number
  VotingPeriod :: block_number
  FastTrackVotingPeriod :: block_number
  MinimumDeposit :: balance
  EnactmentPeriod :: block_number
  CooloffPeriod :: block_number
  PreimageByteDeposit :: balance
  InstantAllowed :: bool
  MaxVotes :: u32
  MaxProposals :: u32

definition democracy_params :: democracy_parameters where
  "democracy_params = \<lparr>LaunchPeriod = 7 * DAYS, VotingPeriod = 7 * DAYS,
     FastTrackVotingPeriod = 1 * DAYS, MinimumDeposit = 100 * DOLLARS, EnactmentPeriod = 8 * DAYS,
     CooloffPeriod = 7 * DAYS, PreimageByteDeposit = 10 * MILLICENTS, InstantAllowed = False,
     MaxVotes = 100, MaxProposals = 100\<rparr>"

text \<open>\<open>const fn deposit\<close>, evaluated at compile time.\<close>

definition deposit :: "u32 \<Rightarrow> u32 \<Rightarrow> balance" where
  "deposit items bytes = ucast items * 15 * CENTS + ucast bytes * 6 * CENTS"

record multisig_parameters =
  DepositBase :: balance
  DepositFactor :: balance
  MaxSignatories :: u16

definition multisig_params :: multisig_parameters where
  "multisig_params = \<lparr>DepositBase = deposit 1 88, DepositFactor = deposit 0 32, MaxSignatories = 100\<rparr>"

record collective_parameters =
  MotionDuration :: block_number
  CollectiveMaxProposals :: u32
  CollectiveMaxMembers :: u32

definition council_params :: collective_parameters where
  "council_params = \<lparr>MotionDuration = 3 * DAYS, CollectiveMaxProposals = 100, CollectiveMaxMembers = 100\<rparr>"

definition technical_params :: collective_parameters where
  "technical_params = \<lparr>MotionDuration = 3 * DAYS, CollectiveMaxProposals = 100, CollectiveMaxMembers = 100\<rparr>"

record elections_parameters =
  CandidacyBond :: balance
  VotingBondBase :: balance
  VotingBondFactor :: balance
  TermDuration :: block_number
  DesiredMembers :: u32
  DesiredRunnersUp :: u32
  ElectionsPhragmenModuleId :: "u8 list"

definition elections_params :: elections_parameters where
  "elections_params = \<lparr>CandidacyBond = 1 * DOLLARS, VotingBondBase = deposit 1 64,
     VotingBondFactor = deposit 0 32, TermDuration = 3 * DAYS, DesiredMembers = 7,
     DesiredRunnersUp = 30, ElectionsPhragmenModuleId = ascii ''phrelect''\<rparr>"

record treasury_parameters =
  ProposalBond :: ratio
  ProposalBondMinimum :: balance
  SpendPeriod :: block_number
  Burn :: ratio
  TreasuryModuleId :: "u8 list"
  TipCountdown :: block_number
  TipFindersFee :: ratio
  TipReportDepositBase :: balance
  DataDepositPerByte :: balance
  MaximumReasonLength :: u32
  BountyDepositBase :: balance
  BountyDepositPayoutDelay :: block_number
  BountyUpdatePeriod :: block_number
  BountyCuratorDeposit :: ratio
  BountyValueMinimum :: balance

definition treasury_params :: treasury_parameters where
  "treasury_params = \<lparr>ProposalBond = from_percent 5, ProposalBondMinimum = 1 * DOLLARS,
     SpendPeriod = 1 * DAYS, Burn = from_percent 1, TreasuryModuleId = ascii ''py/trsry'',
     TipCountdown = 1 * DAYS, TipFindersFee = from_percent 20, TipReportDepositBase = 1 * DOLLARS,
     DataDepositPerByte = 10 * MILLICENTS, MaximumReasonLength = 16384, BountyDepositBase = 1 * DOLLARS,
     BountyDepositPayoutDelay = 1 * DAYS, BountyUpdatePeriod = 7 * DAYS,
     BountyCuratorDeposit = from_percent 50, BountyValueMinimum = 5 * DOLLARS\<rparr>"

record payment_parameters =
  TransactionByteFee :: balance
  TargetBlockFullness :: ratio
  AdjustmentVariable :: ratio
  MinimumMultiplier :: ratio

definition payment_params :: payment_parameters where
  "payment_params = \<lparr>TransactionByteFee = MILLICENTS, TargetBlockFullness = from_percent 25,
     AdjustmentVariable = from_rational 1 100000, MinimumMultiplier = from_rational 1 1000000000\<rparr>"

definition IndexDeposit :: balance where
  "IndexDeposit = 1 * DOLLARS"

record contracts_parameters =
  TombstoneDeposit :: balance
  SurchargeReward :: balance
  SignedClaimHandicap :: u32
  MaxDepth :: u32
  MaxValueSize :: u32
  RentByteFee :: balance
  RentDepositOffset :: balance
  DepositPerContract :: balance
  DepositPerStorageByte :: balance
  DepositPerStorageItem :: balance
  RentFraction :: ratio

definition contracts_params :: contracts_parameters where
  "contracts_params = (let tombstone_deposit = 16 * MILLICENTS in
    \<lparr>TombstoneDeposit = tombstone_deposit, SurchargeReward = 150 * MILLICENTS,
     SignedClaimHandicap = 2, MaxDepth = 32, MaxValueSize = 16 * 1024, RentByteFee = 4 * MILLICENTS,
     RentDepositOffset = 1000 * MILLICENTS, DepositPerContract = tombstone_deposit,
     DepositPerStorageByte = deposit 0 1, DepositPerStorageItem = deposit 1 0,
     RentFraction = from_rational 1 (unat (30 * DAYS))\<rparr>)"

record claims_parameters =
  Prefix :: "u8 list"
  ClaimsModuleId :: "u8 list"

definition claims_params :: claims_parameters where
  "claims_params = \<lparr>Prefix = ascii ''Pay CLVs to the Clover account:'', ClaimsModuleId = ascii ''clvclaim''\<rparr>"

record dex_parameters =
  GetStableCurrencyId :: currency_id
  StableCurrencyFixedPrice :: ratio
  MinimumCount :: u32
  ExpiresIn :: moment
  ZeroAccountId :: account_id

definition dex_params :: dex_parameters where
  "dex_params = \<lparr>GetStableCurrencyId = CUSDT, StableCurrencyFixedPrice = from_rational 1 1,
     MinimumCount = 1, ExpiresIn = 1000 * 60 * 60, ZeroAccountId = zero_array\<rparr>"

section \<open>Origins\<close>

datatype collective = CouncilCollective | TechnicalCollective

datatype origin_rule =
    EnsureRoot
  | EnsureNever
  | EnsureMember collective
  | EnsureProportionMoreThan nat nat collective
  | EnsureProportionAtLeast nat nat collective
  | EnsureOneOf origin_rule origin_rule

definition EnsureRootOrHalfCouncil :: origin_rule where
  "EnsureRootOrHalfCouncil = EnsureOneOf EnsureRoot (EnsureProportionMoreThan 1 2 CouncilCollective)"

record democracy_origins =
  ExternalOrigin :: origin_rule
  ExternalMajorityOrigin :: origin_rule
  ExternalDefaultOrigin :: origin_rule
  FastTrackOrigin :: origin_rule
  InstantOrigin :: origin_rule
  CancellationOrigin :: origin_rule
  CancelProposalOrigin :: origin_rule
  OperationalPreimageOrigin :: origin_rule
  BlacklistOrigin :: origin_rule
  VetoOrigin :: origin_rule

definition democracy_origin_rules :: democracy_origins where
  "democracy_origin_rules =
     \<lparr>ExternalOrigin = EnsureProportionMoreThan 1 2 CouncilCollective,
      ExternalMajorityOrigin = EnsureProportionAtLeast 4 5 CouncilCollective,
      ExternalDefaultOrigin = EnsureProportionAtLeast 1 1 CouncilCollective,
      FastTrackOrigin = EnsureProportionAtLeast 1 1 TechnicalCollective,
      InstantOrigin = EnsureNever,
      CancellationOrigin = EnsureProportionAtLeast 1 1 CouncilCollective,
      CancelProposalOrigin =
        EnsureOneOf EnsureRoot (EnsureProportionAtLeast 1 1 TechnicalCollective),
      OperationalPreimageOrigin = EnsureMember CouncilCollective,
      BlacklistOrigin = EnsureRoot,
      VetoOrigin = EnsureMember TechnicalCollective\<rparr>"

definition SlashCancelOrigin :: origin_rule where
  "SlashCancelOrigin = EnsureOneOf EnsureRoot (EnsureProportionAtLeast 3 4 CouncilCollective)"

record treasury_origins =
  ApproveOrigin :: origin_rule
  RejectOrigin :: origin_rule

definition treasury_origin_rules :: treasury_origins where
  "treasury_origin_rules =
     \<lparr>ApproveOrigin = EnsureProportionMoreThan 1 2 CouncilCollective,
      RejectOrigin = EnsureProportionMoreThan 1 5 CouncilCollective\<rparr>"

section \<open>The EVM\<close>

datatype chain_feature = Clover_mainnet | Clover_testnet

fun CHAIN_ID :: "chain_feature \<Rightarrow> u64" where
  "CHAIN_ID Clover_mainnet = 1024"
| "CHAIN_ID Clover_testnet = 1023"

type_synonym u256 = "256 word"

definition min_gas_price :: u256 where
  "min_gas_price = 50000000000"

definition BlockGasLimit :: u256 where
  "BlockGasLimit = 30000000"

record evm_config =
  gas_ext_code :: u64
  gas_ext_code_hash :: u64
  gas_balance :: u64
  gas_sload :: u64
  gas_sstore_set :: u64
  gas_sstore_reset :: u64
  refund_sstore_clears :: int
  gas_suicide :: u64
  gas_suicide_new_account :: u64
  gas_call :: u64
  gas_expbyte :: u64
  gas_transaction_create :: u64
  gas_transaction_call :: u64
  gas_transaction_zero_data :: u64
  gas_transaction_non_zero_data :: u64
  sstore_gas_metering :: bool
  sstore_revert_under_stipend :: bool
  err_on_call_with_more_gas :: bool
  empty_considered_exists :: bool
  create_increase_nonce :: bool
  call_l64_after_gas :: bool
  stack_limit :: nat
  memory_limit :: nat
  call_stack_limit :: nat
  create_contract_limit :: "nat option"
  call_stipend :: u64
  has_delegate_call :: bool
  has_create2 :: bool
  has_revert :: bool
  has_return_data :: bool
  has_bitwise_shifting :: bool
  has_chain_id :: bool
  has_self_balance :: bool
  has_ext_code_hash :: bool
  estimate :: bool

text \<open>\<open>CloverEvmConfig::config\<close>; the argument is \<open>usize::max_value()\<close> of the platform.\<close>

definition clover_evm_config :: "nat \<Rightarrow> evm_config" where
  "clover_evm_config usize_max =
     \<lparr>gas_ext_code = 700, gas_ext_code_hash = 700, gas_balance = 700, gas_sload = 800,
      gas_sstore_set = 20000, gas_sstore_reset = 5000, refund_sstore_clears = 15000,
      gas_suicide = 5000, gas_suicide_new_account = 25000, gas_call = 700, gas_expbyte = 50,
      gas_transaction_create = 53000, gas_transaction_call = 21000, gas_transaction_zero_data = 4,
      gas_transaction_non_zero_data = 16, sstore_gas_metering = True,
      sstore_revert_under_stipend = True, err_on_call_with_more_gas = False,
      empty_considered_exists = False, create_increase_nonce = True, call_l64_after_gas = True,
      stack_limit = 1024, memory_limit = usize_max, call_stack_limit = 1024,
      create_contract_limit = Some 0xc000, call_stipend = 2300, has_delegate_call = True,
      has_create2 = True, has_revert = True, has_return_data = True, has_bitwise_shifting = True,
      has_chain_id = True, has_self_balance = True, has_ext_code_hash = True, estimate = False\<rparr>"

section \<open>The pallets of the runtime\<close>

datatype pallet_part =
    Module | Call | Config | Storage | Event | Origin | Inherent | ValidateUnsigned

definition construct_runtime :: "(string \<times> pallet_part list) list" where
  "construct_runtime =
     [(''System'', [Module, Call, Config, Storage, Event]),
      (''RandomnessCollectiveFlip'', [Module, Call, Storage]),
      (''Timestamp'', [Module, Call, Storage, Inherent]),
      (''Authorship'', [Module, Call, Storage]),
      (''Babe'', [Module, Call, Storage, Config, Inherent, ValidateUnsigned]),
      (''Grandpa'', [Module, Call, Storage, Config, Event]),
      (''Indices'', [Module, Call, Storage, Config, Event]),
      (''Balances'', [Module, Call, Storage, Config, Event]),
      (''TransactionPayment'', [Module, Storage]),
      (''Staking'', [Module, Call, Config, Storage, Event]),
      (''Session'', [Module, Call, Storage, Event, Config]),
      (''Historical'', [Module]),
      (''Democracy'', [Module, Call, Storage, Config, Event]),
      (''Council'', [Module, Call, Storage, Origin, Event, Config]),
      (''TechnicalCommittee'', [Module, Call, Storage, Origin, Event, Config]),
      (''ElectionsPhragmen'', [Module, Call, Storage, Event, Config]),
      (''TechnicalMembership'', [Module, Call, Storage, Event, Config]),
      (''Treasury'', [Module, Call, Storage, Event, Config]),
      (''Contracts'', [Module, Call, Config, Storage, Event]),
      (''EVM'', [Module, Config, Call, Storage, Event]),
      (''Ethereum'', [Module, Call, Storage, Event, Config, ValidateUnsigned]),
      (''Sudo'', [Module, Call, Config, Storage, Event]),
      (''ImOnline'', [Module, Call, Storage, Event, ValidateUnsigned, Config]),
      (''AuthorityDiscovery'', [Module, Call, Config]),
      (''Offences'', [Module, Call, Storage, Event]),
      (''Scheduler'', [Module, Call, Storage, Event]),
      (''Utility'', [Module, Call, Event]),
      (''Identity'', [Module, Call, Storage, Event]),
      (''Vesting'', [Module, Call, Storage, Event, Config]),
      (''Multisig'', [Module, Call, Storage, Event]),
      (''Bounties'', [Module, Call, Storage, Event]),
      (''Tips'', [Module, Call, Storage, Event]),
      (''EvmAccounts'', [Module, Call, Storage, Event]),
      (''CloverClaims'', [Module, Call, Storage, Event, ValidateUnsigned]),
      (''CloverEvminterop'', [Module, Call, Storage, Event])]"

text \<open>The checks of a signed extrinsic, in order.\<close>

datatype signed_extension =
    CheckSpecVersion | CheckTxVersion | CheckGenesis | CheckEra | CheckNonce | CheckWeight
  | ChargeTransactionPayment

definition SignedExtra :: "signed_extension list" where
  "SignedExtra = [CheckSpecVersion, CheckTxVersion, CheckGenesis, CheckEra, CheckNonce, CheckWeight,
     ChargeTransactionPayment]"

section \<open>Specification functions\<close>

text \<open>
  Documented meaning of the collective's origins, for a motion with some number of
  ayes out of the members of each collective.
\<close>

fun satisfied_by :: "(collective \<Rightarrow> nat) \<Rightarrow> (collective \<Rightarrow> nat) \<Rightarrow> bool \<Rightarrow> origin_rule \<Rightarrow> bool" where
  "satisfied_by ayes members root EnsureRoot = root"
| "satisfied_by ayes members root EnsureNever = False"
| "satisfied_by ayes members root (EnsureMember c) = False"
| "satisfied_by ayes members root (EnsureProportionMoreThan n d c) = (n * members c < ayes c * d)"
| "satisfied_by ayes members root (EnsureProportionAtLeast n d c) = (n * members c \<le> ayes c * d)"
| "satisfied_by ayes members root (EnsureOneOf a b) =
     (satisfied_by ayes members root a \<or> satisfied_by ayes members root b)"

definition accepts_unsigned :: "string list" where
  "accepts_unsigned = map fst (filter (\<lambda>p. ValidateUnsigned \<in> set (snd p)) construct_runtime)"

section \<open>Laws\<close>

lemmas time_defs = SECS_PER_BLOCK_def time_MILLISECS_PER_BLOCK_def time_MINUTES_def time_HOURS_def
  time_DAYS_def time_SLOT_DURATION_def EPOCH_DURATION_IN_BLOCKS_def EPOCH_DURATION_IN_SLOTS_def
  MILLISECS_PER_BLOCK_def SLOT_DURATION_def MINUTES_def HOURS_def DAYS_def

text \<open>The two sets of time constants agree.\<close>

lemma time_constants_agree:
  "MILLISECS_PER_BLOCK = time_MILLISECS_PER_BLOCK" "SLOT_DURATION = time_SLOT_DURATION"
  "MINUTES = time_MINUTES" "HOURS = time_HOURS" "DAYS = time_DAYS"
  by (simp_all add: time_defs)

lemma deposit_exact:
  "unat (deposit items bytes) = unat items * 150000000000000000 + unat bytes * 60000000000000000"
proof -
  let ?i = "ucast items * 15 * CENTS :: balance" and ?b = "ucast bytes * 6 * CENTS :: balance"
  have lt: "unat items < 2 ^ 32" "unat bytes < 2 ^ 32"
    using unsigned_less [of items, where 'a = nat] unsigned_less [of bytes, where 'a = nat] by simp_all
  have cast: "unat (ucast items :: balance) = unat items" "unat (ucast bytes :: balance) = unat bytes"
    using lt by (auto intro!: unat_ucast_fits)
  have cents: "unat CENTS = 10000000000000000" by (simp add: currency_units)
  have i15: "unat (ucast items * 15 :: balance) = unat items * 15"
    using lt(1) cast(1) by (subst unat_mul_fits) simp_all
  have i: "unat ?i = unat items * 15 * 10000000000000000"
    using lt(1) by (subst unat_mul_fits) (simp_all add: i15 cents)
  have b6: "unat (ucast bytes * 6 :: balance) = unat bytes * 6"
    using lt(2) cast(2) by (subst unat_mul_fits) simp_all
  have b: "unat ?b = unat bytes * 6 * 10000000000000000"
    using lt(2) by (subst unat_mul_fits) (simp_all add: b6 cents)
  show ?thesis
    unfolding deposit_def using lt by (subst unat_add_fits) (simp_all add: i b)
qed

section \<open>Properties\<close>

text \<open>
  The staking schedule is what its comments say: a session takes ten minutes
  of blocks, an era is six hours, bonding takes twelve days, slashes wait half the
  bonding duration, and equivocation reports stay valid for exactly the bonding
  duration in slots; the two sets of time constants give the same units.
\<close>

theorem staking_schedule:
  "unat SessionDuration * unat SECS_PER_BLOCK = 10 * 60 \<and>
   EpochDuration babe_params = ucast SessionDuration \<and>
   SessionsPerEra staking_params * SessionDuration = 6 * HOURS \<and>
   BondingDuration staking_params * SessionsPerEra staking_params * SessionDuration = 12 * DAYS \<and>
   2 * SlashDeferDuration staking_params = BondingDuration staking_params \<and>
   ReportLongevity babe_params = ucast (12 * DAYS) \<and>
   HOURS = time_HOURS \<and> DAYS = time_DAYS \<and> 2 * MinimumPeriod = time_SLOT_DURATION"
  by (simp add: SessionDuration_def staking_params_def babe_params_def MinimumPeriod_def time_defs)

text \<open>
  Council motions are ordered by strength: whatever passes the rule for a
  default-carries referendum passes the rule for a majority-carries one, which
  passes the rule for an external proposal; cancelling a slash is enough to approve
  a treasury proposal, and approving one is enough to reject one.
\<close>

theorem council_rules_ordered:
  assumes "0 < members CouncilCollective"
  shows "(satisfied_by ayes members False (ExternalDefaultOrigin democracy_origin_rules) \<longrightarrow>
      satisfied_by ayes members False (ExternalMajorityOrigin democracy_origin_rules)) \<and>
    (satisfied_by ayes members False (ExternalMajorityOrigin democracy_origin_rules) \<longrightarrow>
      satisfied_by ayes members False (ExternalOrigin democracy_origin_rules)) \<and>
    (satisfied_by ayes members False SlashCancelOrigin \<longrightarrow>
      satisfied_by ayes members False (ApproveOrigin treasury_origin_rules)) \<and>
    (satisfied_by ayes members False (ApproveOrigin treasury_origin_rules) \<longrightarrow>
      satisfied_by ayes members False (RejectOrigin treasury_origin_rules))"
  using assms
  by (auto simp: democracy_origin_rules_def treasury_origin_rules_def SlashCancelOrigin_def)

theorem council_rules_ordered_witness:
  "satisfied_by (\<lambda>_. 7) (\<lambda>_. 7) False (ExternalMajorityOrigin democracy_origin_rules)"
proof -
  have "satisfied_by (\<lambda>_. 7) (\<lambda>_. 7) False (ExternalDefaultOrigin democracy_origin_rules)"
    by (simp add: democracy_origin_rules_def)
  with council_rules_ordered [of "\<lambda>_. 7" "\<lambda>_. 7"] show ?thesis by simp
qed

text \<open>
  Two comments do not match the numbers: the deposit per preimage byte, which
  the comment calls one cent and ten thousand dollars a megabyte, is a hundredth of
  a cent and a hundred dollars a megabyte; and the council term, which the comment
  calls daily, is three days.
\<close>

theorem comments_off_by_factor:
  "100 * PreimageByteDeposit democracy_params = CENTS \<and>
   1000000 * PreimageByteDeposit democracy_params = 100 * DOLLARS \<and>
   TermDuration elections_params = 3 * DAYS"
  by (simp add: democracy_params_def elections_params_def currency_units)

text \<open>
  Unsigned transactions are accepted only by consensus, the Ethereum bridge
  and the claims pallet: no other pallet of the runtime validates them, and no
  pallet is listed twice.
\<close>

theorem unsigned_pallets:
  "accepts_unsigned = [''Babe'', ''Ethereum'', ''ImOnline'', ''CloverClaims''] \<and>
   distinct (map fst construct_runtime)"
  by (simp add: accepts_unsigned_def construct_runtime_def)

text \<open>
  The storage deposit never overflows: for every number of items and bytes it
  is fifteen cents an item and six cents a byte.
\<close>

theorem deposit_linear:
  "unat (deposit items bytes) = 15 * unat items * unat CENTS + 6 * unat bytes * unat CENTS"
  by (simp add: deposit_exact currency_units)

end
