(* ===== verification/Runtime_State.thy ===== *)
theory Runtime_State
  imports Bridge_Ledger Evm_Interop Runtime_Config
begin

text \<open>
  The runtime as a whole: the pallets of this repository on one chain state, wired as
  the \<open>Config\<close> implementations of \<^verbatim>\<open>runtime/src/lib.rs\<close> wire them.

  The state nests: the ledger of the claims pallet is the state of the EVM-accounts
  pallet, whose chain is what the balances pallet and the EVM keep. \<open>framework\<close> holds
  what the framework provides: origins, host functions, encodings, and the operations
  of the balances pallet on balances and the system's account storage, which report
  the accounts they remove. For each of those the runtime calls its two
  \<open>OnKilledAccount\<close> hooks, so that a burn, a merge or a transfer reaches the address
  mapping. \<open>runtime_step\<close> is one call to a pallet of the repository, one upgrade, or
  whatever the pallets of the framework do.

  The lemmas discharge for this wiring the laws that the component theories assume of
  their configuration; the properties therefore hold of the runtime without them.
\<close>

section \<open>What the framework provides\<close>

type_synonym 'b bank = "'b \<times> (account_id \<rightharpoonup> tx_index)"

text \<open>An operation of the balances pallet: the new state, the accounts removed, the result.\<close>

type_synonym 'b bank_op = "'b bank \<Rightarrow> ('b bank \<times> account_id list) \<times> (unit, dispatch_error) result"

record ('o, 'b) framework =
  fw_origins :: "('o, account_id) origin_checks"
  fw_crypto :: host_crypto
  fw_module_account :: "u8 list \<Rightarrow> account_id"
  fw_encode_account :: "account_id \<Rightarrow> u8 list"
  fw_encode_tx :: "ethereum_tx_hash \<Rightarrow> u8 list"
  fw_encode_provides :: "string \<Rightarrow> ethereum_address \<Rightarrow> u8 list"
  fw_free :: "'b bank \<Rightarrow> account_id \<Rightarrow> balance"
  fw_reserved :: "'b bank \<Rightarrow> account_id \<Rightarrow> balance"
  fw_issuance :: "'b bank \<Rightarrow> balance"
  fw_deposit :: "account_id \<Rightarrow> balance \<Rightarrow> 'b bank \<Rightarrow> 'b bank"
  fw_withdraw :: "account_id \<Rightarrow> balance \<Rightarrow> withdraw_reasons \<Rightarrow> existence_requirement \<Rightarrow> 'b bank_op"
  fw_transfer :: "account_id \<Rightarrow> account_id \<Rightarrow> balance \<Rightarrow> existence_requirement \<Rightarrow> 'b bank_op"
  fw_transfer_call :: "account_id \<Rightarrow> account_id \<Rightarrow> balance \<Rightarrow> 'b bank_op"
  fw_unreserve :: "account_id \<Rightarrow> balance \<Rightarrow> 'b bank \<Rightarrow> 'b bank"
  fw_consumer_killed :: "account_id \<Rightarrow> 'b bank_op"
  fw_evm_killed :: "account_id \<Rightarrow> 'b evm_accounts_state \<Rightarrow> 'b"

section \<open>The wiring\<close>

definition bank_of :: "'b evm_accounts_state \<Rightarrow> 'b bank" where
  "bank_of s = (chain s, system_nonces s)"

definition set_bank :: "'b bank \<Rightarrow> 'b evm_accounts_state \<Rightarrow> 'b evm_accounts_state" where
  "set_bank b s = s\<lparr>chain := fst b, system_nonces := snd b\<rparr>"

text \<open>The tuple of hooks, in its order: the EVM pallet still sees the mapping.\<close>

definition OnKilledAccount :: "('o, 'b) framework \<Rightarrow> account_id \<Rightarrow> 'b evm_accounts_state \<Rightarrow> 'b evm_accounts_state" where
  "OnKilledAccount F who s = CallKillAccount who (s\<lparr>chain := fw_evm_killed F who s\<rparr>)"

definition bank_call :: "('o, 'b) framework \<Rightarrow> 'b bank_op \<Rightarrow> ('b evm_accounts_state, unit, dispatch_error) comp" where
  "bank_call F p s =
     (case p (bank_of s) of ((b, killed), r) \<Rightarrow> (fold (OnKilledAccount F) killed (set_bank b s), r))"

definition runtime_balances :: "('o, 'b) framework \<Rightarrow> (account_id, 'b evm_accounts_state) balances" where
  "runtime_balances F =
     \<lparr>b_free = (\<lambda>s. fw_free F (bank_of s)), b_reserved = (\<lambda>s. fw_reserved F (bank_of s)),
      b_unreserve = (\<lambda>a v s. set_bank (fw_unreserve F a v (bank_of s)) s),
      b_transfer = (\<lambda>a b v. bank_call F (fw_transfer_call F a b v))\<rparr>"

definition runtime_currency :: "('o, 'b) framework \<Rightarrow> (account_id, 'b evm_accounts_state) currency" where
  "runtime_currency F =
     \<lparr>free_balance = (\<lambda>s. fw_free F (bank_of s)), total_issuance = (\<lambda>s. fw_issuance F (bank_of s)),
      minimum_balance = ExistentialDeposit,
      deposit_creating = (\<lambda>a v s. set_bank (fw_deposit F a v (bank_of s)) s),
      withdraw = (\<lambda>a v rs k. bank_call F (fw_withdraw F a v rs k)),
      transfer = (\<lambda>a b v k. bank_call F (fw_transfer F a b v k))\<rparr>"

definition runtime_evm_accounts :: "('o, 'b) framework \<Rightarrow> ('o, 'b) evm_accounts_config" where
  "runtime_evm_accounts F =
     \<lparr>ea_origins = fw_origins F, ea_crypto = fw_crypto F, ea_encode_account = fw_encode_account F,
      ea_into_account_id = into_account_id,
      ea_merge_account = merge_account_evm (runtime_balances F),
      ea_killed = (\<lambda>a. bank_call F (fw_consumer_killed F a))\<rparr>"

definition runtime_claims ::
  "('o, 'b) framework \<Rightarrow> ('o, account_id, 'b evm_accounts_state) claims_config" where
  "runtime_claims F =
     \<lparr>c_origins = fw_origins F, c_currency = runtime_currency F, c_crypto = fw_crypto F,
      c_module_account = fw_module_account F (ClaimsModuleId claims_params),
      c_prefix = Prefix claims_params, c_encode_account = fw_encode_account F,
      c_encode_tx = fw_encode_tx F, c_encode_provides = fw_encode_provides F\<rparr>"

definition runtime_interop ::
  "('o, 'b) framework \<Rightarrow> ('o, 'b evm_accounts_state, account_id) interop_config" where
  "runtime_interop F =
     \<lparr>io_origins = fw_origins F, io_into_account_id = into_account_id,
      io_transfer = transfer (runtime_currency F)\<rparr>"

section \<open>The runtime as a state machine\<close>

type_synonym 'b runtime_state = "(account_id, 'b evm_accounts_state) claims_state"

datatype runtime_call =
    CloverClaims "account_id claims_call"
  | EvmAccounts evm_address "65 bytes"
  | CloverEvminterop evm_address balance

definition on_accounts ::
  "('b evm_accounts_state, unit, dispatch_error) comp \<Rightarrow> ('b runtime_state, unit, dispatch_error) comp" where
  "on_accounts m = zoom ledger (\<lambda>l s. s\<lparr>ledger := l\<rparr>) m"

fun runtime_dispatch ::
  "('o, 'b) framework \<Rightarrow> 'o \<Rightarrow> runtime_call \<Rightarrow> ('b runtime_state, unit, dispatch_error) comp" where
  "runtime_dispatch F orig (CloverClaims c) = claims_dispatch (runtime_claims F) orig c"
| "runtime_dispatch F orig (EvmAccounts eth sig) =
     on_accounts (claim_account (runtime_evm_accounts F) orig eth sig)"
| "runtime_dispatch F orig (CloverEvminterop to amount) =
     on_accounts (transfer_to_evm (runtime_interop F) orig to amount)"

text \<open>\<open>Framework\<close> is any call to another pallet: it changes balances and removes accounts.\<close>

datatype ('o, 'b) runtime_label =
    Call 'o runtime_call
  | Upgrade
  | Framework "'b bank_op"

fun runtime_step ::
  "('o, 'b) framework \<Rightarrow> ('o, 'b) runtime_label \<Rightarrow> 'b runtime_state \<Rightarrow> 'b runtime_state" where
  "runtime_step F (Call orig c) s = fst (runtime_dispatch F orig c s)"
| "runtime_step F Upgrade s = fst (on_runtime_upgrade s)"
| "runtime_step F (Framework p) s = fst (on_accounts (bank_call F p) s)"

definition runtime_genesis :: "'b bank \<Rightarrow> 'b runtime_state" where
  "runtime_genesis b = claims_genesis (evm_accounts_genesis (snd b) (fst b))"

section \<open>Specification functions\<close>

text \<open>Every mapping was claimed, with the event to show for it.\<close>

definition mapping_claimed :: "'b evm_accounts_state \<Rightarrow> bool" where
  "mapping_claimed s \<longleftrightarrow> {(a, e). EvmAddresses s a = Some e} \<subseteq> set (claim_events s)"

text \<open>What holds between the components in every state of the chain.\<close>

definition runtime_consistent :: "'b runtime_state \<Rightarrow> bool" where
  "runtime_consistent s \<longleftrightarrow>
     claims_balanced s \<and> two_way (ledger s) \<and> mapping_claimed (ledger s)"

text \<open>A change of the chain that removes mappings and does nothing else to the accounts pallet.\<close>

definition unmaps :: "'b evm_accounts_state \<Rightarrow> 'b evm_accounts_state \<Rightarrow> bool" where
  "unmaps s t \<longleftrightarrow>
     (\<exists>ks. Accounts t = Accounts (fold on_killed_account ks s) \<and>
        EvmAddresses t = EvmAddresses (fold on_killed_account ks s) \<and>
        claim_events t = claim_events s)"

section \<open>The hooks\<close>

lemma set_bank_simps [simp]:
  "Accounts (set_bank b s) = Accounts s" "EvmAddresses (set_bank b s) = EvmAddresses s"
  "claim_events (set_bank b s) = claim_events s" "bank_of (set_bank b s) = b"
  by (simp_all add: set_bank_def bank_of_def)

lemma kills_same_maps:
  assumes "Accounts s = Accounts t" and "EvmAddresses s = EvmAddresses t"
  shows "Accounts (fold on_killed_account ks s) = Accounts (fold on_killed_account ks t) \<and>
    EvmAddresses (fold on_killed_account ks s) = EvmAddresses (fold on_killed_account ks t)"
  using assms
proof (induction ks arbitrary: s t)
  case (Cons k ks)
  have "Accounts (on_killed_account k s) = Accounts (on_killed_account k t)"
    "EvmAddresses (on_killed_account k s) = EvmAddresses (on_killed_account k t)"
    using Cons.prems by (simp_all add: on_killed_account_def split: option.splits)
  from Cons.IH [OF this] show ?case by simp
qed simp

lemma unmaps_refl: "unmaps s s"
  unfolding unmaps_def by (rule exI [of _ "[]"]) simp

lemma unmaps_same:
  "Accounts t = Accounts s \<Longrightarrow> EvmAddresses t = EvmAddresses s \<Longrightarrow> claim_events t = claim_events s \<Longrightarrow>
     unmaps s t"
  unfolding unmaps_def by (rule exI [of _ "[]"]) simp

lemma unmaps_trans:
  assumes "unmaps s t" and "unmaps t u"
  shows "unmaps s u"
proof -
  from assms obtain ks js where
    "Accounts t = Accounts (fold on_killed_account ks s)"
    "EvmAddresses t = EvmAddresses (fold on_killed_account ks s)"
    "Accounts u = Accounts (fold on_killed_account js t)"
    "EvmAddresses u = EvmAddresses (fold on_killed_account js t)"
    "claim_events u = claim_events s" unfolding unmaps_def by auto
  moreover from this kills_same_maps [of t "fold on_killed_account ks s" js]
  have "Accounts u = Accounts (fold on_killed_account (ks @ js) s) \<and>
      EvmAddresses u = EvmAddresses (fold on_killed_account (ks @ js) s)" by simp
  ultimately show ?thesis unfolding unmaps_def by blast
qed

lemma unmaps_bank [simp]: "unmaps s (set_bank b s)"
  by (rule unmaps_same) simp_all

lemma unmaps_hook: "unmaps s (OnKilledAccount F k s)"
  unfolding unmaps_def
  by (rule exI [of _ "[k]"]) (simp add: OnKilledAccount_def on_killed_account_def split: option.splits)

lemma unmaps_hooks: "unmaps s (fold (OnKilledAccount F) ks s)"
proof (induction ks arbitrary: s)
  case (Cons k ks)
  from unmaps_trans [OF unmaps_hook Cons] show ?case by simp
qed (simp add: unmaps_refl)

lemma unmaps_bank_call: "bank_call F p s = (t, r) \<Longrightarrow> unmaps s t"
  by (auto simp: bank_call_def split: prod.splits intro: unmaps_trans [OF unmaps_bank unmaps_hooks])

lemma unmaps_merge: "merge_account_evm (runtime_balances F) a b s = (t, r) \<Longrightarrow> unmaps s t"
  by (cases r) (auto simp: merge_account_evm_def runtime_balances_def unmaps_refl
      intro: unmaps_trans [OF unmaps_bank unmaps_bank_call])

lemma unmaps_law: "(\<And>s t r. m s = (t, r) \<Longrightarrow> unmaps s t) \<Longrightarrow> changes_maps_by_kills m"
  unfolding changes_maps_by_kills_def unmaps_def by (metis surjective_pairing)

text \<open>The laws the accounts pallet assumes of merging and killing hold of the runtime's.\<close>

lemma runtime_kills:
  "changes_maps_by_kills (ea_merge_account (runtime_evm_accounts F) src dst)"
  "changes_maps_by_kills (ea_killed (runtime_evm_accounts F) a)"
  by (simp_all add: runtime_evm_accounts_def unmaps_law unmaps_merge unmaps_bank_call)

lemma runtime_origins [simp]: "ea_origins (runtime_evm_accounts F) = fw_origins F"
  by (simp add: runtime_evm_accounts_def)

lemma unmaps_keeps:
  assumes "unmaps s t"
  shows "two_way s \<Longrightarrow> two_way t" and "Accounts t \<subseteq>\<^sub>m Accounts s" and "EvmAddresses t \<subseteq>\<^sub>m EvmAddresses s"
    and "mapping_claimed s \<Longrightarrow> mapping_claimed t"
proof -
  from assms obtain ks where t: "Accounts t = Accounts (fold on_killed_account ks s)"
    "EvmAddresses t = EvmAddresses (fold on_killed_account ks s)" "claim_events t = claim_events s"
    unfolding unmaps_def by auto
  show "two_way s \<Longrightarrow> two_way t" using two_way_kills [of s ks] t by (simp add: two_way_def)
  show "Accounts t \<subseteq>\<^sub>m Accounts s" using kills_shrink [of ks s] t by simp
  show le: "EvmAddresses t \<subseteq>\<^sub>m EvmAddresses s" using kills_shrink [of ks s] t by simp
  show "mapping_claimed s \<Longrightarrow> mapping_claimed t"
    using le t(3) by (fastforce simp: mapping_claimed_def map_le_def dom_def)
qed

section \<open>Calls of the repository's pallets\<close>

lemma claims_unmaps:
  assumes "claims_dispatch (runtime_claims F) orig c s = (t, Ok ())"
  shows "unmaps (ledger s) (ledger t)"
proof (cases c)
  case (Burn_elastic n dest v)
  with assms show ?thesis
    by (auto simp: claims_call_defs do_burn_Ok runtime_claims_def runtime_currency_def
        intro: unmaps_bank_call unmaps_trans [OF unmaps_bank_call unmaps_bank])
next
  case Claim_elastic
  with assms show ?thesis
    by (auto simp: claims_call_defs do_claim_Ok runtime_claims_def runtime_currency_def)
next
  case Mint_claim_elastic
  with assms show ?thesis
    by (auto simp: claims_call_defs do_mint_claim_Ok runtime_claims_def runtime_currency_def unmaps_refl)
qed (use assms in \<open>auto simp: claims_call_defs unmaps_refl\<close>)

lemma upgrade_ledger [simp]: "ledger (fst (on_runtime_upgrade s)) = ledger s"
proof -
  have "ledger (fold migrate_claim kvs s) = ledger s" for kvs
    by (induction kvs arbitrary: s) (auto simp: migrate_claim_def insert_claim_def split: option.splits)
  then show ?thesis
    by (simp add: on_runtime_upgrade_def Let_def migrate_limit_def migrate_bridge_account_def
        migrate_fees_def split: option.splits)
qed

lemma transfer_unmaps: "transfer_to_evm (runtime_interop F) orig e v s = (t, r) \<Longrightarrow> unmaps s t"
  by (cases r) (auto simp: transfer_to_evm_def runtime_interop_def runtime_currency_def unmaps_refl
      intro: unmaps_bank_call)

lemma on_accounts_eq [simp]:
  "on_accounts m s = (t, r) \<longleftrightarrow> (\<exists>l. m (ledger s) = (l, r) \<and> t = s\<lparr>ledger := l\<rparr>)"
  by (auto simp: on_accounts_def)

lemma merge_padded_unmaps:
  assumes "merge_padded (runtime_evm_accounts F) who eth s = (t, Ok n)"
  shows "unmaps s t"
proof (cases "system_nonces s (into_account_id s eth) = None")
  case True
  with assms show ?thesis by (simp add: merge_padded_Ok Let_def runtime_evm_accounts_def unmaps_refl)
next
  case False
  with assms obtain u where m: "merge_account_evm (runtime_balances F) (into_account_id s eth) who s = (u, Ok ())"
    and t: "t = fst (bank_call F (fw_consumer_killed F (into_account_id s eth)) u)"
    by (auto simp: merge_padded_Ok Let_def runtime_evm_accounts_def)
  have "unmaps u t" unfolding t by (rule unmaps_bank_call) (rule surjective_pairing)
  with unmaps_merge [OF m] show ?thesis by (rule unmaps_trans)
qed

lemma claim_account_claimed:
  assumes "claim_account (runtime_evm_accounts F) orig eth sig s = (t, Ok ())" and "mapping_claimed s"
  shows "mapping_claimed t"
proof -
  obtain who u n where "EvmAddresses s who = None" and m: "merge_padded (runtime_evm_accounts F) who eth s = (u, Ok n)"
    and t: "t = (store_mapping who eth (raise_nonce who n u))\<lparr>claim_events := claim_events u @ [(who, eth)]\<rparr>"
    using assms(1) unfolding claim_account_Ok by blast
  note u = unmaps_keeps [OF merge_padded_unmaps [OF m]]
  have "EvmAddresses u who = None"
    using u(3) \<open>EvmAddresses s who = None\<close> by (metis domIff map_le_def)
  with u(4) [OF assms(2)] show ?thesis
    by (auto simp: t mapping_claimed_def store_mapping_fresh subset_iff split: if_splits)
qed

lemma on_accounts_step: "fst (on_accounts m s) = s\<lparr>ledger := fst (m (ledger s))\<rparr>"
  by (cases "m (ledger s)") (simp add: on_accounts_def zoom_def)

lemma runtime_claim_maps:
  assumes "claim_account (runtime_evm_accounts F) orig eth sig s = (t, Ok ())"
    and "ensure_signed (fw_origins F) orig = Ok who"
  shows "EvmAddresses t who = Some eth \<and> Accounts t eth = Some who"
  by (rule claim_account_maps [OF runtime_kills assms(1)]) (use assms(2) in simp)

lemma claims_balanced_ledger [simp]: "claims_balanced (s\<lparr>ledger := l\<rparr>) = claims_balanced s"
  by (simp add: claims_balanced_def minted_def paid_def)

lemma consistent_accounts:
  "runtime_consistent s \<Longrightarrow> two_way l \<Longrightarrow> mapping_claimed l \<Longrightarrow> runtime_consistent (s\<lparr>ledger := l\<rparr>)"
  by (simp add: runtime_consistent_def)

lemma consistent_unmaps:
  "runtime_consistent s \<Longrightarrow> unmaps (ledger s) l \<Longrightarrow> runtime_consistent (s\<lparr>ledger := l\<rparr>)"
  by (auto simp: runtime_consistent_def dest: unmaps_keeps)

lemma consistent_dispatch:
  assumes "runtime_dispatch F orig c s = (t, Ok ())" and "runtime_consistent s"
  shows "runtime_consistent t"
proof (cases c)
  case (CloverClaims c')
  with assms(1) have d: "claims_dispatch (runtime_claims F) orig c' s = (t, Ok ())" by simp
  from assms(2) balanced_dispatch [OF _ d] unmaps_keeps [OF claims_unmaps [OF d]] show ?thesis
    by (simp add: runtime_consistent_def)
next
  case (EvmAccounts eth sig)
  with assms(1) obtain l where l: "claim_account (runtime_evm_accounts F) orig eth sig (ledger s) = (l, Ok ())"
    and t: "t = s\<lparr>ledger := l\<rparr>" by auto
  from assms(2) two_way_claim [OF runtime_kills l] claim_account_claimed [OF l] show ?thesis
    by (simp add: t runtime_consistent_def)
next
  case (CloverEvminterop to v)
  with assms show ?thesis by (auto intro: consistent_unmaps transfer_unmaps)
qed

lemma runtime_dispatch_Err: "runtime_dispatch F orig c s = (t, Err e) \<Longrightarrow> t = s"
  by (cases c) (auto dest: claims_dispatch_Err claim_account_Err simp: transfer_to_evm_def)

lemma runtime_call_cases:
  assumes "\<And>t. runtime_dispatch F orig c s = (t, Ok ()) \<Longrightarrow> P t" and "P s"
  shows "P (runtime_step F (Call orig c) s)"
proof (cases "runtime_dispatch F orig c s")
  case (Pair t r)
  then show ?thesis using assms by (cases r) (auto dest: runtime_dispatch_Err)
qed

lemma framework_step:
  obtains l where "unmaps (ledger s) l" and "runtime_step F (Framework p) s = s\<lparr>ledger := l\<rparr>"
proof -
  obtain l r where l: "bank_call F p (ledger s) = (l, r)" by fastforce
  then have "on_accounts (bank_call F p) s = (s\<lparr>ledger := l\<rparr>, r)" by simp
  with that [OF unmaps_bank_call [OF l]] show ?thesis by simp
qed

interpretation chain_state: step_invariant "runtime_step F" runtime_consistent for F
proof
  fix l and s :: "'b runtime_state"
  assume s: "runtime_consistent s"
  show "runtime_consistent (runtime_step F l s)"
  proof (cases l)
    case (Call orig c)
    show ?thesis unfolding Call by (rule runtime_call_cases) (auto intro: consistent_dispatch s)
  next
    case Upgrade
    with s show ?thesis by (simp add: runtime_consistent_def balanced_upgrade)
  next
    case (Framework p)
    show ?thesis unfolding Framework by (rule framework_step [of s F p])
      (simp add: consistent_unmaps s del: runtime_step.simps)
  qed
qed

lemma consistent_genesis: "runtime_consistent (runtime_genesis b)"
  by (simp add: runtime_consistent_def runtime_genesis_def claims_balanced_genesis two_way_def
      mapping_claimed_def evm_accounts_genesis_def) (simp add: claims_genesis_def)

lemma reachable_consistent: "runtime_consistent (run (runtime_step F) ls (runtime_genesis b))"
  by (rule chain_state.run_keeps [OF consistent_genesis])

lemma reachable_owner:
  assumes "EvmAddresses (ledger (run (runtime_step F) ls (runtime_genesis b))) who = Some eth"
  shows "into_account_id (ledger (run (runtime_step F) ls (runtime_genesis b))) eth = who"
proof -
  have "Accounts (ledger (run (runtime_step F) ls (runtime_genesis b))) eth = Some who"
    using reachable_consistent [of F ls b] assms by (simp add: runtime_consistent_def two_way_def)
  then show ?thesis by (simp add: into_account_id_def)
qed

section \<open>The abstract chain\<close>

text \<open>
  What the chain promises about bridge and addresses together: the abstract bridge of
  \<open>Bridge_Ledger\<close>, and the address book with its inverse. Bridge events move the bridge
  and leave the book alone. Binding needs an account and an address that are both free
  and the consent of the address; accounts may be removed on the way, since claiming an
  address merges accounts. Otherwise entries are only removed.
\<close>

record abstract_chain =
  bridge_part :: bridge
  address_book :: "account_id \<rightharpoonup> evm_address"
  owners :: "evm_address \<rightharpoonup> account_id"

datatype chain_event = BridgeEvent bridge_event | BindEvent account_id evm_address | PruneEvent

inductive chain_step ::
  "(account_id \<Rightarrow> evm_address \<Rightarrow> bool) \<Rightarrow> chain_event \<Rightarrow> abstract_chain \<Rightarrow> abstract_chain \<Rightarrow> bool" for consents where
  Bridge: "bridge_step e (bridge_part c) b \<Longrightarrow> chain_step consents (BridgeEvent e) c (c\<lparr>bridge_part := b\<rparr>)"
| Bind: "address_book c a = None \<Longrightarrow> owners c e = None \<Longrightarrow> consents a e \<Longrightarrow>
    entries \<subseteq>\<^sub>m address_book c \<Longrightarrow> own \<subseteq>\<^sub>m owners c \<Longrightarrow>
    chain_step consents (BindEvent a e) c (c\<lparr>address_book := entries(a \<mapsto> e), owners := own(e \<mapsto> a)\<rparr>)"
| Prune: "entries \<subseteq>\<^sub>m address_book c \<Longrightarrow> own \<subseteq>\<^sub>m owners c \<Longrightarrow>
    chain_step consents PruneEvent c (c\<lparr>address_book := entries, owners := own\<rparr>)"

inductive_cases chain_stepE: "chain_step consents e c c'"

definition chain_view :: "'b runtime_state \<Rightarrow> abstract_chain" where
  "chain_view s =
     \<lparr>bridge_part = bridge_view s, address_book = EvmAddresses (ledger s), owners = Accounts (ledger s)\<rparr>"

text \<open>An address consents to an account by a signature of the account's encoding.\<close>

definition address_consents :: "('o, 'b) framework \<Rightarrow> account_id \<Rightarrow> evm_address \<Rightarrow> bool" where
  "address_consents F who eth \<longleftrightarrow>
     (\<exists>sig. evm_eth_recover (ea_crypto (runtime_evm_accounts F)) sig
        (evm_to_ascii_hex (ea_encode_account (runtime_evm_accounts F) who)) [] = Some eth)"

text \<open>What a step of the chain is meant to be.\<close>

fun runtime_call_event ::
  "('o, 'b) framework \<Rightarrow> 'o \<Rightarrow> runtime_call \<Rightarrow> 'b runtime_state \<Rightarrow> chain_event option" where
  "runtime_call_event F orig (CloverClaims c) s =
     Some (case call_event c s of Some e \<Rightarrow> BridgeEvent e | None \<Rightarrow> PruneEvent)"
| "runtime_call_event F orig (EvmAccounts eth sig) s =
     (case ensure_signed (fw_origins F) orig of Ok who \<Rightarrow> Some (BindEvent who eth) | Err _ \<Rightarrow> None)"
| "runtime_call_event F orig (CloverEvminterop to v) s = Some PruneEvent"

fun runtime_event_of ::
  "('o, 'b) framework \<Rightarrow> ('o, 'b) runtime_label \<Rightarrow> 'b runtime_state \<Rightarrow> chain_event option" where
  "runtime_event_of F (Call orig c) s =
     (case snd (runtime_dispatch F orig c s) of Ok _ \<Rightarrow> runtime_call_event F orig c s | Err _ \<Rightarrow> None)"
| "runtime_event_of F Upgrade s = (if 2 \<le> pallet_storage_version s then None else Some (BridgeEvent ImportEvent))"
| "runtime_event_of F (Framework p) s = Some PruneEvent"

text \<open>Every entry of the book was there or was bound.\<close>

lemma chain_step_binds:
  assumes "chain_step consents ev c c'" and "address_book c' a = Some e"
  shows "address_book c a = Some e \<or> ev = BindEvent a e"
proof -
  have "m k = Some v" if "n \<subseteq>\<^sub>m m" "n k = Some v" for n m :: "account_id \<rightharpoonup> evm_address" and k v
    using that by (metis domI map_le_def)
  with assms show ?thesis by (elim chain_stepE) (auto split: if_splits)
qed

lemma bound_by_event:
  "executes (chain_step consents) es c c' \<Longrightarrow>
     {(a, e). address_book c' a = Some e} \<subseteq> {(a, e). address_book c a = Some e} \<union> {(a, e). BindEvent a e \<in> set es}"
proof (induction rule: executes.induct)
  case (executes_Cons ev b b' es c)
  from executes_Cons.IH chain_step_binds [OF executes_Cons.hyps(1)] show ?case by fastforce
qed simp

lemma bridge_view_ledger [simp]: "bridge_view (s\<lparr>ledger := l\<rparr>) = bridge_view s"
  by (rule bridge_view_cong) (simp_all add: same_old_def pallet_storage_version_def)

text \<open>The claims that the bridge counts leave the mapping alone; a burn may remove accounts.\<close>

lemma bridge_event_keeps_maps:
  assumes "claims_dispatch (runtime_claims F) orig c s = (t, Ok ())" and "call_event c s = Some e"
  shows "EvmAddresses (ledger t) = EvmAddresses (ledger s) \<and> Accounts (ledger t) = Accounts (ledger s)"
  using assms by (cases c) (auto simp: claims_call_defs do_mint_claim_Ok do_claim_Ok runtime_claims_def runtime_currency_def)

lemma prune_simulated:
  assumes "unmaps (ledger s) (ledger t)" and "bridge_view t = bridge_view s"
  shows "chain_step consents PruneEvent (chain_view s) (chain_view t)"
proof -
  have "chain_view t = (chain_view s)\<lparr>address_book := EvmAddresses (ledger t), owners := Accounts (ledger t)\<rparr>"
    using assms(2) by (simp add: chain_view_def)
  moreover have "chain_step consents PruneEvent (chain_view s)
      ((chain_view s)\<lparr>address_book := EvmAddresses (ledger t), owners := Accounts (ledger t)\<rparr>)"
    using unmaps_keeps(2,3) [OF assms(1)] by (intro chain_step.Prune) (simp_all add: chain_view_def)
  ultimately show ?thesis by simp
qed

lemma bridge_simulated:
  assumes "bridge_step e (bridge_view s) (bridge_view t)"
    and "EvmAddresses (ledger t) = EvmAddresses (ledger s) \<and> Accounts (ledger t) = Accounts (ledger s)"
  shows "chain_step consents (BridgeEvent e) (chain_view s) (chain_view t)"
proof -
  have "chain_view t = (chain_view s)\<lparr>bridge_part := bridge_view t\<rparr>" using assms(2) by (simp add: chain_view_def)
  moreover have "bridge_step e (bridge_part (chain_view s)) (bridge_view t)" using assms(1) by (simp add: chain_view_def)
  ultimately show ?thesis by (metis chain_step.Bridge)
qed

lemma bind_simulated:
  assumes "claim_account (runtime_evm_accounts F) orig eth sig (ledger s) = (l, Ok ())"
    and "ensure_signed (fw_origins F) orig = Ok who" and "t = s\<lparr>ledger := l\<rparr>"
  shows "chain_step (address_consents F) (BindEvent who eth) (chain_view s) (chain_view t)"
proof -
  let ?c = "chain_view s"
  obtain u n where free: "EvmAddresses (ledger s) who = None" "Accounts (ledger s) eth = None"
    and sig: "evm_eth_recover (ea_crypto (runtime_evm_accounts F)) sig
      (evm_to_ascii_hex (ea_encode_account (runtime_evm_accounts F) who)) [] = Some eth"
    and m: "merge_padded (runtime_evm_accounts F) who eth (ledger s) = (u, Ok n)"
    and l: "l = (store_mapping who eth (raise_nonce who n u))\<lparr>claim_events := claim_events u @ [(who, eth)]\<rparr>"
    using assms(1,2) unfolding claim_account_Ok by auto
  note u = unmaps_keeps(2,3) [OF merge_padded_unmaps [OF m]]
  have "EvmAddresses u who = None" using u(2) free(1) by (metis domIff map_le_def)
  then have "chain_view t = ?c\<lparr>address_book := (EvmAddresses u)(who \<mapsto> eth), owners := (Accounts u)(eth \<mapsto> who)\<rparr>"
    by (simp add: chain_view_def assms(3) l store_mapping_fresh)
  moreover have "chain_step (address_consents F) (BindEvent who eth) ?c
      (?c\<lparr>address_book := (EvmAddresses u)(who \<mapsto> eth), owners := (Accounts u)(eth \<mapsto> who)\<rparr>)"
    using free sig u by (intro chain_step.Bind) (auto simp: chain_view_def address_consents_def)
  ultimately show ?thesis by simp
qed

lemma runtime_call_simulated:
  assumes "runtime_dispatch F orig c s = (t, Ok ())" and "runtime_call_event F orig c s = Some e"
  shows "chain_step (address_consents F) e (chain_view s) (chain_view t)"
proof (cases c)
  case (CloverClaims c')
  with assms(1) have d: "claims_dispatch (runtime_claims F) orig c' s = (t, Ok ())" by simp
  show ?thesis
  proof (cases "call_event c' s")
    case None
    with dispatch_simulated [OF d] claims_unmaps [OF d] assms(2) CloverClaims show ?thesis
      by (auto intro: prune_simulated)
  next
    case (Some b)
    with dispatch_simulated [OF d] bridge_event_keeps_maps [OF d Some] assms(2) CloverClaims show ?thesis
      by (auto intro: bridge_simulated)
  qed
next
  case (EvmAccounts eth sig)
  with assms show ?thesis by (auto intro: bind_simulated split: result.splits)
next
  case (CloverEvminterop to v)
  with assms show ?thesis by (auto intro!: prune_simulated intro: transfer_unmaps)
qed

lemma unsigned_binds_nothing:
  assumes "runtime_dispatch F orig c s = (t, Ok ())"
  shows "runtime_call_event F orig c s \<noteq> None"
proof (cases c)
  case (EvmAccounts eth sig)
  with assms obtain l where "claim_account (runtime_evm_accounts F) orig eth sig (ledger s) = (l, Ok ())" by auto
  then obtain who where "ensure_signed (fw_origins F) orig = Ok who" unfolding claim_account_Ok by auto
  with EvmAccounts show ?thesis by simp
qed simp_all

interpretation runtime_sim: step_simulation "runtime_step F" "runtime_event_of F" chain_view
  "chain_step (address_consents F)" for F
proof
  fix l e and s :: "'b runtime_state"
  show "chain_step (address_consents F) e (chain_view s) (chain_view (runtime_step F l s))"
    if "runtime_event_of F l s = Some e"
  proof (cases l)
    case (Call orig c)
    obtain t r where d: "runtime_dispatch F orig c s = (t, r)" by force
    with that Call have "r = Ok ()" "runtime_call_event F orig c s = Some e" by (auto split: result.splits)
    with d runtime_call_simulated Call show ?thesis by simp
  next
    case Upgrade
    with that have "\<not> 2 \<le> pallet_storage_version s" "e = BridgeEvent ImportEvent" by (auto split: if_splits)
    with bridge_simulated [OF upgrade_simulated] Upgrade show ?thesis by simp
  next
    case (Framework p)
    obtain k where k: "unmaps (ledger s) k" "runtime_step F (Framework p) s = s\<lparr>ledger := k\<rparr>" by (rule framework_step)
    then have "chain_step (address_consents F) PruneEvent (chain_view s) (chain_view (s\<lparr>ledger := k\<rparr>))"
      by (intro prune_simulated) simp_all
    with that k Framework show ?thesis by (simp del: runtime_step.simps)
  qed
  show "chain_view (runtime_step F l s) = chain_view s" if "runtime_event_of F l s = None"
  proof (cases l)
    case (Call orig c)
    obtain t r where d: "runtime_dispatch F orig c s = (t, r)" by force
    with that Call unsigned_binds_nothing [of F orig c s t] show ?thesis
      by (cases r) (auto dest: runtime_dispatch_Err)
  next
    case Upgrade
    with that show ?thesis by (simp add: on_runtime_upgrade_def split: if_splits)
  next
    case (Framework p)
    with that show ?thesis by simp
  qed
qed

section \<open>A framework for witnesses\<close>

definition demo_bank_op :: "('b, unit, dispatch_error) comp \<Rightarrow> 'b bank_op" where
  "demo_bank_op m b = (case m (fst b) of (l, r) \<Rightarrow> (((l, snd b), []), r))"

definition demo_framework :: "(account_id raw_origin, account_id book) framework" where
  "demo_framework =
     \<lparr>fw_origins = raw_origins, fw_crypto = null_crypto, fw_module_account = (\<lambda>_. zero_array),
      fw_encode_account = bytes_list,
      fw_encode_tx = (\<lambda>tx. case tx of EthereumTxHash h \<Rightarrow> bytes_list h),
      fw_encode_provides = (\<lambda>tag a. ascii tag),
      fw_free = (\<lambda>b. fst (fst b)), fw_reserved = (\<lambda>_ _. 0), fw_issuance = (\<lambda>b. snd (fst b)),
      fw_deposit = (\<lambda>a v b. (book_deposit a v (fst b), snd b)),
      fw_withdraw = (\<lambda>a v rs k. demo_bank_op (book_withdraw a v rs k)),
      fw_transfer = (\<lambda>a b v k. demo_bank_op (book_transfer a b v k)),
      fw_transfer_call = (\<lambda>a b v. demo_bank_op (book_transfer a b v AllowDeath)),
      fw_unreserve = (\<lambda>a v b. b),
      fw_consumer_killed = (\<lambda>a. demo_bank_op (ok ())),
      fw_evm_killed = (\<lambda>a s. chain s)\<rparr>"

definition demo_start :: "account_id book runtime_state" where
  "demo_start = runtime_genesis (((\<lambda>_. 100), 1000), Map.empty)"

definition demo_mapped :: "account_id book runtime_state" where
  "demo_mapped = runtime_step demo_framework (Call (SignedBy demo_who) (EvmAccounts zero_array zero_array)) demo_start"

lemma demo_framework_simps [simp]:
  "fw_origins demo_framework = raw_origins" "fw_crypto demo_framework = null_crypto"
  "fw_transfer demo_framework = (\<lambda>a b v k. demo_bank_op (book_transfer a b v k))"
  by (simp_all add: demo_framework_def)

lemma demo_map_Ok:
  "runtime_dispatch demo_framework (SignedBy demo_who) (EvmAccounts zero_array zero_array) demo_start =
     (demo_mapped, Ok ())"
  "EvmAddresses (ledger demo_mapped) demo_who = Some zero_array"
  "chain (ledger demo_mapped) = ((\<lambda>_. 100), 1000)"
proof -
  let ?claim = "claim_account (runtime_evm_accounts demo_framework) (SignedBy demo_who) zero_array zero_array
      (ledger demo_start)"
  have "evm_eth_recover null_crypto zero_array xs [] = Some zero_array" for xs
    by (simp add: evm_eth_recover_def hash_tail_def zero_array_def)
  then have "snd ?claim = Ok ()" and c: "chain (fst ?claim) = ((\<lambda>_. 100), 1000)"
    by (simp_all add: claim_account_def merge_padded_def runtime_evm_accounts_def comp_eval demo_start_def
        runtime_genesis_def claims_genesis_def evm_accounts_genesis_def store_mapping_def raise_nonce_def Let_def)
  then obtain l where l: "?claim = (l, Ok ())" by (metis surjective_pairing)
  show "runtime_dispatch demo_framework (SignedBy demo_who) (EvmAccounts zero_array zero_array) demo_start =
     (demo_mapped, Ok ())"
    using l by (simp add: demo_mapped_def on_accounts_step)
  show "EvmAddresses (ledger demo_mapped) demo_who = Some zero_array"
    using l runtime_claim_maps [OF l, of demo_who] by (simp add: demo_mapped_def on_accounts_step)
  show "chain (ledger demo_mapped) = ((\<lambda>_. 100), 1000)"
    using c by (simp add: demo_mapped_def on_accounts_step)
qed

section \<open>Properties\<close>

text \<open>
  C18. The runtime keeps its books. In every state the chain can reach, by calls to the
  pallets of the repository in any order, upgrades, and anything the pallets of the
  framework do, including removing accounts: the claims paid on a network do not exceed
  those minted; the address mapping is two-way; and every mapping was claimed with a
  signature, as its event shows. Nothing is assumed of the balances pallet.
\<close>

theorem runtime_invariant:
  "let s = run (runtime_step F) ls (runtime_genesis b) in
     paid n s \<le> minted n s \<and>
     (Accounts (ledger s) e = Some a \<longleftrightarrow> EvmAddresses (ledger s) a = Some e) \<and>
     {(a, e). EvmAddresses (ledger s) a = Some e} \<subseteq> set (claim_events (ledger s))"
proof -
  let ?s = "run (runtime_step F) ls (runtime_genesis b)"
  have "map_total record_paid m \<le> map_total record_amount m" for m :: "'k \<rightharpoonup> claim_record"
    by (rule map_total_mono) (simp add: record_paid_def record_amount_def)
  with reachable_consistent [of F ls b] show ?thesis
    by (simp add: runtime_consistent_def claims_balanced_def two_way_def mapping_claimed_def Let_def)
qed

text \<open>
  C19. The composed runtime implements the abstract chain: over every sequence of calls
  to the pallets of the repository, upgrades and steps of the framework's pallets, the
  storage read as bridge and address book is the result of executing the events that
  the steps are meant to be, in order: mints, payments, limits and the import move the
  bridge and nothing else, a claim of an address binds a free account to a free address
  that consented by its signature, and every other step, with the accounts it removes,
  only drops entries of the book. So whoever is in the book at the end was there at the
  beginning or was bound by such a claim.
\<close>

theorem runtime_refines_chain:
  "executes (chain_step (address_consents F)) (run_events (runtime_step F) (runtime_event_of F) ls s)
     (chain_view s) (chain_view (run (runtime_step F) ls s)) \<and>
   {(a, e). EvmAddresses (ledger (run (runtime_step F) ls s)) a = Some e} \<subseteq>
     {(a, e). EvmAddresses (ledger s) a = Some e} \<union>
     {(a, e). BindEvent a e \<in> set (run_events (runtime_step F) (runtime_event_of F) ls s)}"
  using runtime_sim.run_simulated [of F ls s] bound_by_event [OF runtime_sim.run_simulated [of F ls s]]
  by (simp add: chain_view_def)

text \<open>
  The pallets do not write each other's storage: a call to the accounts or the
  interop pallet leaves everything of the claims pallet as it is, and a call to the
  claims pallet can only remove address mappings, of accounts that its burning killed.
\<close>

theorem components_separate:
  "(runtime_step F (Call orig (EvmAccounts eth sig)) s)\<lparr>ledger := ledger s\<rparr> = s \<and>
   (runtime_step F (Call orig (CloverEvminterop eth v)) s)\<lparr>ledger := ledger s\<rparr> = s \<and>
   Accounts (ledger (runtime_step F (Call orig (CloverClaims c)) s)) \<subseteq>\<^sub>m Accounts (ledger s) \<and>
   EvmAddresses (ledger (runtime_step F (Call orig (CloverClaims c)) s)) \<subseteq>\<^sub>m EvmAddresses (ledger s)"
proof -
  have "unmaps (ledger s) (ledger (runtime_step F (Call orig (CloverClaims c)) s))"
    by (rule runtime_call_cases) (auto intro: claims_unmaps unmaps_refl)
  from unmaps_keeps(2,3) [OF this] show ?thesis by (simp add: on_accounts_step)
qed

text \<open>
  C21. Who claims an EVM address receives what is sent to it. A successful claim by an
  account maps the address to it; and in every state the chain can reach in which the
  account still has the address, a successful transfer to the address is a transfer of
  the balances pallet from the sender to that account.
\<close>

theorem claimed_address_receives:
  assumes "runtime_dispatch F orig (EvmAccounts eth sig) s = (t, Ok ())"
    and "ensure_signed (fw_origins F) orig = Ok who"
    and "u = run (runtime_step F) ls (runtime_genesis b)" and "EvmAddresses (ledger u) who = Some eth"
    and "runtime_dispatch F orig' (CloverEvminterop eth v) u = (w, Ok ())"
    and "ensure_signed (fw_origins F) orig' = Ok from"
  shows "EvmAddresses (ledger t) who = Some eth \<and> Accounts (ledger t) eth = Some who \<and>
    bank_call F (fw_transfer F from who v AllowDeath) (ledger u) = (ledger w, Ok ())"
proof -
  obtain l where l: "claim_account (runtime_evm_accounts F) orig eth sig (ledger s) = (l, Ok ())"
    and "t = s\<lparr>ledger := l\<rparr>" using assms(1) by auto
  with runtime_claim_maps [OF l assms(2)]
  have t: "EvmAddresses (ledger t) who = Some eth \<and> Accounts (ledger t) eth = Some who" by simp
  have "into_account_id (ledger u) eth = who"
    using assms(4) unfolding assms(3) by (rule reachable_owner)
  with assms(5,6) t show ?thesis
    by (auto simp: transfer_to_evm_Ok runtime_interop_def runtime_currency_def)
qed

theorem claimed_address_receives_witness:
  "\<exists>w. runtime_dispatch demo_framework (SignedBy (padded_account zero_array)) (CloverEvminterop zero_array 5)
         demo_mapped = (w, Ok ()) \<and>
       bank_call demo_framework (fw_transfer demo_framework (padded_account zero_array) demo_who 5 AllowDeath)
         (ledger demo_mapped) = (ledger w, Ok ())"
proof -
  have run: "demo_mapped = run (runtime_step demo_framework)
      [Call (SignedBy demo_who) (EvmAccounts zero_array zero_array)] (runtime_genesis (((\<lambda>_. 100), 1000), Map.empty))"
    by (simp add: run_def demo_mapped_def demo_start_def del: runtime_step.simps)
  have signed: "ensure_signed (fw_origins demo_framework) (SignedBy a) = Ok a" for a
    by (simp add: demo_framework_def)
  obtain w where w: "runtime_dispatch demo_framework (SignedBy (padded_account zero_array))
      (CloverEvminterop zero_array 5) demo_mapped = (w, Ok ())"
  proof -
    have "into_account_id (ledger demo_mapped) zero_array = demo_who"
      using demo_map_Ok(2) unfolding run by (rule reachable_owner)
    then have "snd (transfer_to_evm (runtime_interop demo_framework) (SignedBy (padded_account zero_array))
        zero_array 5 (ledger demo_mapped)) = Ok ()"
      using padded_neq_who
      by (simp add: transfer_to_evm_def runtime_interop_def runtime_currency_def comp_eval bank_call_def
          demo_bank_op_def bank_of_def demo_map_Ok(3) book_transfer_def checked_sub_def checked_add_def)
    then obtain l where "transfer_to_evm (runtime_interop demo_framework) (SignedBy (padded_account zero_array))
        zero_array 5 (ledger demo_mapped) = (l, Ok ())" by (metis surjective_pairing)
    then show ?thesis by (intro that) (simp add: on_accounts_def zoom_def)
  qed
  from claimed_address_receives [OF demo_map_Ok(1) signed run demo_map_Ok(2) w signed] w
  show ?thesis by blast
qed

end
