(* ===== verification/Runtime_Supply.thy ===== *)
theory Runtime_Supply
  imports Bridge_Supply Runtime_State
begin

text \<open>
  The supply of the native currency on the composed runtime. \<open>Bridge_Supply\<close> accounts
  for the claims pallet alone, over any currency that keeps its laws; here the laws are
  those of the framework's balances pallet and of its hooks, and the runtime's wiring
  is shown to provide the currency. A claim of an EVM address merges accounts, a
  transfer to an address moves currency, a burn may remove accounts and run the hooks:
  none of this changes the issuance beyond what the bridge accounts for.
\<close>

section \<open>What the framework promises about the issuance\<close>

text \<open>
  Documented behaviour of the balances pallet. \<open>P\<close> is an invariant of its storage under
  which the issuance covers every free balance. The issuance is a storage item of its
  own: transfers, unreserving, reference counters and the removal of an account by the
  EVM pallet leave it alone, and so does a change of nonces.
\<close>

definition keeps_issuance :: "('o, 'b) framework \<Rightarrow> ('b \<Rightarrow> bool) \<Rightarrow> 'b bank \<Rightarrow> 'b bank \<Rightarrow> bool" where
  "keeps_issuance F P b c \<longleftrightarrow> fw_issuance F c = fw_issuance F b \<and> (P (fst b) \<longrightarrow> P (fst c))"

definition bank_covers :: "('o, 'b) framework \<Rightarrow> ('b \<Rightarrow> bool) \<Rightarrow> bool" where
  "bank_covers F P \<longleftrightarrow>
     (\<forall>b a. P (fst b) \<longrightarrow> unat (fw_free F b a) \<le> unat (fw_issuance F b)) \<and>
     (\<forall>b a v. unat (fw_free F b a) + unat v < 2 ^ 128 \<longrightarrow> unat (fw_issuance F b) + unat v < 2 ^ 128 \<longrightarrow>
        fw_issuance F (fw_deposit F a v b) = fw_issuance F b + v) \<and>
     (\<forall>b a v. P (fst b) \<longrightarrow> unat (fw_issuance F b) + unat v < 2 ^ 128 \<longrightarrow> P (fst (fw_deposit F a v b))) \<and>
     (\<forall>b a v rs k c ks. fw_withdraw F a v rs k b = ((c, ks), Ok ()) \<longrightarrow>
        (P (fst b) \<longrightarrow> P (fst c)) \<and> unat (fw_free F b a) = unat (fw_free F c a) + unat v \<and>
        unat (fw_issuance F b) = unat (fw_issuance F c) + unat v)"

definition bank_moves :: "('o, 'b) framework \<Rightarrow> ('b \<Rightarrow> bool) \<Rightarrow> bool" where
  "bank_moves F P \<longleftrightarrow>
     (\<forall>b a d v k c ks. fw_transfer F a d v k b = ((c, ks), Ok ()) \<longrightarrow> keeps_issuance F P b c) \<and>
     (\<forall>b a d v c ks. fw_transfer_call F a d v b = ((c, ks), Ok ()) \<longrightarrow> keeps_issuance F P b c) \<and>
     (\<forall>b a v. keeps_issuance F P b (fw_unreserve F a v b)) \<and>
     (\<forall>b a c ks r. fw_consumer_killed F a b = ((c, ks), r) \<longrightarrow> keeps_issuance F P b c)"

definition bank_hooks :: "('o, 'b) framework \<Rightarrow> ('b \<Rightarrow> bool) \<Rightarrow> bool" where
  "bank_hooks F P \<longleftrightarrow>
     (\<forall>s a. keeps_issuance F P (bank_of s) (fw_evm_killed F a s, system_nonces s) \<and>
        fw_free F (fw_evm_killed F a s, system_nonces s) = fw_free F (bank_of s)) \<and>
     (\<forall>b n m a. fw_issuance F (b, n) = fw_issuance F (b, m) \<and> fw_free F (b, n) a = fw_free F (b, m) a)"

definition framework_accounted :: "('o, 'b) framework \<Rightarrow> ('b \<Rightarrow> bool) \<Rightarrow> bool" where
  "framework_accounted F P \<longleftrightarrow> bank_covers F P \<and> bank_moves F P \<and> bank_hooks F P"

section \<open>The quantities\<close>

definition chain_supply :: "('o, 'b) framework \<Rightarrow> 'b runtime_state \<Rightarrow> int" where
  "chain_supply F s = int (unat (fw_issuance F (bank_of (ledger s))))"

text \<open>The mint fee of a step, and what a step of the other pallets does to the issuance.\<close>

fun runtime_fee :: "('o, 'b) framework \<Rightarrow> ('o, 'b) runtime_label \<Rightarrow> 'b runtime_state \<Rightarrow> int" where
  "runtime_fee F (Call orig (CloverClaims c)) s = int (step_fee (runtime_claims F) (Extrinsic orig c) s)"
| "runtime_fee F _ s = 0"

fun framework_gain :: "('o, 'b) framework \<Rightarrow> ('o, 'b) runtime_label \<Rightarrow> 'b runtime_state \<Rightarrow> int" where
  "framework_gain F (Framework p) s = chain_supply F (runtime_step F (Framework p) s) - chain_supply F s"
| "framework_gain F _ s = 0"

text \<open>
  A step is within bounds when what it pays does not overflow the issuance, and the
  framework's pallets keep their own invariant.
\<close>

fun within_bounds :: "('o, 'b) framework \<Rightarrow> ('b \<Rightarrow> bool) \<Rightarrow> ('o, 'b) runtime_label \<Rightarrow> 'b runtime_state \<Rightarrow> bool" where
  "within_bounds F P (Framework p) s \<longleftrightarrow> P (chain (ledger (runtime_step F (Framework p) s)))"
| "within_bounds F P l s \<longleftrightarrow>
     chain_supply F s + (int (total_paid (runtime_step F l s)) - int (total_paid s)) + runtime_fee F l s < 2 ^ 128"

section \<open>The wiring provides the currency\<close>

lemma keeps_issuance_refl: "keeps_issuance F P b b"
  by (simp add: keeps_issuance_def)

lemma keeps_issuance_trans: "keeps_issuance F P b c \<Longrightarrow> keeps_issuance F P c d \<Longrightarrow> keeps_issuance F P b d"
  by (simp add: keeps_issuance_def)

lemma fst_bank_of [simp]: "fst (bank_of s) = chain s" "chain (set_bank b s) = fst b"
  by (simp_all add: bank_of_def set_bank_def)

lemma on_killed_bank [simp]: "bank_of (on_killed_account k s) = bank_of s"
  by (simp add: on_killed_account_def bank_of_def split: option.splits)

lemma hook_keeps: "bank_hooks F P \<Longrightarrow> keeps_issuance F P (bank_of s) (bank_of (OnKilledAccount F k s))"
  by (simp add: OnKilledAccount_def bank_hooks_def) (simp add: bank_of_def)

lemma hooks_keep: "bank_hooks F P \<Longrightarrow> keeps_issuance F P (bank_of s) (bank_of (fold (OnKilledAccount F) ks s))"
proof (induction ks arbitrary: s)
  case (Cons k ks)
  from keeps_issuance_trans [OF hook_keeps [OF Cons.prems] Cons.IH [OF Cons.prems]] show ?case by simp
qed (simp add: keeps_issuance_refl)

lemma hooks_free: "bank_hooks F P \<Longrightarrow> fw_free F (bank_of (fold (OnKilledAccount F) ks s)) = fw_free F (bank_of s)"
proof (induction ks arbitrary: s)
  case (Cons k ks)
  moreover have "fw_free F (bank_of (OnKilledAccount F k s)) = fw_free F (bank_of s)"
    using Cons.prems by (simp add: OnKilledAccount_def bank_hooks_def) (simp add: bank_of_def)
  ultimately show ?case by simp
qed simp

lemma bank_call_keeps:
  assumes "bank_hooks F P" and "bank_call F p s = (t, r)"
    and "\<And>c ks. p (bank_of s) = ((c, ks), r) \<Longrightarrow> keeps_issuance F P (bank_of s) c"
  shows "keeps_issuance F P (bank_of s) (bank_of t)"
proof -
  obtain c ks where p: "p (bank_of s) = ((c, ks), r)" and t: "t = fold (OnKilledAccount F) ks (set_bank c s)"
    using assms(2) by (auto simp: bank_call_def split: prod.splits)
  from keeps_issuance_trans [OF assms(3) [OF p], of "bank_of t"] hooks_keep [OF assms(1), of "set_bank c s" ks]
  show ?thesis by (simp add: t)
qed

lemma runtime_withdraw:
  assumes "framework_accounted F P" and "bank_call F (fw_withdraw F a v rs k) s = (t, Ok ())"
  shows "(P (chain s) \<longrightarrow> P (chain t)) \<and> unat (fw_free F (bank_of s) a) = unat (fw_free F (bank_of t) a) + unat v \<and>
    unat (fw_issuance F (bank_of s)) = unat (fw_issuance F (bank_of t)) + unat v"
proof -
  have hooks: "bank_hooks F P" and covers: "bank_covers F P"
    using assms(1) by (simp_all add: framework_accounted_def)
  obtain c ks where w: "fw_withdraw F a v rs k (bank_of s) = ((c, ks), Ok ())"
    and t: "t = fold (OnKilledAccount F) ks (set_bank c s)"
    using assms(2) by (auto simp: bank_call_def split: prod.splits)
  from covers w have "(P (fst (bank_of s)) \<longrightarrow> P (fst c)) \<and>
      unat (fw_free F (bank_of s) a) = unat (fw_free F c a) + unat v \<and>
      unat (fw_issuance F (bank_of s)) = unat (fw_issuance F c) + unat v"
    unfolding bank_covers_def by blast
  with hooks_keep [OF hooks, of "set_bank c s" ks] hooks_free [OF hooks, of ks "set_bank c s"] show ?thesis
    by (simp add: t keeps_issuance_def)
qed

lemma runtime_accounted:
  assumes "framework_accounted F P"
  shows "accounted (runtime_currency F) (\<lambda>s. P (chain s))"
proof -
  have covers: "bank_covers F P" using assms by (simp add: framework_accounted_def)
  have "deposit_issues (runtime_currency F)"
    using covers by (simp add: deposit_issues_def runtime_currency_def bank_covers_def del: split_paired_All)
  moreover have "withdraw_debits (runtime_currency F)"
    using runtime_withdraw [OF assms] by (simp add: withdraw_debits_def runtime_currency_def)
  moreover have "keeps_covered (runtime_currency F) (\<lambda>s. P (chain s))"
    using runtime_withdraw [OF assms] covers
    by (simp add: keeps_covered_def runtime_currency_def bank_covers_def del: split_paired_All)
  ultimately show ?thesis by (simp add: accounted_def runtime_currency_def ExistentialDeposit_def)
qed

section \<open>The other pallets\<close>

lemma bank_moves_rules:
  assumes "bank_moves F P"
  shows "fw_transfer F a d v k b = ((c, ks), Ok ()) \<Longrightarrow> keeps_issuance F P b c"
    and "fw_transfer_call F a d v b = ((c, ks), Ok ()) \<Longrightarrow> keeps_issuance F P b c"
    and "keeps_issuance F P b (fw_unreserve F a v b)"
    and "fw_consumer_killed F a b = ((c, ks), r) \<Longrightarrow> keeps_issuance F P b c"
proof -
  note laws = assms [unfolded bank_moves_def]
  show "fw_transfer F a d v k b = ((c, ks), Ok ()) \<Longrightarrow> keeps_issuance F P b c"
    by (rule laws [THEN conjunct1, rule_format])
  show "fw_transfer_call F a d v b = ((c, ks), Ok ()) \<Longrightarrow> keeps_issuance F P b c"
    by (rule laws [THEN conjunct2, THEN conjunct1, rule_format])
  show "keeps_issuance F P b (fw_unreserve F a v b)"
    by (rule laws [THEN conjunct2, THEN conjunct2, THEN conjunct1, rule_format])
  show "fw_consumer_killed F a b = ((c, ks), r) \<Longrightarrow> keeps_issuance F P b c"
    by (rule laws [THEN conjunct2, THEN conjunct2, THEN conjunct2, rule_format])
qed

lemma nonce_irrelevant:
  assumes "bank_hooks F P" and "chain s = chain t"
  shows "keeps_issuance F P (bank_of s) (bank_of t)"
proof -
  have "fw_issuance F (bank_of t) = fw_issuance F (bank_of s)"
    using assms unfolding bank_hooks_def bank_of_def by metis
  then show ?thesis by (simp add: keeps_issuance_def assms(2))
qed

lemma merge_keeps:
  assumes "framework_accounted F P" and "merge_account_evm (runtime_balances F) a d s = (t, Ok ())"
  shows "keeps_issuance F P (bank_of s) (bank_of t)"
proof -
  have laws: "bank_moves F P" "bank_hooks F P" using assms(1) by (simp_all add: framework_accounted_def)
  let ?u = "set_bank (fw_unreserve F a (fw_reserved F (bank_of s) a) (bank_of s)) s"
  have "bank_call F (fw_transfer_call F a d (fw_free F (bank_of ?u) a)) ?u = (t, Ok ())"
    using assms(2) by (simp add: merge_account_evm_def runtime_balances_def)
  note ut = bank_call_keeps [OF laws(2) this bank_moves_rules(2) [OF laws(1)]]
  have "keeps_issuance F P (bank_of s) (bank_of ?u)" by (simp add: bank_moves_rules(3) [OF laws(1)])
  from keeps_issuance_trans [OF this ut] show ?thesis .
qed

lemma claim_account_keeps:
  assumes "framework_accounted F P" and "claim_account (runtime_evm_accounts F) orig eth sig s = (t, Ok ())"
  shows "keeps_issuance F P (bank_of s) (bank_of t)"
proof -
  have laws: "bank_moves F P" "bank_hooks F P" using assms(1) by (simp_all add: framework_accounted_def)
  obtain who u n where m: "merge_padded (runtime_evm_accounts F) who eth s = (u, Ok n)"
    and t: "t = (store_mapping who eth (raise_nonce who n u))\<lparr>claim_events := claim_events u @ [(who, eth)]\<rparr>"
    using assms(2) unfolding claim_account_Ok by blast
  have "chain u = chain t"
    by (simp add: t store_mapping_def raise_nonce_def Let_def split: option.splits)
  then have ut: "keeps_issuance F P (bank_of u) (bank_of t)" by (rule nonce_irrelevant [OF laws(2)])
  have "keeps_issuance F P (bank_of s) (bank_of u)"
  proof (cases "system_nonces s (into_account_id s eth) = None")
    case True
    with m show ?thesis by (simp add: merge_padded_Ok Let_def runtime_evm_accounts_def keeps_issuance_refl)
  next
    case False
    let ?acc = "into_account_id s eth"
    from m False obtain w where w: "merge_account_evm (runtime_balances F) ?acc who s = (w, Ok ())"
      and u: "u = fst (bank_call F (fw_consumer_killed F ?acc) w)"
      by (auto simp: merge_padded_Ok Let_def runtime_evm_accounts_def)
    obtain r where k: "bank_call F (fw_consumer_killed F ?acc) w = (u, r)" using u by (metis prod.collapse)
    from keeps_issuance_trans [OF merge_keeps [OF assms(1) w]
        bank_call_keeps [OF laws(2) k bank_moves_rules(4) [OF laws(1)]]] show ?thesis .
  qed
  from keeps_issuance_trans [OF this ut] show ?thesis .
qed

lemma transfer_keeps:
  assumes "framework_accounted F P" and "transfer_to_evm (runtime_interop F) orig to v s = (t, Ok ())"
  shows "keeps_issuance F P (bank_of s) (bank_of t)"
proof -
  have laws: "bank_moves F P" "bank_hooks F P" using assms(1) by (simp_all add: framework_accounted_def)
  obtain sender where "bank_call F (fw_transfer F sender (into_account_id s to) v AllowDeath) s = (t, Ok ())"
    using assms(2) by (auto simp: transfer_to_evm_Ok runtime_interop_def runtime_currency_def)
  from bank_call_keeps [OF laws(2) this bank_moves_rules(1) [OF laws(1)]] show ?thesis .
qed

section \<open>Steps\<close>

text \<open>The part of the issuance that the bridge does not account for: no call changes it but by fees.\<close>

definition unbridged :: "('o, 'b) framework \<Rightarrow> 'b runtime_state \<Rightarrow> int" where
  "unbridged F s = chain_supply F s - int (total_paid s) + int (burned s)"

lemma issuance_supply: "int (issuance (runtime_claims F) s) = chain_supply F s"
  by (simp add: issuance_def chain_supply_def runtime_claims_def runtime_currency_def)

lemma same_books: "events t = events s \<Longrightarrow> total_paid t = total_paid s \<and> burned t = burned s"
  by (simp add: total_paid_def paid_def burned_def)

lemma accounts_step:
  assumes "keeps_issuance F P (bank_of (ledger s)) (bank_of l)" and "P (chain (ledger s))"
  shows "P (chain (ledger (s\<lparr>ledger := l\<rparr>))) \<and> unbridged F (s\<lparr>ledger := l\<rparr>) = unbridged F s"
  using assms same_books [of "s\<lparr>ledger := l\<rparr>" s]
  by (simp add: keeps_issuance_def unbridged_def chain_supply_def)

lemma supply_step:
  assumes "framework_accounted F P" and "P (chain (ledger s))" and "within_bounds F P l s"
  shows "P (chain (ledger (runtime_step F l s))) \<and>
    unbridged F (runtime_step F l s) = unbridged F s + (runtime_fee F l s + framework_gain F l s)"
proof (cases l)
  case (Framework p)
  have "events (runtime_step F (Framework p) s) = events s" by (simp add: on_accounts_step)
  with same_books [OF this] assms(3) Framework show ?thesis by (simp add: unbridged_def)
next
  case Upgrade
  then show ?thesis
    using assms(2) same_books [OF upgrade_frame(2) [of s]] by (simp add: unbridged_def chain_supply_def)
next
  case (Call orig c)
  show ?thesis
  proof (cases c)
    case (CloverClaims c')
    let ?cfg = "runtime_claims F" and ?l = "Extrinsic orig c'"
    have step: "runtime_step F l s = claims_step ?cfg ?l s" by (simp add: Call CloverClaims)
    have "accounted (c_currency ?cfg) (\<lambda>s. P (chain s))"
      using runtime_accounted [OF assms(1)] by (simp add: runtime_claims_def)
    moreover have "issuance ?cfg s + (total_paid (claims_step ?cfg ?l s) - total_paid s) + step_fee ?cfg ?l s < 2 ^ 128"
    proof -
      have "total_paid s \<le> total_paid (claims_step ?cfg ?l s)" using total_paid_mono [of s ?cfg "[?l]"] by (simp add: run_def)
      moreover have "within_bounds F P (Call orig (CloverClaims c')) s" using assms(3) Call CloverClaims by simp
      ultimately show ?thesis
        using issuance_supply [of F s] by (simp add: of_nat_diff flip: step [unfolded Call CloverClaims])
    qed
    ultimately have "balances_step ?cfg (\<lambda>s. P (chain s)) (step_fee ?cfg ?l s) s (claims_step ?cfg ?l s)"
      using assms(2) by (intro step_balances)
    then show ?thesis
      by (auto simp: balances_step_def unbridged_def step Call CloverClaims simp flip: issuance_supply)
  next
    case (EvmAccounts eth sig)
    show ?thesis unfolding Call EvmAccounts
      by (rule runtime_call_cases) (auto simp: assms(2) intro!: accounts_step claim_account_keeps [OF assms(1)])
  next
    case (CloverEvminterop to v)
    show ?thesis unfolding Call CloverEvminterop
      by (rule runtime_call_cases) (auto simp: assms(2) intro!: accounts_step transfer_keeps [OF assms(1)])
  qed
qed

interpretation supply_books: step_budget "runtime_step F"
  "\<lambda>s. framework_accounted F P \<and> P (chain (ledger s))" "within_bounds F P" "unbridged F"
  "\<lambda>l s. runtime_fee F l s + framework_gain F l s" "\<lambda>l s. 0" for F P
  by unfold_locales (auto simp: supply_step)

section \<open>The framework of the witnesses\<close>

lemma book_covered_transfer:
  assumes "book_covered l" and "book_transfer a d v k l = (l', Ok ())"
  shows "book_covered l'"
proof (cases "a = d")
  case False
  let ?m = "((fst l)(a := fst l a - v), snd l - v)"
  from assms(2) False have sub: "unat v \<le> unat (fst l a)" and add: "unat (fst l d) + unat v < 2 ^ 128"
    and l': "l' = ((fst ?m)(d := fst ?m d + v), snd l)"
    by (auto simp: book_transfer_Ok checked_sub_def checked_add_def word_le_nat_alt split: if_splits)
  have le: "unat v \<le> unat (snd l)" using book_covered_le [OF assms(1), of a] sub by simp
  have "book_covered ?m"
    using sub le by (intro book_covered_upd [OF assms(1)]) (simp add: unat_sub_le word_le_nat_alt)
  from book_covered_upd [OF this, of "fst ?m d + v" d "snd l"]
  have "book_covered ((fst ?m)(d := fst ?m d + v), snd l)"
    using False add le by (simp add: unat_sub_le word_le_nat_alt unat_add_fits)
  then show ?thesis by (simp add: l')
qed (use assms in \<open>simp add: book_transfer_Ok\<close>)

lemma demo_framework_accounted: "framework_accounted demo_framework book_covered"
proof -
  have deposit: "unat (fst l a) + unat v < 2 ^ 128 \<Longrightarrow> unat (snd l) + unat v < 2 ^ 128 \<Longrightarrow>
      snd (book_deposit a v l) = snd l + v" for l :: "account_id book" and a v
    by (simp add: book_deposit_def checked_add_def saturating_add_def)
  have debit: "book_withdraw a v rs k l = (l', Ok ()) \<Longrightarrow>
      unat (fst l a) = unat (fst l' a) + unat v \<and> unat (snd l) = unat (snd l') + unat v"
    for l l' :: "account_id book" and a v rs k
    by (auto simp: book_withdraw_Ok word_nat)
  have moved: "book_transfer a d v k l = (l', Ok ()) \<Longrightarrow> snd l' = snd l \<and> (book_covered l \<longrightarrow> book_covered l')"
    for l l' :: "account_id book" and a d v k
    using book_covered_transfer [of l a d v k l'] by (auto simp: book_transfer_Ok split: if_splits)
  have "bank_covers demo_framework book_covered"
    using deposit debit
    by (auto simp: bank_covers_def demo_framework_def demo_bank_op_def book_covered_deposit
        dest: book_covered_le book_covered_withdraw simp del: split_paired_All split: prod.splits)
  moreover have "bank_moves demo_framework book_covered"
    using moved by (auto simp: bank_moves_def keeps_issuance_def demo_framework_def demo_bank_op_def comp_defs
        split: prod.splits)
  moreover have "bank_hooks demo_framework book_covered"
    by (simp add: bank_hooks_def keeps_issuance_def demo_framework_def bank_of_def)
  ultimately show ?thesis by (simp add: framework_accounted_def)
qed

section \<open>Properties\<close>

text \<open>
  C6. The supply of the chain is accounted for. Over every sequence of calls to the
  pallets of the repository, upgrades and steps of the framework's pallets, what the
  issuance gains is the claims paid plus the mint fees, less what was burned for the
  other chains, plus what the framework's pallets issued themselves; merging accounts,
  transfers to EVM addresses and the hooks on removed accounts leave it alone.
\<close>

theorem runtime_supply_accounted:
  assumes "framework_accounted F P" and "P (chain (ledger s))"
    and "run_all (runtime_step F) (within_bounds F P) ls s" and "t = run (runtime_step F) ls s"
  shows "chain_supply F t - chain_supply F s =
    (int (total_paid t) - int (total_paid s)) + run_sum (runtime_step F) (runtime_fee F) ls s -
    (int (burned t) - int (burned s)) + run_sum (runtime_step F) (framework_gain F) ls s"
  using supply_books.run_gain [of F P s ls] assms by (simp add: run_sum_add unbridged_def)

text \<open>A record to claim, and the two calls of the witness: the claim, then a mapping of an address.\<close>

definition demo_bridge :: "account_id book runtime_state" where
  "demo_bridge = insert_claim BSC demo_tx (EthereumAddress zero_array, 70, False)
     (runtime_genesis (((\<lambda>_. 0), 5), Map.empty))"

definition demo_calls :: "(account_id raw_origin, account_id book) runtime_label list" where
  "demo_calls =
     [Call NoOrigin (CloverClaims (Claim_elastic BSC demo_who demo_tx demo_sig)),
      Call (SignedBy demo_who) (EvmAccounts zero_array zero_array)]"

lemma demo_runtime_signer: "claim_signer (runtime_claims demo_framework) a tx sig = Some (EthereumAddress zero_array)"
  by (cases sig) (simp add: claim_signer_def eth_recover_def eth_recover_bytes_def runtime_claims_def hash_tail_def
      zero_array_def)

lemma demo_claim_events:
  "events (runtime_step demo_framework (hd demo_calls) demo_bridge) =
     [ElasticClaimed BSC demo_who (EthereumAddress zero_array) 70]"
proof -
  have c: "c_origins (runtime_claims demo_framework) = raw_origins" by (simp add: runtime_claims_def)
  have r: "ElasticClaims demo_bridge BSC demo_tx = Some (EthereumAddress zero_array, 70, False)" "events demo_bridge = []"
    by (simp_all add: demo_bridge_def insert_claim_def runtime_genesis_def claims_genesis_def)
  have "\<exists>t. claims_dispatch (runtime_claims demo_framework) NoOrigin (Claim_elastic BSC demo_who demo_tx demo_sig)
      demo_bridge = (t, Ok ()) \<and> events t = [ElasticClaimed BSC demo_who (EthereumAddress zero_array) 70]"
    by (simp add: claims_call_defs do_claim_Ok demo_runtime_signer c r insert_claim_def)
  then show ?thesis by (auto simp: demo_calls_def simp del: claims_dispatch.simps)
qed

theorem runtime_supply_accounted_witness:
  "chain_supply demo_framework (run (runtime_step demo_framework) demo_calls demo_bridge) = 75"
proof -
  let ?F = demo_framework and ?u = "runtime_step demo_framework (hd demo_calls) demo_bridge"
  let ?t = "run (runtime_step demo_framework) demo_calls demo_bridge"
  have t: "?t = runtime_step ?F (Call (SignedBy demo_who) (EvmAccounts zero_array zero_array)) ?u"
    by (simp add: run_def demo_calls_def del: runtime_step.simps)
  then have "events ?t = events ?u" by (simp add: on_accounts_step)
  with demo_claim_events have paid: "total_paid ?t = 70" "total_paid ?u = 70" "burned ?t = 0"
    by (simp_all add: total_paid_def paid_def burned_def)
  have zero: "total_paid demo_bridge = 0" "burned demo_bridge = 0" "chain_supply ?F demo_bridge = 5"
    "book_covered (chain (ledger demo_bridge))"
    by (auto simp: total_paid_def paid_def burned_def chain_supply_def demo_bridge_def insert_claim_def
        runtime_genesis_def claims_genesis_def evm_accounts_genesis_def bank_of_def demo_framework_def book_covered_def)
  have bound: "chain_supply ?F s < 2 ^ 128" for s
    using unsigned_less [of "fw_issuance demo_framework (bank_of (ledger s))", where 'a = int]
    by (simp add: chain_supply_def)
  have "run_all (runtime_step ?F) (within_bounds ?F book_covered) demo_calls demo_bridge"
    using paid zero bound [of ?u] t by (simp add: demo_calls_def del: runtime_step.simps)
  from runtime_supply_accounted [OF demo_framework_accounted zero(4) this refl] paid zero show ?thesis
    by (simp add: demo_calls_def del: runtime_step.simps)
qed

end
