(* ===== verification/Claim_Pool.thy ===== *)
theory Claim_Pool
  imports Claims "HOL-Library.Multiset"
begin

text \<open>
  Claims on their way into a block. The validation of \<^verbatim>\<open>modules/claims/src/lib.rs\<close> gives
  the transaction pool of the framework a priority and tags. The pool itself is not
  code of this repository: its content and the admission of a further transaction are
  parameters, with what the framework documents of them as hypotheses.
\<close>

section \<open>What the framework documents of its pool\<close>

type_synonym 'acc pooled = "'acc claims_call \<times> valid_transaction"

text \<open>
  The pool offers a block author transactions that were validated against the state the
  block is built on, and each tag is provided by at most one of them.
\<close>

definition ready_at ::
  "('o, 'acc, 'l) claims_config \<Rightarrow> ('acc, 'l) claims_state \<Rightarrow> 'acc pooled list \<Rightarrow> bool" where
  "ready_at cfg s pool \<longleftrightarrow>
     list_all (\<lambda>(c, v). validate_unsigned cfg s c = Ok v) pool \<and> distinct (concat (map (provides \<circ> snd) pool))"

text \<open>
  A transaction that provides a tag of a pooled one enters only if its priority is
  higher; otherwise the pool stays as it is.
\<close>

definition keeps_incumbent :: "('acc pooled list \<Rightarrow> 'acc pooled \<Rightarrow> 'acc pooled list) \<Rightarrow> bool" where
  "keeps_incumbent admit \<longleftrightarrow>
     (\<forall>pool c v d w tag. (c, v) \<in> set pool \<longrightarrow> tag \<in> set (provides v) \<longrightarrow> tag \<in> set (provides w) \<longrightarrow>
        priority w \<le> priority v \<longrightarrow> admit pool (d, w) = pool)"

section \<open>Records\<close>

fun record_of :: "'acc claims_call \<Rightarrow> (bridge_networks \<times> ethereum_tx_hash) option" where
  "record_of (Claim_elastic n dest tx sig) = Some (n, tx)"
| "record_of _ = None"

fun beneficiary :: "('acc, 'l) claims_state \<Rightarrow> 'acc claims_call \<Rightarrow> ethereum_address option" where
  "beneficiary s (Claim_elastic n dest tx sig) = map_option fst (ElasticClaims s n tx)"
| "beneficiary s _ = None"

definition claim_tag :: "('o, 'acc, 'l) claims_config \<Rightarrow> ethereum_address \<Rightarrow> valid_transaction" where
  "claim_tag cfg a =
     \<lparr>priority = 100, requires = [], provides = [c_encode_provides cfg ''claims'' a], longevity = - 1,
      propagate = True\<rparr>"

lemma validate_Ok:
  "validate_unsigned cfg s c = Ok v \<longleftrightarrow>
     (\<exists>n dest tx sig a x. c = Claim_elastic n dest tx sig \<and> ElasticClaims s n tx = Some (a, x, False) \<and>
        claim_signer cfg dest tx sig = Some a \<and> v = claim_tag cfg a)"
  by (cases c) (auto simp: do_validate_Ok claim_tag_def)

lemma validated:
  assumes "validate_unsigned cfg s c = Ok v"
  obtains a where "beneficiary s c = Some a" and "v = claim_tag cfg a" and "record_of c \<noteq> None"
  using assms unfolding validate_Ok by auto

lemma same_record_same_beneficiary: "record_of c = record_of d \<Longrightarrow> record_of c \<noteq> None \<Longrightarrow> beneficiary s c = beneficiary s d"
  by (cases c; cases d) auto

lemma priority_tag [simp]: "priority (claim_tag cfg a) = 100"
  by (simp add: claim_tag_def)

lemma provides_tag [simp]: "provides (claim_tag cfg a) = [c_encode_provides cfg ''claims'' a]"
  by (simp add: claim_tag_def)

section \<open>Executing a block\<close>

text \<open>
  The calls to the pallet in a block, with their origins, one after the other; every
  claim among them must succeed.
\<close>

fun claims_succeed ::
  "('o, 'acc, 'l) claims_config \<Rightarrow> ('o \<times> 'acc claims_call) list \<Rightarrow> ('acc, 'l) claims_state \<Rightarrow> bool" where
  "claims_succeed cfg [] s \<longleftrightarrow> True"
| "claims_succeed cfg ((orig, c) # block) s \<longleftrightarrow>
     (case claims_dispatch cfg orig c s of (t, r) \<Rightarrow> (record_of c = None \<or> r = Ok ()) \<and> claims_succeed cfg block t)"

text \<open>A claim succeeds if it is valid, and leaves the claims of other records valid.\<close>

lemma claim_keeps_others:
  assumes "validate_unsigned cfg s c = Ok v" and "ensure_none (c_origins cfg) orig = Ok ()"
  obtains t where "claims_dispatch cfg orig c s = (t, Ok ())"
    and "\<And>d w. record_of d \<noteq> record_of c \<Longrightarrow> validate_unsigned cfg s d = Ok w \<Longrightarrow> validate_unsigned cfg t d = Ok w"
proof -
  from assms(1) obtain n dest tx sig a x where c: "c = Claim_elastic n dest tx sig"
    and r: "ElasticClaims s n tx = Some (a, x, False)" "claim_signer cfg dest tx sig = Some a"
    unfolding validate_Ok by blast
  then obtain t where t: "claims_dispatch cfg orig c s = (t, Ok ())"
    and e: "ElasticClaims t = (ElasticClaims s)(n := (ElasticClaims s n)(tx \<mapsto> (a, x, True)))"
    using assms(2) by (auto simp: claims_call_defs do_claim_Ok insert_claim_def)
  have "validate_unsigned cfg t d = Ok w" if "record_of d \<noteq> record_of c" "validate_unsigned cfg s d = Ok w" for d w
    using that by (cases d) (auto simp: do_validate_Ok c e)
  with that [OF t] show ?thesis by blast
qed

text \<open>Every other call leaves all claims valid: it neither pays a record nor replaces one.\<close>

lemma other_call_keeps:
  assumes "record_of c = None" and "claims_dispatch cfg orig c s = (t, r)" and "validate_unsigned cfg s d = Ok v"
  shows "validate_unsigned cfg t d = Ok v"
proof -
  have "ElasticClaims t n tx = Some (a, x, False)" if "ElasticClaims s n tx = Some (a, x, False)" for n tx a x
  proof (cases r)
    case (Ok u)
    with assms(1,2) that show ?thesis
      by (cases c) (auto simp: claims_call_defs do_mint_claim_Ok do_burn_Ok insert_claim_def)
  next
    case (Err e)
    with assms(2) claims_dispatch_Err that show ?thesis by metis
  qed
  with assms(3) show ?thesis unfolding validate_Ok by blast
qed

abbreviation claims_of :: "('o \<times> 'acc claims_call) list \<Rightarrow> 'acc claims_call list" where
  "claims_of block \<equiv> filter (\<lambda>c. record_of c \<noteq> None) (map snd block)"

lemma distinct_claims_succeed:
  assumes "list_all (\<lambda>c. \<exists>v. validate_unsigned cfg s c = Ok v) (claims_of block)"
    and "distinct (map record_of (claims_of block))"
    and "list_all (\<lambda>(orig, c). record_of c = None \<or> ensure_none (c_origins cfg) orig = Ok ()) block"
  shows "claims_succeed cfg block s"
  using assms
proof (induction block arbitrary: s)
  case (Cons e block)
  obtain orig c where e: "e = (orig, c)" by force
  show ?case
  proof (cases "record_of c = None")
    case True
    obtain t r where t: "claims_dispatch cfg orig c s = (t, r)" by force
    have "list_all (\<lambda>c. \<exists>v. validate_unsigned cfg t c = Ok v) (claims_of block)"
      using Cons.prems(1) other_call_keeps [OF True t] True by (fastforce simp: e list_all_iff)
    with Cons True show ?thesis by (simp add: e t)
  next
    case False
    with Cons.prems(1,3) obtain v where "validate_unsigned cfg s c = Ok v" "ensure_none (c_origins cfg) orig = Ok ()"
      by (auto simp: e)
    then obtain t where t: "claims_dispatch cfg orig c s = (t, Ok ())"
      and keep: "\<And>d w. record_of d \<noteq> record_of c \<Longrightarrow> validate_unsigned cfg s d = Ok w \<Longrightarrow>
        validate_unsigned cfg t d = Ok w"
      by (rule claim_keeps_others) blast
    have "record_of d \<noteq> record_of c" if "d \<in> set (claims_of block)" for d
      using Cons.prems(2) False that by (force simp: e)
    moreover have "\<exists>v. validate_unsigned cfg s d = Ok v" if "d \<in> set (claims_of block)" for d
      using Cons.prems(1) that by (auto simp: e list_all_iff split: if_splits)
    ultimately have "list_all (\<lambda>c. \<exists>v. validate_unsigned cfg t c = Ok v) (claims_of block)"
      unfolding list_all_iff using keep by blast
    with Cons False show ?thesis by (simp add: e t)
  qed
qed simp

section \<open>What the pool holds\<close>

text \<open>Claims that may share the pool belong to different records.\<close>

lemma ready_records:
  assumes "ready_at cfg s pool"
  shows "distinct (map (record_of \<circ> fst) pool)"
  using assms
proof (induction pool)
  case (Cons p pool)
  obtain c v where p: "p = (c, v)" by force
  have pool: "ready_at cfg s pool" and c: "validate_unsigned cfg s c = Ok v"
    and tags: "set (provides v) \<inter> set (provides w) = {}" if "(d, w) \<in> set pool" for d w
    using Cons.prems that by (fastforce simp: ready_at_def p)+
  have "record_of d \<noteq> record_of c" if d: "(d, w) \<in> set pool" for d w
  proof
    assume same: "record_of d = record_of c"
    have "validate_unsigned cfg s d = Ok w" using pool [OF d] d by (auto simp: ready_at_def list_all_iff)
    then obtain a where a: "beneficiary s d = Some a" "w = claim_tag cfg a" "record_of d \<noteq> None" by (rule validated)
    from c [OF d] obtain b where b: "beneficiary s c = Some b" "v = claim_tag cfg b" by (rule validated)
    from same_record_same_beneficiary [OF same a(3), of s] a b tags [OF d] show False by simp
  qed
  then have "record_of c \<notin> (record_of \<circ> fst) ` set pool" by force
  moreover have "distinct (map (record_of \<circ> fst) pool)"
    using Cons.prems by (intro Cons.IH) (simp add: ready_at_def)
  ultimately show ?case by (simp add: p comp_def)
qed simp

section \<open>Properties\<close>

text \<open>
  C12. Whatever the pool offers can be executed. For a pool whose claims were validated
  against the state the block is built on, with no tag provided twice: every claim
  succeeds when a block executes them, in whatever order the block has them and
  whatever other calls to the pallet, mints, burns or settings, the block has in
  between, because two claims of one record never share the pool.
\<close>

theorem pooled_claims_all_succeed:
  assumes "ready_at cfg s pool" and "mset (claims_of block) = mset (map fst pool)"
    and "list_all (\<lambda>(orig, c). record_of c = None \<or> ensure_none (c_origins cfg) orig = Ok ()) block"
  shows "claims_succeed cfg block s"
proof (rule distinct_claims_succeed [OF _ _ assms(3)])
  have "set (claims_of block) = fst ` set pool" using mset_eq_setD [OF assms(2)] by simp
  with assms(1) show "list_all (\<lambda>c. \<exists>v. validate_unsigned cfg s c = Ok v) (claims_of block)"
    by (auto simp: list_all_iff ready_at_def)
  have "mset (map record_of (claims_of block)) = mset (map (record_of \<circ> fst) pool)"
    using assms(2) by (metis mset_map multiset.map_comp)
  then show "distinct (map record_of (claims_of block))"
    using ready_records [OF assms(1)] by (metis mset_eq_imp_distinct_iff)
qed

text \<open>The state of the demonstration, with a second record of the same beneficiary.\<close>

definition demo_pooled :: "(nat, nat book) claims_state" where
  "demo_pooled = insert_claim Ethereum demo_tx (demo_address, 5, False) demo_minted"

definition demo_block :: "(nat raw_origin \<times> nat claims_call) list" where
  "demo_block =
     [(RootOrigin, Set_claim_limit_elastic BSC 5), (NoOrigin, Claim_elastic BSC 7 demo_tx demo_sig),
      (SignedBy 1, Mint_claim_elastic BSC demo_tx demo_address 3)]"

text \<open>A pool that admits a transaction whose tags are free.\<close>

definition demo_admit :: "'acc pooled list \<Rightarrow> 'acc pooled \<Rightarrow> 'acc pooled list" where
  "demo_admit pool p =
     (if list_all (\<lambda>(c, v). list_all (\<lambda>tag. tag \<notin> set (provides v)) (provides (snd p))) pool then pool @ [p] else pool)"

lemma demo_validated:
  "n = BSC \<or> n = Ethereum \<Longrightarrow>
     validate_unsigned demo_claims demo_pooled (Claim_elastic n dest demo_tx demo_sig) = Ok (claim_tag demo_claims demo_address)"
  unfolding validate_Ok by (auto simp: demo_pooled_def insert_claim_def demo_minted_eq)

theorem pooled_claims_all_succeed_witness: "claims_succeed demo_claims demo_block demo_pooled"
  by (rule pooled_claims_all_succeed
      [where pool = "[(Claim_elastic BSC 7 demo_tx demo_sig, claim_tag demo_claims demo_address)]"])
    (simp_all add: ready_at_def demo_validated demo_block_def del: validate_unsigned.simps(1))

text \<open>
  C14. One claim per beneficiary. The tag of a claim names the recovered signer only,
  not the transaction: while a claim is pooled, a pool that keeps the incumbent of a
  tag refuses every further claim of the same beneficiary, for another transaction or
  another network too, although executing both would succeed.
\<close>

theorem second_claim_waits:
  assumes "keeps_incumbent admit" and "ready_at cfg s pool" and "c \<in> fst ` set pool"
    and "validate_unsigned cfg s d = Ok w"
    and "beneficiary s d = beneficiary s c" and "record_of d \<noteq> record_of c"
    and "ensure_none (c_origins cfg) orig = Ok ()"
  shows "admit pool (d, w) = pool \<and> claims_succeed cfg [(orig, c), (orig, d)] s"
proof -
  obtain v where v: "(c, v) \<in> set pool" using assms(3) by auto
  with assms(2) have valid: "validate_unsigned cfg s c = Ok v" by (auto simp: ready_at_def list_all_iff)
  obtain a b where c: "beneficiary s c = Some a" "v = claim_tag cfg a" "record_of c \<noteq> None"
    and d: "beneficiary s d = Some b" "w = claim_tag cfg b" "record_of d \<noteq> None"
    using valid assms(4) by (elim validated)
  have "admit pool (d, w) = pool"
    using assms(1,5) v c d unfolding keeps_incumbent_def by fastforce
  moreover have "claims_succeed cfg [(orig, c), (orig, d)] s"
    using valid c(3) d(3) assms(4,6,7) by (intro distinct_claims_succeed) auto
  ultimately show ?thesis ..
qed

theorem second_claim_waits_witness:
  "demo_admit [(Claim_elastic BSC (7 :: nat) demo_tx demo_sig, claim_tag demo_claims demo_address)]
       (Claim_elastic Ethereum 8 demo_tx demo_sig, claim_tag demo_claims demo_address) =
     [(Claim_elastic BSC 7 demo_tx demo_sig, claim_tag demo_claims demo_address)] \<and>
     claims_succeed demo_claims
       [(NoOrigin, Claim_elastic BSC 7 demo_tx demo_sig), (NoOrigin, Claim_elastic Ethereum 8 demo_tx demo_sig)] demo_pooled"
proof (rule second_claim_waits)
  show "keeps_incumbent (demo_admit :: nat pooled list \<Rightarrow> _)"
    by (auto simp: keeps_incumbent_def demo_admit_def list_all_iff)
qed (simp_all add: ready_at_def demo_validated del: validate_unsigned.simps(1),
     simp_all add: demo_pooled_def insert_claim_def demo_minted_eq)

end
