(* ===== verification/Reward_Pool.thy ===== *)
theory Reward_Pool
  imports Frame
begin

text \<open>
  The reward-pool pallet, \<^verbatim>\<open>modules/reward-pool/src/lib.rs\<close> with the traits
  \<open>RewardHandler\<close> (\<^verbatim>\<open>modules/reward-pool/src/traits.rs\<close>) and \<open>RewardPoolOps\<close>
  (\<^verbatim>\<open>modules/traits/src/reward_pool_ops.rs\<close>): shares in a pool earn native currency;
  an account that joins late borrows a virtual reward so that the price of a share
  does not change.

  The two storage maps, the current block and the ledger of the token pallet are
  the fields of \<open>pool_state\<close>. Every operation is a computation that keeps its
  writes when it fails, as in the code, which asks its callers for a storage
  transaction; \<open>pool_step\<close> runs each operation inside one. \<open>pool_config\<close> holds the
  associated types: the reward handler, the token pallet, the sub-account
  derivation, and the fixed-point operations of \<open>FixedU128\<close>.
\<close>

section \<open>Data\<close>

record pool_info =
  total_shares :: share
  total_rewards :: balance
  total_rewards_useable :: balance
  last_update_block :: block_number

record pool_account_info =
  shares :: share
  borrowed_amount :: balance

record ('pool, 'acc, 'l) pool_state =
  Pools :: "('pool, pool_info) smap"
  PoolAccountData :: "'pool \<Rightarrow> 'acc \<rightharpoonup> pool_account_info"
  current_block :: block_number
  funds :: 'l

text \<open>The method of the \<open>RewardHandler\<close> trait.\<close>

type_synonym 'pool reward_handler = "'pool \<Rightarrow> share \<Rightarrow> block_number \<Rightarrow> block_number \<Rightarrow> balance"

record ('pool, 'acc, 'l, 'f) pool_config =
  p_handler :: "'pool reward_handler"
  p_existential_reward :: balance
  p_sub_account :: "'pool \<Rightarrow> 'acc"
  p_native_currency :: currency_id
  p_update_balance :: "currency_id \<Rightarrow> 'acc \<Rightarrow> int \<Rightarrow> ('l, unit, dispatch_error) comp"
  p_transfer :: "currency_id \<Rightarrow> 'acc \<Rightarrow> 'acc \<Rightarrow> balance \<Rightarrow> ('l, unit, dispatch_error) comp"
  p_from_rational :: "u128 \<Rightarrow> u128 \<Rightarrow> 'f option"
  p_mul_int :: "'f \<Rightarrow> u128 \<Rightarrow> u128 option"
  p_fixed_zero :: 'f

section \<open>Storage access\<close>

definition default_pool :: pool_info where
  "default_pool = \<lparr>total_shares = 0, total_rewards = 0, total_rewards_useable = 0, last_update_block = 0\<rparr>"

definition default_account :: pool_account_info where
  "default_account = \<lparr>shares = 0, borrowed_amount = 0\<rparr>"

definition get_pool_info :: "('pool, 'acc, 'l) pool_state \<Rightarrow> 'pool \<Rightarrow> pool_info" where
  "get_pool_info s p = (case map_of (Pools s) p of Some i \<Rightarrow> i | None \<Rightarrow> default_pool)"

definition get_pool_account_info ::
  "('pool, 'acc, 'l) pool_state \<Rightarrow> 'pool \<Rightarrow> 'acc \<Rightarrow> pool_account_info" where
  "get_pool_account_info s p a =
     (case PoolAccountData s p a of Some i \<Rightarrow> i | None \<Rightarrow> default_account)"

definition put_pool ::
  "'pool \<Rightarrow> pool_info \<Rightarrow> ('pool, 'acc, 'l) pool_state \<Rightarrow> ('pool, 'acc, 'l) pool_state" where
  "put_pool p i s = s\<lparr>Pools := smap_insert p i (Pools s)\<rparr>"

definition put_account ::
  "'pool \<Rightarrow> 'acc \<Rightarrow> pool_account_info \<Rightarrow> ('pool, 'acc, 'l) pool_state \<Rightarrow>
   ('pool, 'acc, 'l) pool_state" where
  "put_account p a i s =
     s\<lparr>PoolAccountData := (PoolAccountData s)(p := (PoolAccountData s p)(a \<mapsto> i))\<rparr>"

definition on_funds ::
  "('l, 'a, 'e) comp \<Rightarrow> (('pool, 'acc, 'l) pool_state, 'a, 'e) comp" where
  "on_funds = zoom funds (\<lambda>l s. s\<lparr>funds := l\<rparr>)"

section \<open>Calculations\<close>

definition calc_reward_by_shares ::
  "('pool, 'acc, 'l, 'f) pool_config \<Rightarrow> pool_info \<Rightarrow> share \<Rightarrow> (balance, dispatch_error) result" where
  "calc_reward_by_shares cfg info amount =
     (if total_shares info = 0 \<or> amount = 0 then Ok 0
      else if amount > total_shares info then Err (RewardPoolError InsufficientShares)
      else result_bind (ok_or (Option.bind (p_from_rational cfg amount (total_shares info))
                                (\<lambda>n. p_mul_int cfg n (total_rewards info)))
                          (RewardPoolError RewardCaculationError)) (\<lambda>reward_with_virtual.
           if reward_with_virtual > total_rewards info
           then Err (RewardPoolError RewardCaculationError)
           else Ok reward_with_virtual))"

definition get_rewards_by_account_shares ::
  "('pool, 'acc, 'l, 'f) pool_config \<Rightarrow> pool_info \<Rightarrow> pool_account_info \<Rightarrow> share \<Rightarrow>
   (pool_info \<times> pool_account_info \<times> balance, dispatch_error) result" where
  "get_rewards_by_account_shares cfg info acc amount =
     (if amount \<le> 0 \<or> total_shares info < amount \<or> shares acc < amount
      then Err (RewardPoolError InsufficientShares)
      else
        result_bind (calc_reward_by_shares cfg info amount) (\<lambda>reward_with_virtual.
        result_bind (ok_or (Option.bind (p_from_rational cfg amount (shares acc))
                              (\<lambda>n. p_mul_int cfg n (borrowed_amount acc)))
                       (RewardPoolError RewardCaculationError)) (\<lambda>account_balance_to_remove.
        result_bind (ok_or (checked_sub (borrowed_amount acc) account_balance_to_remove)
                       (RewardPoolError RewardCaculationError)) (\<lambda>new_balance.
        result_bind (ok_or (checked_sub reward_with_virtual account_balance_to_remove)
                       (RewardPoolError RewardCaculationError)) (\<lambda>reward.
        if reward > total_rewards_useable info \<or> new_balance > borrowed_amount acc
        then Err (RewardPoolError RewardCaculationError)
        else
          result_bind (ok_or (checked_sub (total_shares info) amount)
                         (RewardPoolError InsufficientShares)) (\<lambda>new_total_shares.
          result_bind
            (if reward \<le> p_existential_reward cfg
             then Ok (0, total_rewards info, total_rewards_useable info)
             else
               result_bind (ok_or (checked_sub (total_rewards info) reward_with_virtual)
                              (RewardPoolError RewardCaculationError)) (\<lambda>rewards.
               result_bind (ok_or (checked_sub (total_rewards_useable info) reward)
                              (RewardPoolError RewardCaculationError)) (\<lambda>rewards_useable.
               Ok (reward, rewards, rewards_useable)))) (\<lambda>(paid_reward, rewards, rewards_useable).
          result_bind (ok_or (checked_sub (shares acc) amount)
                         (RewardPoolError RewardCaculationError)) (\<lambda>new_shares.
          Ok (info\<lparr>total_rewards := rewards, total_rewards_useable := rewards_useable,
                total_shares := new_total_shares\<rparr>,
              acc\<lparr>shares := new_shares, borrowed_amount := new_balance\<rparr>,
              paid_reward)))))))))"

definition calc_pool_reward_at_block ::
  "('pool, 'acc, 'l, 'f) pool_config \<Rightarrow> 'pool \<Rightarrow> pool_info \<Rightarrow> block_number \<Rightarrow>
   (pool_info \<times> balance, dispatch_error) result" where
  "calc_pool_reward_at_block cfg p info cur_block =
     (if cur_block \<le> last_update_block info then Ok (info, 0)
      else
        (let reward = p_handler cfg p (total_shares info) (last_update_block info) cur_block;
             new_info = info\<lparr>last_update_block := cur_block\<rparr>
         in if reward = 0 then Ok (new_info, 0)
            else
              result_bind (ok_or (checked_add (total_rewards new_info) reward)
                             (RewardPoolError RewardCaculationError)) (\<lambda>rewards.
              result_bind (ok_or (checked_add (total_rewards_useable new_info) reward)
                             (RewardPoolError RewardCaculationError)) (\<lambda>rewards_useable.
              Ok (new_info\<lparr>total_rewards := rewards, total_rewards_useable := rewards_useable\<rparr>,
                  reward)))))"

definition calc_pool_reward ::
  "('pool, 'acc, 'l, 'f) pool_config \<Rightarrow> ('pool, 'acc, 'l) pool_state \<Rightarrow> 'pool \<Rightarrow>
   (pool_info \<times> balance, dispatch_error) result" where
  "calc_pool_reward cfg s p =
     calc_pool_reward_at_block cfg p (get_pool_info s p) (current_block s)"

section \<open>Operations\<close>

definition update_pool_reward ::
  "('pool, 'acc, 'l, 'f) pool_config \<Rightarrow> 'pool \<Rightarrow>
   (('pool, 'acc, 'l) pool_state, pool_info, dispatch_error) comp" where
  "update_pool_reward cfg p =
     and_then (gets id) (\<lambda>st.
     and_then (lift (calc_pool_reward cfg st p)) (\<lambda>(info, balance_change).
     and_then
       (if balance_change \<noteq> 0
        then on_funds (p_update_balance cfg (p_native_currency cfg) (p_sub_account cfg p)
                         (saturated_amount balance_change))
        else ok ()) (\<lambda>_.
     and_then (modify (put_pool p info)) (\<lambda>_.
     ok info))))"

definition add_share ::
  "('pool, 'acc, 'l, 'f) pool_config \<Rightarrow> 'acc \<Rightarrow> 'pool \<Rightarrow> share \<Rightarrow>
   (('pool, 'acc, 'l) pool_state, share, dispatch_error) comp" where
  "add_share cfg who p amount =
     and_then (ensure (amount \<noteq> 0) (RewardPoolError InvalidShareAmount)) (\<lambda>_.
     and_then (update_pool_reward cfg p) (\<lambda>info.
     and_then (lift (if total_shares info = 0 then Ok (p_fixed_zero cfg)
                     else ok_or (p_from_rational cfg (total_rewards info) (total_shares info))
                            (RewardPoolError RewardCaculationError))) (\<lambda>price.
     and_then (lift (ok_or (p_mul_int cfg price amount)
                       (RewardPoolError RewardCaculationError))) (\<lambda>virtual_reward_amount.
     and_then (lift (ok_or (checked_add (total_shares info) amount)
                       (RewardPoolError RewardCaculationError))) (\<lambda>new_shares.
     and_then (lift (ok_or (checked_add (total_rewards info) virtual_reward_amount)
                       (RewardPoolError RewardCaculationError))) (\<lambda>new_rewards.
     and_then (modify (put_pool p (info\<lparr>total_shares := new_shares, total_rewards := new_rewards\<rparr>))) (\<lambda>_.
     and_then (gets (\<lambda>s. get_pool_account_info s p who)) (\<lambda>data.
     and_then (lift (ok_or (checked_add (shares data) amount)
                       (RewardPoolError RewardCaculationError))) (\<lambda>acc_shares.
     and_then (lift (ok_or (checked_add (borrowed_amount data) virtual_reward_amount)
                       (RewardPoolError RewardCaculationError))) (\<lambda>acc_borrowed.
     and_then (modify (put_account p who \<lparr>shares = acc_shares, borrowed_amount = acc_borrowed\<rparr>)) (\<lambda>_.
     ok acc_shares)))))))))))"

definition remove_share ::
  "('pool, 'acc, 'l, 'f) pool_config \<Rightarrow> 'acc \<Rightarrow> 'pool \<Rightarrow> share \<Rightarrow>
   (('pool, 'acc, 'l) pool_state, share, dispatch_error) comp" where
  "remove_share cfg who p amount =
     and_then (update_pool_reward cfg p) (\<lambda>info.
     and_then (gets (\<lambda>s. get_pool_account_info s p who)) (\<lambda>acc.
     and_then (ensure (\<not> shares acc < amount) (RewardPoolError InsufficientShares)) (\<lambda>_.
     and_then (lift (get_rewards_by_account_shares cfg info acc amount)) (\<lambda>(new_info, new_acc, reward).
     and_then (modify (put_pool p new_info)) (\<lambda>_.
     and_then (modify (put_account p who new_acc)) (\<lambda>_.
     and_then (on_funds (p_transfer cfg (p_native_currency cfg) (p_sub_account cfg p) who reward)) (\<lambda>_.
     ok (shares new_acc))))))))"

definition get_account_shares :: "('pool, 'acc, 'l) pool_state \<Rightarrow> 'acc \<Rightarrow> 'pool \<Rightarrow> share" where
  "get_account_shares s who p = shares (get_pool_account_info s p who)"

definition get_accumlated_rewards ::
  "('pool, 'acc, 'l, 'f) pool_config \<Rightarrow> ('pool, 'acc, 'l) pool_state \<Rightarrow> 'acc \<Rightarrow> 'pool \<Rightarrow> balance" where
  "get_accumlated_rewards cfg s who p =
     (let acc = get_pool_account_info s p who
      in if shares acc = 0 then 0
         else case result_bind (calc_pool_reward cfg s p) (\<lambda>(info, _).
                result_bind (get_rewards_by_account_shares cfg info acc (shares acc)) (\<lambda>(_, _, reward).
                Ok reward))
              of Ok reward \<Rightarrow> reward | Err e \<Rightarrow> 0)"

definition claim_rewards ::
  "('pool, 'acc, 'l, 'f) pool_config \<Rightarrow> 'acc \<Rightarrow> 'pool \<Rightarrow>
   (('pool, 'acc, 'l) pool_state, balance, dispatch_error) comp" where
  "claim_rewards cfg who p =
     and_then (update_pool_reward cfg p) (\<lambda>info.
     and_then (gets (\<lambda>s. get_pool_account_info s p who)) (\<lambda>acc.
     if shares acc = 0 then ok 0
     else
       and_then (lift (calc_reward_by_shares cfg info (shares acc))) (\<lambda>reward_with_virtual.
       and_then (lift (ok_or (checked_sub reward_with_virtual (borrowed_amount acc))
                         (RewardPoolError RewardCaculationError))) (\<lambda>actual_reward.
       if actual_reward < p_existential_reward cfg then ok 0
       else
         and_then (lift (ok_or (checked_sub (total_rewards_useable info) actual_reward)
                           (RewardPoolError RewardCaculationError))) (\<lambda>rewards_useable.
         and_then (ensure (\<not> borrowed_amount acc > reward_with_virtual)
                     (RewardPoolError RewardCaculationError)) (\<lambda>_.
         and_then (on_funds (p_transfer cfg (p_native_currency cfg) (p_sub_account cfg p) who
                               actual_reward)) (\<lambda>_.
         and_then (modify (\<lambda>s. put_pool p ((get_pool_info s p)
                      \<lparr>total_rewards_useable := rewards_useable\<rparr>) s)) (\<lambda>_.
         and_then (modify (\<lambda>s. put_account p who ((get_pool_account_info s p who)
                      \<lparr>borrowed_amount := reward_with_virtual\<rparr>) s)) (\<lambda>_.
         ok actual_reward)))))))))"

definition get_all_pools ::
  "('pool, 'acc, 'l, 'f) pool_config \<Rightarrow> ('pool, 'acc, 'l) pool_state \<Rightarrow>
   ('pool \<times> share \<times> balance) list" where
  "get_all_pools cfg s =
     map (\<lambda>(p, info).
       case calc_pool_reward_at_block cfg p info (current_block s) of
         Ok (new_info, _) \<Rightarrow> (p, total_shares new_info, total_rewards_useable new_info)
       | Err e \<Rightarrow> (p, total_shares info, 0)) (Pools s)"

section \<open>The interface to other pallets\<close>

text \<open>The trait \<open>RewardPoolOps\<close>, and its implementation by this pallet.\<close>

record ('s, 'acc, 'pool) reward_pool_ops =
  rp_add_share :: "'acc \<Rightarrow> 'pool \<Rightarrow> share \<Rightarrow> ('s, share, dispatch_error) comp"
  rp_remove_share :: "'acc \<Rightarrow> 'pool \<Rightarrow> share \<Rightarrow> ('s, share, dispatch_error) comp"
  rp_get_account_shares :: "'s \<Rightarrow> 'acc \<Rightarrow> 'pool \<Rightarrow> share"
  rp_get_accumlated_rewards :: "'s \<Rightarrow> 'acc \<Rightarrow> 'pool \<Rightarrow> balance"
  rp_claim_rewards :: "'acc \<Rightarrow> 'pool \<Rightarrow> ('s, balance, dispatch_error) comp"
  rp_get_all_pools :: "'s \<Rightarrow> ('pool \<times> share \<times> balance) list"

definition reward_pool_impl ::
  "('pool, 'acc, 'l, 'f) pool_config \<Rightarrow> (('pool, 'acc, 'l) pool_state, 'acc, 'pool) reward_pool_ops" where
  "reward_pool_impl cfg =
     \<lparr>rp_add_share = add_share cfg, rp_remove_share = remove_share cfg,
      rp_get_account_shares = get_account_shares,
      rp_get_accumlated_rewards = get_accumlated_rewards cfg,
      rp_claim_rewards = claim_rewards cfg, rp_get_all_pools = get_all_pools cfg\<rparr>"

section \<open>The pallet as a state machine\<close>

text \<open>
  The operations have no dispatchable calls: other pallets call them, inside a
  storage transaction. A new block sets the block number.
\<close>

datatype ('pool, 'acc) pool_label =
    Add_share 'acc 'pool share
  | Remove_share 'acc 'pool share
  | Claim_rewards 'acc 'pool
  | New_block block_number

fun pool_step ::
  "('pool, 'acc, 'l, 'f) pool_config \<Rightarrow> ('pool, 'acc) pool_label \<Rightarrow>
   ('pool, 'acc, 'l) pool_state \<Rightarrow> ('pool, 'acc, 'l) pool_state" where
  "pool_step cfg (Add_share who p amount) s = fst (transactional (add_share cfg who p amount) s)"
| "pool_step cfg (Remove_share who p amount) s = fst (transactional (remove_share cfg who p amount) s)"
| "pool_step cfg (Claim_rewards who p) s = fst (transactional (claim_rewards cfg who p) s)"
| "pool_step cfg (New_block b) s = s\<lparr>current_block := b\<rparr>"

definition pool_genesis :: "'l \<Rightarrow> ('pool, 'acc, 'l) pool_state" where
  "pool_genesis l = \<lparr>Pools = [], PoolAccountData = (\<lambda>_. Map.empty), current_block = 0, funds = l\<rparr>"

section \<open>Specification functions\<close>

definition held_shares :: "('pool, 'acc, 'l) pool_state \<Rightarrow> 'pool \<Rightarrow> nat" where
  "held_shares s p = map_total (\<lambda>i. unat (shares i)) (PoolAccountData s p)"

definition borrowed :: "('pool, 'acc, 'l) pool_state \<Rightarrow> 'pool \<Rightarrow> nat" where
  "borrowed s p = map_total (\<lambda>i. unat (borrowed_amount i)) (PoolAccountData s p)"

text \<open>The books of one pool, as numbers and over a state.\<close>

definition pool_books :: "('pool, 'acc, 'l) pool_state \<Rightarrow> bool" where
  "pool_books s \<longleftrightarrow>
     distinct (map fst (Pools s)) \<and>
     (\<forall>p. finite (dom (PoolAccountData s p)) \<and>
          held_shares s p = unat (total_shares (get_pool_info s p)) \<and>
          unat (total_rewards_useable (get_pool_info s p)) + borrowed s p
            \<le> unat (total_rewards (get_pool_info s p)))"

text \<open>
  Documented behaviour of the token pallet on the native currency, with \<open>bal\<close>
  reading balances: a successful update adds its non-negative amount to one
  account, a successful transfer moves its amount between two accounts.
\<close>

definition token_updates ::
  "('l \<Rightarrow> 'acc \<Rightarrow> balance) \<Rightarrow> ('pool, 'acc, 'l, 'f) pool_config \<Rightarrow> bool" where
  "token_updates bal cfg \<longleftrightarrow>
     (\<forall>l l' a n. p_update_balance cfg (p_native_currency cfg) a n l = (l', Ok ()) \<longrightarrow> 0 \<le> n \<longrightarrow>
        int (unat (bal l' a)) = int (unat (bal l a)) + n \<and> (\<forall>b. b \<noteq> a \<longrightarrow> bal l' b = bal l b))"

definition token_transfers ::
  "('l \<Rightarrow> 'acc \<Rightarrow> balance) \<Rightarrow> ('pool, 'acc, 'l, 'f) pool_config \<Rightarrow> bool" where
  "token_transfers bal cfg \<longleftrightarrow>
     (\<forall>l l' a b v. p_transfer cfg (p_native_currency cfg) a b v l = (l', Ok ()) \<longrightarrow> a \<noteq> b \<longrightarrow>
        unat (bal l a) = unat (bal l' a) + unat v \<and> unat (bal l' b) = unat (bal l b) + unat v \<and>
        (\<forall>c. c \<noteq> a \<longrightarrow> c \<noteq> b \<longrightarrow> bal l' c = bal l c))"

text \<open>The sub-account of each pool holds at least the rewards that can be withdrawn.\<close>

definition solvent ::
  "('l \<Rightarrow> 'acc \<Rightarrow> balance) \<Rightarrow> ('pool, 'acc, 'l, 'f) pool_config \<Rightarrow>
   ('pool, 'acc, 'l) pool_state \<Rightarrow> bool" where
  "solvent bal cfg s \<longleftrightarrow>
     (\<forall>p. unat (total_rewards_useable (get_pool_info s p)) \<le> unat (bal (funds s) (p_sub_account cfg p)))"

text \<open>The account that acts in a step.\<close>

fun actor_of :: "('pool, 'acc) pool_label \<Rightarrow> 'acc option" where
  "actor_of (Add_share who p amount) = Some who"
| "actor_of (Remove_share who p amount) = Some who"
| "actor_of (Claim_rewards who p) = Some who"
| "actor_of (New_block b) = None"

text \<open>Documented behaviour of the fixed-point numbers: the ratio of a number to itself is one.\<close>

definition unit_ratio_exact :: "('pool, 'acc, 'l, 'f) pool_config \<Rightarrow> bool" where
  "unit_ratio_exact cfg \<longleftrightarrow>
     (\<forall>n m. n \<noteq> 0 \<longrightarrow> Option.bind (p_from_rational cfg n n) (\<lambda>f. p_mul_int cfg f m) = Some m)"

section \<open>A configuration for witnesses\<close>

definition demo_from_rational :: "u128 \<Rightarrow> u128 \<Rightarrow> nat option" where
  "demo_from_rational n d =
     (if d = 0 then None
      else let v = unat n * 10 ^ 18 div unat d in if v < 2 ^ 128 then Some v else None)"

definition demo_mul_int :: "nat \<Rightarrow> u128 \<Rightarrow> u128 option" where
  "demo_mul_int f m = (let v = f * unat m div 10 ^ 18 in if v < 2 ^ 128 then Some (of_nat v) else None)"

definition demo_update_balance ::
  "currency_id \<Rightarrow> nat \<Rightarrow> int \<Rightarrow> (nat book, unit, dispatch_error) comp" where
  "demo_update_balance c a n l =
     (let v = int (unat (fst l a)) + n
      in if 0 \<le> v \<and> v < 2 ^ 128 then (((fst l)(a := of_nat (nat v)), snd l), Ok ())
         else (l, Err (ForeignError 2)))"

definition demo_transfer ::
  "currency_id \<Rightarrow> nat \<Rightarrow> nat \<Rightarrow> balance \<Rightarrow> (nat book, unit, dispatch_error) comp" where
  "demo_transfer c a b v = book_transfer a b v AllowDeath"

text \<open>One hundred units per block, to pools with shares; the pool's account is 1000 plus its number.\<close>

definition demo_pool :: "(nat, nat, nat book, nat) pool_config" where
  "demo_pool =
     \<lparr>p_handler = (\<lambda>p sh last now. if sh = 0 then 0 else 100 * of_nat (unat now - unat last)),
      p_existential_reward = 10, p_sub_account = (\<lambda>p. 1000 + p), p_native_currency = CLV,
      p_update_balance = demo_update_balance, p_transfer = demo_transfer,
      p_from_rational = demo_from_rational, p_mul_int = demo_mul_int, p_fixed_zero = 0\<rparr>"

text \<open>Account 1 holds the pool for ten blocks; account 2 then enters and leaves in one block.\<close>

definition demo_visit :: "(nat, nat) pool_label list" where
  "demo_visit = [New_block 2, Add_share 1 0 50, New_block 12, Add_share 2 0 50, Remove_share 2 0 50]"

definition demo_visited :: "(nat, nat, nat book) pool_state" where
  "demo_visited = run (pool_step demo_pool) demo_visit (pool_genesis ((\<lambda>_. 0), 0))"

definition demo_earned :: "(nat, nat, nat book) pool_state" where
  "demo_earned = run (pool_step demo_pool) (take 3 demo_visit) (pool_genesis ((\<lambda>_. 0), 0))"

text \<open>Account 2 joins a pool of two shares with one, at a price of 500 per share.\<close>

definition demo_newcomer :: "(nat, nat, nat book) pool_state" where
  "demo_newcomer = run (pool_step demo_pool)
     [New_block 2, Add_share 1 0 2, New_block 12, Add_share 2 0 1] (pool_genesis ((\<lambda>_. 0), 0))"

section \<open>What the calculations return\<close>

lemma calc_reward_by_shares_Ok:
  "calc_reward_by_shares cfg info amount = Ok r \<Longrightarrow>
     r \<le> total_rewards info \<and> (amount \<noteq> 0 \<longrightarrow> total_shares info \<noteq> 0 \<longrightarrow> amount \<le> total_shares info)"
  by (auto simp: calc_reward_by_shares_def not_less split: if_splits)

lemma calc_at_block_Ok:
  assumes "calc_pool_reward_at_block cfg p info b = Ok (info', r)"
  shows "total_shares info' = total_shares info \<and>
    unat (total_rewards info') = unat (total_rewards info) + unat r \<and>
    unat (total_rewards_useable info') = unat (total_rewards_useable info) + unat r \<and>
    last_update_block info' = max b (last_update_block info)"
  using assms by (auto simp: calc_pool_reward_at_block_def Let_def word_nat max_def split: if_splits)

lemma calc_at_block_updated:
  "b \<le> last_update_block info \<Longrightarrow> calc_pool_reward_at_block cfg p info b = Ok (info, 0)"
  by (simp add: calc_pool_reward_at_block_def)

text \<open>
  Removing shares moves the same amounts out of the account and the pool, except
  that a reward too small to be paid stays in the pool's total.
\<close>

lemma get_rewards_Ok:
  assumes "get_rewards_by_account_shares cfg info acc amount = Ok (info', acc', r)"
  shows "amount \<noteq> 0 \<and> unat (total_shares info) = unat (total_shares info') + unat amount \<and>
    unat (shares acc) = unat (shares acc') + unat amount \<and>
    unat (total_rewards_useable info) = unat (total_rewards_useable info') + unat r \<and>
    borrowed_amount acc' \<le> borrowed_amount acc \<and>
    (if r = 0 then total_rewards info' = total_rewards info
     else unat (total_rewards info) = unat (total_rewards info') + unat r +
       (unat (borrowed_amount acc) - unat (borrowed_amount acc'))) \<and>
    last_update_block info' = last_update_block info"
  using assms
  by (auto simp: get_rewards_by_account_shares_def word_nat word_le_nat_alt word_less_nat_alt
      split: if_splits)

section \<open>What each operation does when it succeeds\<close>

lemma put_simps [simp]:
  "get_pool_info (put_pool p i s) q = (if q = p then i else get_pool_info s q)"
  "get_pool_info (put_account p a j s) q = get_pool_info s q"
  "PoolAccountData (put_pool p i s) = PoolAccountData s"
  "PoolAccountData (put_account p a j s) =
     (PoolAccountData s)(p := (PoolAccountData s p)(a \<mapsto> j))"
  "funds (put_pool p i s) = funds s" "funds (put_account p a j s) = funds s"
  "current_block (put_pool p i s) = current_block s"
  "current_block (put_account p a j s) = current_block s"
  "Pools (put_account p a j s) = Pools s"
  "Pools (put_pool p i s) = smap_insert p i (Pools s)"
  by (simp_all add: get_pool_info_def put_pool_def put_account_def)

lemma funds_simps [simp]:
  "get_pool_info (s\<lparr>funds := l\<rparr>) q = get_pool_info s q"
  "get_pool_account_info (s\<lparr>funds := l\<rparr>) q a = get_pool_account_info s q a"
  "put_pool p i (s\<lparr>funds := l\<rparr>) = (put_pool p i s)\<lparr>funds := l\<rparr>"
  "put_account p a j (s\<lparr>funds := l\<rparr>) = (put_account p a j s)\<lparr>funds := l\<rparr>"
  by (simp_all add: get_pool_info_def get_pool_account_info_def put_pool_def put_account_def)

lemma get_account_put [simp]:
  "get_pool_account_info (put_pool p i s) q a = get_pool_account_info s q a"
  "get_pool_account_info (put_account p b j s) q a =
     (if q = p \<and> a = b then j else get_pool_account_info s q a)"
  by (simp_all add: get_pool_account_info_def)

lemma on_funds_eq [simp]:
  "on_funds m s = (t, r) \<longleftrightarrow> (\<exists>l. m (funds s) = (l, r) \<and> t = s\<lparr>funds := l\<rparr>)"
  by (simp add: on_funds_def)

lemma update_pool_reward_Ok:
  "update_pool_reward cfg p s = (t, Ok info) \<longleftrightarrow>
     (\<exists>r l. calc_pool_reward cfg s p = Ok (info, r) \<and>
        (if r = 0 then l = funds s
         else p_update_balance cfg (p_native_currency cfg) (p_sub_account cfg p)
                (saturated_amount r) (funds s) = (l, Ok ())) \<and>
        t = (put_pool p info s)\<lparr>funds := l\<rparr>)"
  by (fastforce simp: update_pool_reward_def split: if_splits)

lemma add_share_Ok:
  "add_share cfg who p amount s = (t, Ok n) \<Longrightarrow>
     \<exists>u info (v :: balance) S R b. amount \<noteq> 0 \<and> update_pool_reward cfg p s = (u, Ok info) \<and>
       unat S = unat (total_shares info) + unat amount \<and>
       unat R = unat (total_rewards info) + unat v \<and>
       unat n = unat (shares (get_pool_account_info u p who)) + unat amount \<and>
       unat b = unat (borrowed_amount (get_pool_account_info u p who)) + unat v \<and>
       t = put_account p who \<lparr>shares = n, borrowed_amount = b\<rparr>
             (put_pool p (info\<lparr>total_shares := S, total_rewards := R\<rparr>) u)"
  unfolding add_share_def by (clarsimp simp: word_nat) (intro exI conjI, (assumption | rule refl)+)

lemma remove_share_Ok:
  "remove_share cfg who p amount s = (t, Ok n) \<longleftrightarrow>
     (\<exists>u info info' acc' r l. update_pool_reward cfg p s = (u, Ok info) \<and>
        get_rewards_by_account_shares cfg info (get_pool_account_info u p who) amount =
          Ok (info', acc', r) \<and> n = shares acc' \<and> amount \<le> shares (get_pool_account_info u p who) \<and>
        p_transfer cfg (p_native_currency cfg) (p_sub_account cfg p) who r (funds u) = (l, Ok ()) \<and>
        t = (put_account p who acc' (put_pool p info' u))\<lparr>funds := l\<rparr>)"
  by (fastforce simp: remove_share_def not_less)

lemma claim_rewards_Ok:
  "claim_rewards cfg who p s = (t, Ok r) \<longleftrightarrow>
     (\<exists>u info. update_pool_reward cfg p s = (u, Ok info) \<and>
        (let acc = get_pool_account_info u p who in
         if shares acc = 0 then t = u \<and> r = 0
         else (\<exists>rv a. calc_reward_by_shares cfg info (shares acc) = Ok rv \<and>
                checked_sub rv (borrowed_amount acc) = Some a \<and>
                (if a < p_existential_reward cfg then t = u \<and> r = 0
                 else (\<exists>x l. checked_sub (total_rewards_useable info) a = Some x \<and>
                   p_transfer cfg (p_native_currency cfg) (p_sub_account cfg p) who a (funds u) = (l, Ok ()) \<and>
                   r = a \<and>
                   t = (put_account p who (acc\<lparr>borrowed_amount := rv\<rparr>)
                         (put_pool p ((get_pool_info u p)\<lparr>total_rewards_useable := x\<rparr>) u))\<lparr>funds := l\<rparr>)))))"
  by (fastforce simp: claim_rewards_def Let_def checked_sub_def word_less_nat_alt word_le_nat_alt not_less
      split: if_splits)

section \<open>The books of a pool\<close>

lemma account_entry:
  "unat (shares (get_pool_account_info s p a)) =
     (case PoolAccountData s p a of None \<Rightarrow> 0 | Some i \<Rightarrow> unat (shares i))"
  "unat (borrowed_amount (get_pool_account_info s p a)) =
     (case PoolAccountData s p a of None \<Rightarrow> 0 | Some i \<Rightarrow> unat (borrowed_amount i))"
  by (auto simp: get_pool_account_info_def default_account_def split: option.splits)

lemma held_put_account:
  assumes "finite (dom (PoolAccountData s p))"
  shows "held_shares (put_account p a i s) p + unat (shares (get_pool_account_info s p a)) =
      held_shares s p + unat (shares i)"
    and "borrowed (put_account p a i s) p + unat (borrowed_amount (get_pool_account_info s p a)) =
      borrowed s p + unat (borrowed_amount i)"
  using map_total_upd [OF assms, of "\<lambda>i. unat (shares i)" a i]
    map_total_upd [OF assms, of "\<lambda>i. unat (borrowed_amount i)" a i]
  by (simp_all add: held_shares_def borrowed_def account_entry)

lemma held_put_other [simp]:
  "q \<noteq> p \<Longrightarrow> held_shares (put_account p a i s) q = held_shares s q"
  "q \<noteq> p \<Longrightarrow> borrowed (put_account p a i s) q = borrowed s q"
  "held_shares (put_pool p j s) q = held_shares s q"
  "borrowed (put_pool p j s) q = borrowed s q"
  "held_shares (s\<lparr>funds := l\<rparr>) q = held_shares s q"
  "borrowed (s\<lparr>funds := l\<rparr>) q = borrowed s q"
  by (simp_all add: held_shares_def borrowed_def)

lemma entry_le_held:
  assumes "pool_books s"
  shows "unat (shares (get_pool_account_info s p a)) \<le> held_shares s p \<and>
    unat (borrowed_amount (get_pool_account_info s p a)) \<le> borrowed s p"
proof (cases "PoolAccountData s p a")
  case (Some i)
  have "finite (dom (PoolAccountData s p))" using assms by (simp add: pool_books_def)
  from map_total_ge [OF this Some, of "\<lambda>i. unat (shares i)"]
    map_total_ge [OF this Some, of "\<lambda>i. unat (borrowed_amount i)"] Some
  show ?thesis by (simp add: account_entry held_shares_def borrowed_def)
qed (simp add: account_entry)

lemma pool_books_funds [simp]: "pool_books (s\<lparr>funds := l\<rparr>) = pool_books s"
  by (simp add: pool_books_def)

lemma pool_books_genesis: "pool_books (pool_genesis l)"
  by (simp add: pool_books_def pool_genesis_def held_shares_def borrowed_def get_pool_info_def
      default_pool_def)

lemma pool_books_update:
  assumes "pool_books s" and "update_pool_reward cfg p s = (t, Ok info)"
  shows "pool_books t \<and> get_pool_info t p = info \<and> PoolAccountData t = PoolAccountData s \<and>
    current_block t = current_block s \<and> current_block s \<le> last_update_block info"
proof -
  from assms(2) obtain r l where c: "calc_pool_reward_at_block cfg p (get_pool_info s p)
      (current_block s) = Ok (info, r)" and t: "t = (put_pool p info s)\<lparr>funds := l\<rparr>"
    by (auto simp: update_pool_reward_Ok calc_pool_reward_def)
  from calc_at_block_Ok [OF c] assms(1) show ?thesis
    unfolding t by (auto simp: pool_books_def max_def)
qed

text \<open>One account and its pool change together.\<close>

lemma pool_books_move:
  assumes "pool_books s"
    and "unat (shares i) + unat (total_shares (get_pool_info s p)) =
      unat (shares (get_pool_account_info s p a)) + unat (total_shares j)"
    and "unat (total_rewards_useable j) + unat (borrowed_amount i) + unat (total_rewards (get_pool_info s p)) \<le>
      unat (total_rewards j) + unat (total_rewards_useable (get_pool_info s p)) +
      unat (borrowed_amount (get_pool_account_info s p a))"
  shows "pool_books (put_account p a i (put_pool p j s))"
proof -
  let ?t = "put_account p a i (put_pool p j s)"
  from assms(1) have fin: "finite (dom (PoolAccountData (put_pool p j s) p))"
    by (simp add: pool_books_def)
  have books: "held_shares s p = unat (total_shares (get_pool_info s p))"
    "unat (total_rewards_useable (get_pool_info s p)) + borrowed s p
      \<le> unat (total_rewards (get_pool_info s p))"
    using assms(1) by (auto simp: pool_books_def)
  have "held_shares ?t p = unat (total_shares j)"
    "unat (total_rewards_useable j) + borrowed ?t p \<le> unat (total_rewards j)"
    using held_put_account [OF fin, of a i] books assms(2,3) by auto
  with assms(1) show ?thesis by (auto simp: pool_books_def)
qed

lemma pool_books_add:
  assumes "pool_books s" and "add_share cfg who p amount s = (t, Ok n)"
  shows "pool_books t"
proof -
  from add_share_Ok [OF assms(2)] obtain u info S R b and v :: balance where
    u: "update_pool_reward cfg p s = (u, Ok info)" and eqs: "unat S = unat (total_shares info) + unat amount"
    "unat R = unat (total_rewards info) + unat v"
    "unat n = unat (shares (get_pool_account_info u p who)) + unat amount"
    "unat b = unat (borrowed_amount (get_pool_account_info u p who)) + unat v"
    and t: "t = put_account p who \<lparr>shares = n, borrowed_amount = b\<rparr>
      (put_pool p (info\<lparr>total_shares := S, total_rewards := R\<rparr>) u)" by blast
  from pool_books_update [OF assms(1) u] have "pool_books u" "get_pool_info u p = info" by auto
  then show ?thesis unfolding t by (intro pool_books_move) (auto simp: eqs)
qed

lemma pool_books_remove:
  assumes "pool_books s" and "remove_share cfg who p amount s = (t, Ok n)"
  shows "pool_books t"
proof -
  from assms(2) obtain u info info' acc' r l where u: "update_pool_reward cfg p s = (u, Ok info)"
    and g: "get_rewards_by_account_shares cfg info (get_pool_account_info u p who) amount = Ok (info', acc', r)"
    and t: "t = (put_account p who acc' (put_pool p info' u))\<lparr>funds := l\<rparr>"
    by (auto simp: remove_share_Ok)
  from pool_books_update [OF assms(1) u] have "pool_books u" "get_pool_info u p = info" by auto
  with get_rewards_Ok [OF g] have "pool_books (put_account p who acc' (put_pool p info' u))"
    by (intro pool_books_move) (auto simp: word_le_nat_alt split: if_splits)
  then show ?thesis by (simp add: t)
qed

lemma pool_books_claim:
  assumes "pool_books s" and "claim_rewards cfg who p s = (t, Ok r)"
  shows "pool_books t"
proof -
  from assms(2) obtain u info where u: "update_pool_reward cfg p s = (u, Ok info)"
    by (auto simp: claim_rewards_Ok)
  from pool_books_update [OF assms(1) u] have b: "pool_books u" "get_pool_info u p = info" by auto
  let ?acc = "get_pool_account_info u p who"
  from assms(2) u consider "t = u"
    | rv a x l where "checked_sub rv (borrowed_amount ?acc) = Some a"
        "checked_sub (total_rewards_useable info) a = Some x"
        "t = (put_account p who (?acc\<lparr>borrowed_amount := rv\<rparr>)
           (put_pool p ((get_pool_info u p)\<lparr>total_rewards_useable := x\<rparr>) u))\<lparr>funds := l\<rparr>"
    by (auto simp: claim_rewards_Ok Let_def split: if_splits)
  then show ?thesis
  proof cases
    case 2
    from 2(1,2) b have "pool_books (put_account p who (?acc\<lparr>borrowed_amount := rv\<rparr>)
        (put_pool p ((get_pool_info u p)\<lparr>total_rewards_useable := x\<rparr>) u))"
      by (intro pool_books_move) (auto simp: word_nat)
    with 2(3) show ?thesis by simp
  qed (use b in simp)
qed

interpretation books: step_invariant "pool_step cfg" pool_books for cfg
proof
  fix l and s :: "('a, 'b, 'c) pool_state"
  assume b: "pool_books s"
  show "pool_books (pool_step cfg l s)"
  proof (cases l)
    case (Add_share who p amount)
    then show ?thesis
      by (simp add: transactional_cases [where P = pool_books, OF pool_books_add [OF b] b])
  next
    case (Remove_share who p amount)
    then show ?thesis
      by (simp add: transactional_cases [where P = pool_books, OF pool_books_remove [OF b] b])
  next
    case (Claim_rewards who p)
    then show ?thesis
      by (simp add: transactional_cases [where P = pool_books, OF pool_books_claim [OF b] b])
  next
    case (New_block n)
    with b show ?thesis by (simp add: pool_books_def held_shares_def borrowed_def get_pool_info_def)
  qed
qed

section \<open>The demonstration runs\<close>

lemma demo_pool_simps [simp]:
  "p_existential_reward demo_pool = 10" "p_sub_account demo_pool p = 1000 + p"
  "p_native_currency demo_pool = CLV" "p_update_balance demo_pool = demo_update_balance"
  "p_transfer demo_pool = demo_transfer" "p_from_rational demo_pool = demo_from_rational"
  "p_mul_int demo_pool = demo_mul_int" "p_fixed_zero demo_pool = 0"
  "p_handler demo_pool p sh from now = (if sh = 0 then 0 else 100 * of_nat (unat now - unat from))"
  by (simp_all add: demo_pool_def)

lemma demo_token_updates:
  assumes "p_update_balance cfg = demo_update_balance"
  shows "token_updates fst cfg"
proof -
  have "int (unat (of_nat (nat v) :: balance)) = v" if "0 \<le> v" "v < 2 ^ 128" for v
  proof -
    from that have "nat v < 2 ^ 128" by (simp add: nat_less_iff)
    then have "unat (of_nat (nat v) :: balance) = nat v"
      by (subst unsigned_of_nat) (simp add: take_bit_nat_eq_self)
    with that show ?thesis by simp
  qed
  then show ?thesis
    by (auto simp: token_updates_def assms demo_update_balance_def Let_def simp del: of_nat_nat
        split: if_splits)
qed

lemma demo_token_transfers: "p_transfer cfg = demo_transfer \<Longrightarrow> token_transfers fst cfg"
  by (auto simp: token_transfers_def demo_transfer_def book_transfer_Ok word_nat split: if_splits)

lemmas pool_eval = calc_pool_reward_at_block_def calc_pool_reward_def update_pool_reward_def
  calc_reward_by_shares_def get_rewards_by_account_shares_def get_pool_info_def
  get_pool_account_info_def default_pool_def default_account_def put_pool_def put_account_def
  on_funds_def comp_eval demo_update_balance_def demo_transfer_def book_transfer_def
  demo_from_rational_def demo_mul_int_def checked_add_def checked_sub_def saturated_amount_def

lemma demo_earned_eq:
  "demo_earned = \<lparr>Pools = [(0, \<lparr>total_shares = 50, total_rewards = 0, total_rewards_useable = 0,
       last_update_block = 2\<rparr>)],
     PoolAccountData = (\<lambda>_. Map.empty)(0 := [1 \<mapsto> \<lparr>shares = 50, borrowed_amount = 0\<rparr>]),
     current_block = 12, funds = (\<lambda>_. 0, 0)\<rparr>"
  by (simp add: demo_earned_def demo_visit_def run_def pool_genesis_def add_share_def pool_eval Let_def)

lemma demo_joined_eq:
  "pool_step demo_pool (Add_share 2 0 50) demo_earned =
     \<lparr>Pools = [(0, \<lparr>total_shares = 100, total_rewards = 2000, total_rewards_useable = 1000,
        last_update_block = 12\<rparr>)],
      PoolAccountData = (\<lambda>_. Map.empty)(0 := [1 \<mapsto> \<lparr>shares = 50, borrowed_amount = 0\<rparr>,
        2 \<mapsto> \<lparr>shares = 50, borrowed_amount = 1000\<rparr>]),
      current_block = 12, funds = ((\<lambda>_. 0)(1000 := 1000), 0)\<rparr>"
  by (simp add: demo_earned_eq add_share_def pool_eval Let_def)

lemma demo_visited_eq:
  "demo_visited = \<lparr>Pools = [(0, \<lparr>total_shares = 50, total_rewards = 2000,
       total_rewards_useable = 1000, last_update_block = 12\<rparr>)],
     PoolAccountData = (\<lambda>_. Map.empty)(0 := [1 \<mapsto> \<lparr>shares = 50, borrowed_amount = 0\<rparr>,
       2 \<mapsto> \<lparr>shares = 0, borrowed_amount = 0\<rparr>]),
     current_block = 12, funds = ((\<lambda>_. 0)(1000 := 1000, 2 := 0), 0)\<rparr>"
proof -
  have "demo_visited = pool_step demo_pool (Remove_share 2 0 50)
      (pool_step demo_pool (Add_share 2 0 50) demo_earned)"
    by (simp only: demo_visited_def demo_earned_def demo_visit_def run_def take_Suc_Cons take_0
        numeral_3_eq_3 fold_simps)
  then show ?thesis
    by (simp only: demo_joined_eq) (simp add: remove_share_def pool_eval Let_def)
qed

lemma demo_newcomer_eq:
  "demo_newcomer = \<lparr>Pools = [(0, \<lparr>total_shares = 3, total_rewards = 1500,
       total_rewards_useable = 1000, last_update_block = 12\<rparr>)],
     PoolAccountData = (\<lambda>_. Map.empty)(0 := [1 \<mapsto> \<lparr>shares = 2, borrowed_amount = 0\<rparr>,
       2 \<mapsto> \<lparr>shares = 1, borrowed_amount = 500\<rparr>]),
     current_block = 12, funds = ((\<lambda>_. 0)(1000 := 1000), 0)\<rparr>"
  by (simp add: demo_newcomer_def run_def pool_genesis_def add_share_def pool_eval Let_def)

lemma demo_unit_ratio: "unit_ratio_exact demo_pool"
proof -
  have "demo_from_rational n n = Some (10 ^ 18)" if "n \<noteq> 0" for n
    using that by (simp add: demo_from_rational_def unat_eq_iff Let_def)
  moreover have "demo_mul_int (10 ^ 18) m = Some m" for m
    using u128_bound [of m] by (simp add: demo_mul_int_def Let_def)
  ultimately show ?thesis by (simp add: unit_ratio_exact_def)
qed

section \<open>Solvency\<close>

lemma solvent_update:
  assumes "token_updates bal cfg" and "inj (p_sub_account cfg)"
    and "\<And>p sh a b. unat (p_handler cfg p sh a b) < 2 ^ 127"
    and "solvent bal cfg s" and "update_pool_reward cfg p s = (t, Ok info)"
  shows "solvent bal cfg t \<and> get_pool_info t p = info"
proof -
  from assms(5) obtain r l where c: "calc_pool_reward_at_block cfg p (get_pool_info s p)
      (current_block s) = Ok (info, r)" and t: "t = (put_pool p info s)\<lparr>funds := l\<rparr>"
    and l: "if r = 0 then l = funds s
      else p_update_balance cfg (p_native_currency cfg) (p_sub_account cfg p)
        (saturated_amount r) (funds s) = (l, Ok ())"
    by (auto simp: update_pool_reward_Ok calc_pool_reward_def)
  have "unat r < 2 ^ 127" using c assms(3)
    by (auto simp: calc_pool_reward_at_block_def Let_def split: if_splits)
  then have sat: "saturated_amount r = int (unat r)" by (rule saturated_amount_exact)
  have "unat (bal l (p_sub_account cfg p)) = unat (bal (funds s) (p_sub_account cfg p)) + unat r \<and>
      (\<forall>b. b \<noteq> p_sub_account cfg p \<longrightarrow> bal l b = bal (funds s) b)"
  proof (cases "r = 0")
    case False
    with l sat have "p_update_balance cfg (p_native_currency cfg) (p_sub_account cfg p)
        (int (unat r)) (funds s) = (l, Ok ())" by simp
    with assms(1) have "int (unat (bal l (p_sub_account cfg p))) =
        int (unat (bal (funds s) (p_sub_account cfg p))) + int (unat r) \<and>
        (\<forall>b. b \<noteq> p_sub_account cfg p \<longrightarrow> bal l b = bal (funds s) b)"
      unfolding token_updates_def by (meson of_nat_0_le_iff)
    then show ?thesis unfolding of_nat_add [symmetric] of_nat_eq_iff .
  qed (use l in simp)
  with calc_at_block_Ok [OF c] assms(2,4) show ?thesis
    by (auto simp: t solvent_def inj_eq)
qed

text \<open>A payment out of a sub-account to an account that is not one.\<close>

lemma solvent_pay:
  assumes "token_transfers bal cfg" and "inj (p_sub_account cfg)" and "solvent bal cfg s"
    and "p_transfer cfg (p_native_currency cfg) (p_sub_account cfg p) who r (funds s) = (l, Ok ())"
    and "who \<notin> range (p_sub_account cfg)"
    and "unat (total_rewards_useable j) + unat r = unat (total_rewards_useable (get_pool_info s p))"
  shows "solvent bal cfg ((put_account p a i (put_pool p j s))\<lparr>funds := l\<rparr>)"
proof -
  have ne: "p_sub_account cfg q \<noteq> who" for q using assms(5) by auto
  from assms(1,4) ne have pay: "unat (bal (funds s) (p_sub_account cfg p)) =
      unat (bal l (p_sub_account cfg p)) + unat r"
    "\<And>c. c \<noteq> p_sub_account cfg p \<Longrightarrow> c \<noteq> who \<Longrightarrow> bal l c = bal (funds s) c"
    unfolding token_transfers_def by (metis, metis)
  have "unat (total_rewards_useable (get_pool_info s q)) \<le> unat (bal (funds s) (p_sub_account cfg q))" for q
    using assms(3) by (simp add: solvent_def)
  from this [of p] this pay assms(2,6) ne show ?thesis by (auto simp: solvent_def inj_eq)
qed

lemma solvent_add:
  assumes "token_updates bal cfg" and "inj (p_sub_account cfg)"
    and "\<And>p sh a b. unat (p_handler cfg p sh a b) < 2 ^ 127"
    and "solvent bal cfg s" and "add_share cfg who p amount s = (t, Ok n)"
  shows "solvent bal cfg t"
proof -
  from add_share_Ok [OF assms(5)] obtain u info S R i where
    u: "update_pool_reward cfg p s = (u, Ok info)"
    and t: "t = put_account p who i (put_pool p (info\<lparr>total_shares := S, total_rewards := R\<rparr>) u)"
    by blast
  from solvent_update [OF assms(1-4) u] show ?thesis by (auto simp: t solvent_def)
qed

lemma solvent_remove:
  assumes "token_updates bal cfg" and "token_transfers bal cfg" and "inj (p_sub_account cfg)"
    and "\<And>p sh a b. unat (p_handler cfg p sh a b) < 2 ^ 127"
    and "solvent bal cfg s" and "who \<notin> range (p_sub_account cfg)"
    and "remove_share cfg who p amount s = (t, Ok n)"
  shows "solvent bal cfg t"
proof -
  from assms(7) obtain u info info' acc' r l where u: "update_pool_reward cfg p s = (u, Ok info)"
    and g: "get_rewards_by_account_shares cfg info (get_pool_account_info u p who) amount = Ok (info', acc', r)"
    and x: "p_transfer cfg (p_native_currency cfg) (p_sub_account cfg p) who r (funds u) = (l, Ok ())"
    and t: "t = (put_account p who acc' (put_pool p info' u))\<lparr>funds := l\<rparr>"
    by (auto simp: remove_share_Ok)
  from solvent_update [OF assms(1,3-5) u] have su: "solvent bal cfg u" "get_pool_info u p = info" by auto
  show ?thesis unfolding t
    by (rule solvent_pay [OF assms(2,3) su(1) x assms(6)]) (use get_rewards_Ok [OF g] su(2) in auto)
qed

lemma solvent_claim:
  assumes "token_updates bal cfg" and "token_transfers bal cfg" and "inj (p_sub_account cfg)"
    and "\<And>p sh a b. unat (p_handler cfg p sh a b) < 2 ^ 127"
    and "solvent bal cfg s" and "who \<notin> range (p_sub_account cfg)"
    and "claim_rewards cfg who p s = (t, Ok n)"
  shows "solvent bal cfg t"
proof -
  from assms(7) obtain u info where u: "update_pool_reward cfg p s = (u, Ok info)"
    by (auto simp: claim_rewards_Ok)
  from solvent_update [OF assms(1,3-5) u] have su: "solvent bal cfg u" "get_pool_info u p = info" by auto
  from assms(7) u consider "t = u"
    | i a x l where "checked_sub (total_rewards_useable info) a = Some x"
        "p_transfer cfg (p_native_currency cfg) (p_sub_account cfg p) who a (funds u) = (l, Ok ())"
        "t = (put_account p who i
           (put_pool p ((get_pool_info u p)\<lparr>total_rewards_useable := x\<rparr>) u))\<lparr>funds := l\<rparr>"
    by (auto simp: claim_rewards_Ok Let_def split: if_splits)
  then show ?thesis
  proof cases
    case 2
    show ?thesis unfolding 2(3)
      by (rule solvent_pay [OF assms(2,3) su(1) 2(2) assms(6)]) (use 2(1) su(2) in \<open>auto simp: word_nat\<close>)
  qed (use su in simp)
qed

lemma solvent_step:
  assumes "token_updates bal cfg" and "token_transfers bal cfg" and "inj (p_sub_account cfg)"
    and "\<And>p sh a b. unat (p_handler cfg p sh a b) < 2 ^ 127"
    and "actor_of l \<notin> Some ` range (p_sub_account cfg)" and s: "solvent bal cfg s"
  shows "solvent bal cfg (pool_step cfg l s)"
proof (cases l)
  case (Add_share who p amount)
  then show ?thesis
    by (simp add: transactional_cases [where P = "solvent bal cfg", OF solvent_add [OF assms(1,3,4) s] s])
next
  case (Remove_share who p amount)
  with assms(5) have "who \<notin> range (p_sub_account cfg)" by auto
  with Remove_share show ?thesis
    by (simp add: transactional_cases [where P = "solvent bal cfg", OF solvent_remove [OF assms(1-4) s] s])
next
  case (Claim_rewards who p)
  with assms(5) have "who \<notin> range (p_sub_account cfg)" by auto
  with Claim_rewards show ?thesis
    by (simp add: transactional_cases [where P = "solvent bal cfg", OF solvent_claim [OF assms(1-4) s] s])
next
  case (New_block b)
  with s show ?thesis by (simp add: solvent_def get_pool_info_def)
qed

lemma solvent_genesis: "solvent bal cfg (pool_genesis l)"
  by (simp add: solvent_def pool_genesis_def get_pool_info_def default_pool_def)

lemma solvent_run:
  assumes "token_updates bal cfg" and "token_transfers bal cfg" and "inj (p_sub_account cfg)"
    and "\<And>p sh a b. unat (p_handler cfg p sh a b) < 2 ^ 127"
    and "list_all (\<lambda>x. actor_of x \<notin> Some ` range (p_sub_account cfg)) ls"
  shows "solvent bal cfg (run (pool_step cfg) ls (pool_genesis l))"
  using assms(5) by (rule run_guarded) (auto simp: solvent_genesis intro: solvent_step [OF assms(1-4)])

section \<open>Reading and claiming\<close>

lemma update_pool_reward_again:
  assumes "update_pool_reward cfg p s = (t, Ok info)" and "get_pool_info u p = info'"
    and "last_update_block info' = last_update_block info" and "current_block u = current_block s"
    and "map_of (Pools u) p = Some info'"
  shows "update_pool_reward cfg p u = (u, Ok info')"
proof -
  from assms(1) have "current_block s \<le> last_update_block info"
    using calc_at_block_Ok by (fastforce simp: update_pool_reward_Ok calc_pool_reward_def)
  with assms(2-4) have "calc_pool_reward cfg u p = Ok (info', 0)"
    by (simp add: calc_pool_reward_def calc_at_block_updated)
  with assms(5) show ?thesis by (simp add: update_pool_reward_Ok put_pool_def smap_insert_same)
qed

lemma update_pool_reward_stored:
  "update_pool_reward cfg p s = (t, Ok info) \<Longrightarrow>
     map_of (Pools t) p = Some info \<and> get_pool_info t p = info \<and> current_block t = current_block s \<and>
     PoolAccountData t = PoolAccountData s"
  by (auto simp: update_pool_reward_Ok put_pool_def get_pool_info_def)

lemma calc_reward_cong:
  "total_shares i = total_shares j \<Longrightarrow> total_rewards i = total_rewards j \<Longrightarrow>
     calc_reward_by_shares cfg i n = calc_reward_by_shares cfg j n"
  by (simp add: calc_reward_by_shares_def)

text \<open>The whole holding of an account, when the ratio of a number to itself is one.\<close>

lemma whole_holding:
  assumes "unit_ratio_exact cfg" and "shares acc \<noteq> 0" and "shares acc \<le> total_shares info"
    and "calc_reward_by_shares cfg info (shares acc) = Ok rv"
    and "checked_sub rv (borrowed_amount acc) = Some a"
  shows "get_rewards_by_account_shares cfg info acc (shares acc) =
    (if a > total_rewards_useable info then Err (RewardPoolError RewardCaculationError)
     else Ok (info\<lparr>total_rewards := (if a \<le> p_existential_reward cfg then total_rewards info
                    else total_rewards info - rv),
                total_rewards_useable := (if a \<le> p_existential_reward cfg
                    then total_rewards_useable info else total_rewards_useable info - a),
                total_shares := total_shares info - shares acc\<rparr>,
              acc\<lparr>shares := 0, borrowed_amount := 0\<rparr>,
              if a \<le> p_existential_reward cfg then 0 else a))"
proof -
  from assms(1,2) have one: "Option.bind (p_from_rational cfg (shares acc) (shares acc))
      (\<lambda>f. p_mul_int cfg f m) = Some m" for m by (simp add: unit_ratio_exact_def)
  have rv: "rv \<le> total_rewards info" using calc_reward_by_shares_Ok [OF assms(4)] by simp
  have subs: "checked_sub x x = Some 0" "y \<le> x \<Longrightarrow> checked_sub x y = Some (x - y)" for x y :: balance
    by (simp_all add: checked_sub_def)
  have "\<not> shares acc \<le> 0" "\<not> total_shares info < shares acc" using assms(2,3) by simp_all
  then show ?thesis
    using assms(3) rv
    by (cases "total_rewards_useable info < a"; cases "a \<le> p_existential_reward cfg")
      (simp_all add: get_rewards_by_account_shares_def one assms(4,5) subs
        del: result_bind_Ok result_bind_Err)
qed

section \<open>What clients may rely on\<close>

text \<open>
  The contract of \<open>RewardPoolOps\<close>: the operations that return a number of shares
  return what is then read back, they move exactly the amount asked for, and they
  leave the shares of every other account and pool alone.
\<close>

locale reward_pool_contract =
  fixes R :: "('s, 'acc, 'pool) reward_pool_ops"
  assumes add_shares: "rp_add_share R who p n s = (t, Ok m) \<Longrightarrow>
      m = rp_get_account_shares R t who p \<and> n \<noteq> 0 \<and>
      unat m = unat (rp_get_account_shares R s who p) + unat n"
    and add_frame: "rp_add_share R who p n s = (t, Ok m) \<Longrightarrow> a \<noteq> who \<or> q \<noteq> p \<Longrightarrow>
      rp_get_account_shares R t a q = rp_get_account_shares R s a q"
    and remove_shares: "rp_remove_share R who p n s = (t, Ok m) \<Longrightarrow>
      m = rp_get_account_shares R t who p \<and>
      unat (rp_get_account_shares R s who p) = unat m + unat n"
    and remove_frame: "rp_remove_share R who p n s = (t, Ok m) \<Longrightarrow> a \<noteq> who \<or> q \<noteq> p \<Longrightarrow>
      rp_get_account_shares R t a q = rp_get_account_shares R s a q"
    and claim_frame: "rp_claim_rewards R who p s = (t, Ok v) \<Longrightarrow>
      rp_get_account_shares R t a q = rp_get_account_shares R s a q"
begin

lemma remove_after_add:
  assumes "rp_add_share R who p n s = (t, Ok m)" and "rp_remove_share R who p n t = (u, Ok k)"
  shows "rp_get_account_shares R u a q = rp_get_account_shares R s a q"
proof (cases "a = who \<and> q = p")
  case True
  with add_shares [OF assms(1)] remove_shares [OF assms(2)] show ?thesis by (simp add: unat_eq_iff)
next
  case False
  with add_frame [OF assms(1)] remove_frame [OF assms(2)] show ?thesis by simp
qed

end

text \<open>
  The contract of \<open>RewardHandler\<close>: no reward without shares, and rewards add up
  over consecutive ranges of blocks as long as they do not reach the maximum of
  the number type. Updating a pool more often then makes no difference.
\<close>

locale reward_schedule =
  fixes h :: "'pool reward_handler"
  assumes no_shares: "h p 0 a b = 0"
    and no_blocks: "b \<le> a \<Longrightarrow> h p n a b = 0"
    and additive: "a \<le> b \<Longrightarrow> b \<le> c \<Longrightarrow> unat (h p n a c) < 2 ^ 128 - 1 \<Longrightarrow>
      unat (h p n a b) + unat (h p n b c) = unat (h p n a c)"
begin

lemma empty_pool_earns_nothing:
  "p_handler cfg = h \<Longrightarrow> total_shares info = 0 \<Longrightarrow>
     calc_pool_reward_at_block cfg p info b =
       Ok (info\<lparr>last_update_block := max b (last_update_block info)\<rparr>, 0)"
  by (auto simp: calc_pool_reward_at_block_def no_shares Let_def max_def)

lemma calc_at_block_iff:
  assumes "p_handler cfg = h"
  shows "calc_pool_reward_at_block cfg p info b = Ok (i, r) \<longleftrightarrow>
    r = h p (total_shares info) (last_update_block info) b \<and>
    unat (total_rewards info) + unat r < 2 ^ 128 \<and>
    unat (total_rewards_useable info) + unat r < 2 ^ 128 \<and>
    i = info\<lparr>last_update_block := max b (last_update_block info),
      total_rewards := total_rewards info + r,
      total_rewards_useable := total_rewards_useable info + r\<rparr>"
proof (cases "b \<le> last_update_block info")
  case True
  with assms no_blocks u128_bound show ?thesis
    by (auto simp: calc_pool_reward_at_block_def max_def)
next
  case False
  with assms u128_bound [of "total_rewards info"] u128_bound [of "total_rewards_useable info"]
  show ?thesis
    by (auto simp: calc_pool_reward_at_block_def Let_def max_def checked_add_def)
qed

lemma update_in_two_steps:
  assumes "p_handler cfg = h" and "last_update_block info \<le> b" and "b \<le> c"
    and "calc_pool_reward_at_block cfg p info c = Ok (i, r)" and "unat r < 2 ^ 128 - 1"
  shows "\<exists>i' r1 r2. calc_pool_reward_at_block cfg p info b = Ok (i', r1) \<and>
    calc_pool_reward_at_block cfg p i' c = Ok (i, r2) \<and> unat r1 + unat r2 = unat r"
proof -
  let ?n = "total_shares info" and ?a = "last_update_block info"
  let ?r1 = "h p ?n ?a b" and ?r2 = "h p ?n b c"
  note calc = calc_at_block_iff [OF assms(1)]
  from assms(4) have r: "r = h p ?n ?a c" and fits: "unat (total_rewards info) + unat r < 2 ^ 128"
    "unat (total_rewards_useable info) + unat r < 2 ^ 128" by (auto simp: calc)
  have sum: "unat ?r1 + unat ?r2 = unat r"
    using additive [OF assms(2,3)] assms(5) r by simp
  then have "r = ?r1 + ?r2" using u128_bound [of r] by (simp add: unat_eq_iff unat_add_fits)
  moreover have "unat (total_rewards info + ?r1) = unat (total_rewards info) + unat ?r1"
    "unat (total_rewards_useable info + ?r1) = unat (total_rewards_useable info) + unat ?r1"
    using fits sum by (simp_all add: unat_add_fits)
  ultimately show ?thesis
    using assms(2-4) fits sum by (auto simp: calc max_def add.assoc)
qed

end

lemma reward_pool_impl_simps [simp]:
  "rp_add_share (reward_pool_impl cfg) = add_share cfg"
  "rp_remove_share (reward_pool_impl cfg) = remove_share cfg"
  "rp_get_account_shares (reward_pool_impl cfg) = get_account_shares"
  "rp_get_accumlated_rewards (reward_pool_impl cfg) = get_accumlated_rewards cfg"
  "rp_claim_rewards (reward_pool_impl cfg) = claim_rewards cfg"
  "rp_get_all_pools (reward_pool_impl cfg) = get_all_pools cfg"
  by (simp_all add: reward_pool_impl_def)

lemma update_pool_reward_accounts:
  "update_pool_reward cfg p s = (u, Ok info) \<Longrightarrow> get_pool_account_info u = get_pool_account_info s"
  using update_pool_reward_stored by (fastforce simp: get_pool_account_info_def fun_eq_iff)

lemma claim_rewards_shares:
  assumes "claim_rewards cfg who p s = (t, Ok v)"
  shows "shares (get_pool_account_info t q a) = shares (get_pool_account_info s q a)"
proof -
  from assms obtain u info where u: "update_pool_reward cfg p s = (u, Ok info)"
    by (auto simp: claim_rewards_Ok)
  with assms update_pool_reward_accounts [OF u] show ?thesis
    by (auto simp: claim_rewards_Ok Let_def split: if_splits)
qed

interpretation pool_ops: reward_pool_contract "reward_pool_impl cfg" for cfg
proof
  fix who p n s t m a q
  { assume "rp_add_share (reward_pool_impl cfg) who p n s = (t, Ok m)"
    then obtain u info S R b where u: "update_pool_reward cfg p s = (u, Ok info)" and "n \<noteq> 0"
      and "unat m = unat (shares (get_pool_account_info u p who)) + unat n"
      and "t = put_account p who \<lparr>shares = m, borrowed_amount = b\<rparr>
             (put_pool p (info\<lparr>total_shares := S, total_rewards := R\<rparr>) u)"
      using add_share_Ok by (metis reward_pool_impl_simps(1))
    with update_pool_reward_accounts [OF u]
    show "m = rp_get_account_shares (reward_pool_impl cfg) t who p \<and> n \<noteq> 0 \<and>
        unat m = unat (rp_get_account_shares (reward_pool_impl cfg) s who p) + unat n"
      and "a \<noteq> who \<or> q \<noteq> p \<Longrightarrow> rp_get_account_shares (reward_pool_impl cfg) t a q =
        rp_get_account_shares (reward_pool_impl cfg) s a q"
      by (auto simp: get_account_shares_def) }
  { assume "rp_remove_share (reward_pool_impl cfg) who p n s = (t, Ok m)"
    then obtain u info info' acc' r l where u: "update_pool_reward cfg p s = (u, Ok info)"
      and g: "get_rewards_by_account_shares cfg info (get_pool_account_info u p who) n = Ok (info', acc', r)"
      and "m = shares acc'" "t = (put_account p who acc' (put_pool p info' u))\<lparr>funds := l\<rparr>"
      by (auto simp: remove_share_Ok)
    with update_pool_reward_accounts [OF u] get_rewards_Ok [OF g]
    show "m = rp_get_account_shares (reward_pool_impl cfg) t who p \<and>
        unat (rp_get_account_shares (reward_pool_impl cfg) s who p) = unat m + unat n"
      and "a \<noteq> who \<or> q \<noteq> p \<Longrightarrow> rp_get_account_shares (reward_pool_impl cfg) t a q =
        rp_get_account_shares (reward_pool_impl cfg) s a q"
      by (auto simp: get_account_shares_def) }
  fix v
  assume "rp_claim_rewards (reward_pool_impl cfg) who p s = (t, Ok v)"
  then show "rp_get_account_shares (reward_pool_impl cfg) t a q =
      rp_get_account_shares (reward_pool_impl cfg) s a q"
    by (simp add: get_account_shares_def claim_rewards_shares)
qed

section \<open>Properties\<close>

text \<open>
  C7. The books of every pool balance, whatever accounts do. After any sequence of
  additions, removals, claims and blocks, with any reward handler, any token
  pallet and any fixed-point arithmetic, the shares of the accounts of a pool add
  up to its total shares, and the withdrawable rewards plus everything borrowed
  never exceed the total rewards.
\<close>

theorem pool_shares_conserved:
  "let s = run (pool_step cfg) ls (pool_genesis l) in
     held_shares s p = unat (total_shares (get_pool_info s p)) \<and>
     unat (total_rewards_useable (get_pool_info s p)) + borrowed s p
       \<le> unat (total_rewards (get_pool_info s p))"
  using books.run_keeps [OF pool_books_genesis, of cfg ls l] by (simp add: pool_books_def Let_def)

text \<open>
  C8. Rewards are backed. When the token pallet moves what it says it moves, the
  pools have different sub-accounts that take no part themselves, and a single
  reward stays below the largest signed amount, the sub-account of every pool
  always holds at least the rewards that can be withdrawn from it.
\<close>

theorem pool_rewards_backed:
  assumes "token_updates bal cfg" and "token_transfers bal cfg" and "inj (p_sub_account cfg)"
    and "\<And>p sh a b. unat (p_handler cfg p sh a b) < 2 ^ 127"
    and "list_all (\<lambda>x. actor_of x \<notin> Some ` range (p_sub_account cfg)) ls"
    and "s = run (pool_step cfg) ls (pool_genesis l)"
  shows "unat (total_rewards_useable (get_pool_info s p)) \<le> unat (bal (funds s) (p_sub_account cfg p))"
  using solvent_run [OF assms(1-5), of l] by (simp add: solvent_def assms(6))

theorem pool_rewards_backed_witness:
  "unat (total_rewards_useable (get_pool_info demo_visited 0)) \<le> unat (fst (funds demo_visited) 1000)"
proof -
  have "token_updates fst demo_pool" by (rule demo_token_updates) simp
  moreover have "token_transfers fst demo_pool" by (rule demo_token_transfers) simp
  moreover have "inj (p_sub_account demo_pool)" by (simp add: inj_def)
  moreover have "unat (p_handler demo_pool p sh a b) < 2 ^ 127" for p sh a b
  proof -
    have "unat b < 2 ^ 32" using unsigned_less [of b, where 'a = nat] by simp
    then have d: "100 * (unat b - unat a) < 2 ^ 40" by simp
    have "100 * of_nat (unat b - unat a) = (of_nat (100 * (unat b - unat a)) :: u128)" by simp
    also have "unat \<dots> = 100 * (unat b - unat a)"
      using d by (subst unsigned_of_nat) (simp add: take_bit_nat_eq_self)
    finally show ?thesis using d by simp
  qed
  moreover have "list_all (\<lambda>x. actor_of x \<notin> Some ` range (p_sub_account demo_pool)) demo_visit"
    by (auto simp: demo_visit_def)
  ultimately show ?thesis
    using pool_rewards_backed [of fst demo_pool demo_visit demo_visited "(\<lambda>_. 0, 0)" 0]
    by (simp add: demo_visited_def)
qed

text \<open>
  A claim empties what can be claimed. When the smallest payable reward is
  positive, a second claim right after a successful one pays nothing and changes
  nothing.
\<close>

theorem second_claim_pays_nothing:
  assumes "0 < p_existential_reward cfg" and "claim_rewards cfg who p s = (t, Ok r)"
  shows "claim_rewards cfg who p t = (t, Ok 0)"
proof -
  from assms(2) obtain u info where u: "update_pool_reward cfg p s = (u, Ok info)"
    by (auto simp: claim_rewards_Ok)
  note stored = update_pool_reward_stored [OF u]
  let ?acc = "get_pool_account_info u p who"
  from assms(2) u consider (same) "t = u" "shares ?acc = 0 \<or> (\<exists>rv a.
        calc_reward_by_shares cfg info (shares ?acc) = Ok rv \<and>
        checked_sub rv (borrowed_amount ?acc) = Some a \<and> a < p_existential_reward cfg)"
    | (paid) rv x l where "shares ?acc \<noteq> 0" "calc_reward_by_shares cfg info (shares ?acc) = Ok rv"
        "t = (put_account p who (?acc\<lparr>borrowed_amount := rv\<rparr>)
           (put_pool p (info\<lparr>total_rewards_useable := x\<rparr>) u))\<lparr>funds := l\<rparr>"
    using stored by (auto simp: claim_rewards_Ok Let_def split: if_splits)
  then show ?thesis
  proof cases
    case same
    have "update_pool_reward cfg p u = (u, Ok info)"
      using stored by (intro update_pool_reward_again [OF u]) auto
    with same show ?thesis by (auto simp: claim_rewards_Ok Let_def)
  next
    case paid
    let ?i = "info\<lparr>total_rewards_useable := x\<rparr>"
    have "update_pool_reward cfg p t = (t, Ok ?i)"
      using stored paid(3) by (intro update_pool_reward_again [OF u]) auto
    moreover have "calc_reward_by_shares cfg ?i (shares ?acc) = Ok rv"
      using paid(2) by (simp cong: calc_reward_cong)
    moreover have "get_pool_account_info t p who = ?acc\<lparr>borrowed_amount := rv\<rparr>"
      by (simp add: paid(3))
    ultimately show ?thesis
      using paid(1) assms(1) by (simp add: claim_rewards_Ok checked_sub_def)
  qed
qed

theorem second_claim_pays_nothing_witness:
  "claim_rewards demo_pool 1 0 (fst (claim_rewards demo_pool 1 0 demo_earned)) =
     (fst (claim_rewards demo_pool 1 0 demo_earned), Ok 0)"
proof -
  have "claim_rewards demo_pool 1 0 demo_earned =
      (fst (claim_rewards demo_pool 1 0 demo_earned), Ok 1000)"
    by (simp add: demo_earned_eq claim_rewards_def pool_eval Let_def)
  then show ?thesis by (rule second_claim_pays_nothing [rotated]) simp
qed

text \<open>
  C26. The preview agrees with the claim. When a claim succeeds and pays an amount,
  the read-only estimate of the accumulated rewards just before is that amount,
  except in one case: a reward of exactly the smallest payable amount is paid by
  the claim and reported as zero.
\<close>

theorem claim_matches_preview:
  assumes "unit_ratio_exact cfg" and "pool_books s" and "claim_rewards cfg who p s = (t, Ok r)"
  shows "get_accumlated_rewards cfg s who p = (if r = p_existential_reward cfg then 0 else r)"
proof -
  from assms(3) obtain u info where u: "update_pool_reward cfg p s = (u, Ok info)"
    by (auto simp: claim_rewards_Ok)
  let ?acc = "get_pool_account_info s p who"
  have acc: "get_pool_account_info u p who = ?acc"
    using update_pool_reward_stored [OF u] by (simp add: get_pool_account_info_def)
  from u obtain d where calc: "calc_pool_reward cfg s p = Ok (info, d)"
    by (auto simp: update_pool_reward_Ok)
  show ?thesis
  proof (cases "shares ?acc = 0")
    case True
    with assms(3) u acc have "r = 0" by (simp add: claim_rewards_Ok Let_def)
    with True show ?thesis by (simp add: get_accumlated_rewards_def)
  next
    case False
    with assms(3) u acc obtain rv a where
      rv: "calc_reward_by_shares cfg info (shares ?acc) = Ok rv"
      and a: "checked_sub rv (borrowed_amount ?acc) = Some a"
      and r: "r = (if a < p_existential_reward cfg then 0 else a)"
      and useable: "a < p_existential_reward cfg \<or> a \<le> total_rewards_useable info"
      by (auto simp: claim_rewards_Ok Let_def checked_sub_def split: if_splits)
    have "shares ?acc \<le> total_shares info"
      using entry_le_held [OF assms(2), of p who] assms(2) calc calc_at_block_Ok
      by (fastforce simp: pool_books_def word_le_nat_alt calc_pool_reward_def)
    from whole_holding [OF assms(1) False this rv a] False calc r useable show ?thesis
      by (auto simp: get_accumlated_rewards_def Let_def)
  qed
qed

theorem claim_matches_preview_witness:
  "get_accumlated_rewards demo_pool demo_earned 1 0 = 1000"
proof -
  have "pool_books demo_earned"
    unfolding demo_earned_def by (rule books.run_keeps [OF pool_books_genesis])
  moreover have "claim_rewards demo_pool 1 0 demo_earned =
      (fst (claim_rewards demo_pool 1 0 demo_earned), Ok 1000)"
    by (simp add: demo_earned_eq claim_rewards_def pool_eval Let_def)
  ultimately have "get_accumlated_rewards demo_pool demo_earned 1 0 =
      (if 1000 = p_existential_reward demo_pool then 0 else 1000)"
    by (rule claim_matches_preview [OF demo_unit_ratio])
  then show ?thesis by simp
qed

text \<open>
  A pool whose withdrawable rewards plus borrowed amounts fall short of its total
  rewards locks its last holder in: when one account holds all shares, both removing
  all of them and claiming fail with \<open>RewardCaculationError\<close>.
\<close>

lemma short_pool_locks:
  assumes "unit_ratio_exact cfg" and "update_pool_reward cfg p s = (u, Ok info)"
    and "acc = get_pool_account_info s p who"
    and "shares acc = total_shares info" and "shares acc \<noteq> 0"
    and "unat (total_rewards_useable info) + unat (borrowed_amount acc) < unat (total_rewards info)"
    and "unat (p_existential_reward cfg) + unat (borrowed_amount acc) \<le> unat (total_rewards info)"
  shows "remove_share cfg who p (shares acc) s = (u, Err (RewardPoolError RewardCaculationError)) \<and>
    claim_rewards cfg who p s = (u, Err (RewardPoolError RewardCaculationError))"
proof -
  have acc: "get_pool_account_info u p who = acc"
    using update_pool_reward_stored [OF assms(2)] assms(3) by (simp add: get_pool_account_info_def)
  have rv: "calc_reward_by_shares cfg info (shares acc) = Ok (total_rewards info)"
    using assms(1,4,5) by (simp add: calc_reward_by_shares_def unit_ratio_exact_def)
  define a where "a = total_rewards info - borrowed_amount acc"
  have "borrowed_amount acc \<le> total_rewards info" using assms(6) by (simp add: word_le_nat_alt)
  then have a: "checked_sub (total_rewards info) (borrowed_amount acc) = Some a"
    "unat a = unat (total_rewards info) - unat (borrowed_amount acc)"
    by (simp_all add: checked_sub_def a_def unat_sub_le)
  have gt: "a > total_rewards_useable info" "\<not> a < p_existential_reward cfg"
    using assms(6,7) a(2) by (auto simp: word_less_nat_alt)
  from whole_holding [OF assms(1,5) _ rv a(1)] gt(1) assms(4)
  have "get_rewards_by_account_shares cfg info acc (shares acc) =
      Err (RewardPoolError RewardCaculationError)" by simp
  then have "remove_share cfg who p (shares acc) s = (u, Err (RewardPoolError RewardCaculationError))"
    by (simp add: remove_share_def and_then_eval assms(2) acc comp_defs)
  moreover have "claim_rewards cfg who p s = (u, Err (RewardPoolError RewardCaculationError))"
  proof -
    have "checked_sub (total_rewards_useable info) a = None" using gt(1) by (simp add: checked_sub_def)
    with gt(2) show ?thesis
      by (simp add: claim_rewards_def and_then_eval assms(2,5) acc rv a(1) comp_defs)
  qed
  ultimately show ?thesis ..
qed

text \<open>
  Rounding keeps a newcomer in. When the part of the pool that the fixed-point
  fraction gives an account is below what the account borrowed, removing all of its
  shares and claiming both fail with \<open>RewardCaculationError\<close>, and the preview reports
  zero. The demo run reaches this right after entering: one share of three of a pool of
  1500 units is computed as 499, one unit less than the 500 the entry borrowed, and
  the account cannot leave before the pool earns more.
\<close>

theorem rounding_blocks_newcomer:
  assumes "unit_ratio_exact cfg" and "update_pool_reward cfg p s = (u, Ok info)"
    and "acc = get_pool_account_info s p who" and "shares acc \<noteq> 0"
    and "shares acc \<le> total_shares info"
    and "calc_reward_by_shares cfg info (shares acc) = Ok rv" and "rv < borrowed_amount acc"
  shows "remove_share cfg who p (shares acc) s = (u, Err (RewardPoolError RewardCaculationError)) \<and>
    claim_rewards cfg who p s = (u, Err (RewardPoolError RewardCaculationError)) \<and>
    get_accumlated_rewards cfg s who p = 0"
proof -
  have acc: "get_pool_account_info u p who = acc"
    using update_pool_reward_stored [OF assms(2)] assms(3) by (simp add: get_pool_account_info_def)
  have one: "Option.bind (p_from_rational cfg (shares acc) (shares acc)) (\<lambda>f. p_mul_int cfg f m) = Some m" for m
    using assms(1,4) by (simp add: unit_ratio_exact_def)
  have no: "checked_sub rv (borrowed_amount acc) = None" and zero: "checked_sub b b = Some 0" for b :: balance
    using assms(7) by (auto simp: checked_sub_def)
  have g: "get_rewards_by_account_shares cfg info acc (shares acc) = Err (RewardPoolError RewardCaculationError)"
    using assms(4,5) by (simp add: get_rewards_by_account_shares_def assms(6) one no zero not_less
        del: result_bind_Ok result_bind_Err)
  from assms(2) obtain d where calc: "calc_pool_reward cfg s p = Ok (info, d)"
    by (auto simp: update_pool_reward_Ok)
  have "remove_share cfg who p (shares acc) s = (u, Err (RewardPoolError RewardCaculationError))"
    by (simp add: remove_share_def and_then_eval assms(2) acc g comp_defs)
  moreover have "claim_rewards cfg who p s = (u, Err (RewardPoolError RewardCaculationError))"
    by (simp add: claim_rewards_def and_then_eval assms(2,4,6) acc no comp_defs)
  moreover have "get_accumlated_rewards cfg s who p = 0"
    by (simp add: get_accumlated_rewards_def Let_def calc g flip: assms(3))
  ultimately show ?thesis by blast
qed

theorem rounding_blocks_newcomer_witness:
  "remove_share demo_pool 2 0 1 demo_newcomer = (demo_newcomer, Err (RewardPoolError RewardCaculationError)) \<and>
   claim_rewards demo_pool 2 0 demo_newcomer = (demo_newcomer, Err (RewardPoolError RewardCaculationError))"
proof -
  let ?info = "\<lparr>total_shares = 3, total_rewards = 1500, total_rewards_useable = 1000, last_update_block = 12\<rparr>"
  have upd: "update_pool_reward demo_pool 0 demo_newcomer = (demo_newcomer, Ok ?info)"
    by (simp add: demo_newcomer_eq pool_eval)
  have acc: "\<lparr>shares = 1, borrowed_amount = 500\<rparr> = get_pool_account_info demo_newcomer 0 2"
    by (simp add: demo_newcomer_eq get_pool_account_info_def)
  have "calc_reward_by_shares demo_pool ?info 1 = Ok 499"
    by (simp add: calc_reward_by_shares_def demo_from_rational_def demo_mul_int_def)
  with rounding_blocks_newcomer [OF demo_unit_ratio upd acc, of 499] show ?thesis
    by (simp add: word_le_nat_alt)
qed

text \<open>
  Removing shares takes them from one account and its pool, and from nobody
  else: the remaining shares are returned, the pool's total falls by the amount,
  and no other account or pool changes.
\<close>

theorem remove_share_exact:
  assumes "remove_share cfg who p amount s = (t, Ok n)"
  shows "n = get_account_shares t who p \<and>
    unat (get_account_shares s who p) = unat n + unat amount \<and>
    unat (total_shares (get_pool_info s p)) = unat (total_shares (get_pool_info t p)) + unat amount \<and>
    (q \<noteq> p \<longrightarrow> get_pool_info t q = get_pool_info s q) \<and>
    (a \<noteq> who \<or> q \<noteq> p \<longrightarrow> get_pool_account_info t q a = get_pool_account_info s q a)"
proof -
  from assms obtain u info info' acc' r l where u: "update_pool_reward cfg p s = (u, Ok info)"
    and g: "get_rewards_by_account_shares cfg info (get_pool_account_info u p who) amount = Ok (info', acc', r)"
    and t: "n = shares acc'" "t = (put_account p who acc' (put_pool p info' u))\<lparr>funds := l\<rparr>"
    by (auto simp: remove_share_Ok)
  have u': "get_pool_account_info u = get_pool_account_info s" "total_shares info = total_shares (get_pool_info s p)"
    "q \<noteq> p \<longrightarrow> get_pool_info u q = get_pool_info s q"
    using u calc_at_block_Ok by (fastforce simp: update_pool_reward_Ok calc_pool_reward_def fun_eq_iff)+
  from get_rewards_Ok [OF g] u' show ?thesis
    by (auto simp: t get_account_shares_def)
qed

theorem remove_share_exact_witness:
  "get_account_shares (pool_step demo_pool (Remove_share 2 0 50)
     (pool_step demo_pool (Add_share 2 0 50) demo_earned)) 1 0 = 50"
proof -
  let ?s = "pool_step demo_pool (Add_share 2 0 50) demo_earned"
  have rm: "remove_share demo_pool 2 0 50 ?s = (fst (remove_share demo_pool 2 0 50 ?s), Ok 0)"
    unfolding demo_joined_eq by (simp add: remove_share_def pool_eval Let_def)
  then obtain t where t: "remove_share demo_pool 2 0 50 ?s = (t, Ok 0)" by blast
  then have "transactional (remove_share demo_pool 2 0 50) ?s = (t, Ok 0)"
    by (simp only: transactional_Ok)
  then have "pool_step demo_pool (Remove_share 2 0 50) ?s = t"
    by (simp only: pool_step.simps fst_conv)
  moreover have "get_pool_account_info ?s 0 1 = \<lparr>shares = 50, borrowed_amount = 0\<rparr>"
    by (simp add: demo_joined_eq get_pool_account_info_def del: pool_step.simps)
  ultimately show ?thesis
    using remove_share_exact [OF t, of 0 1] by (simp add: get_account_shares_def del: pool_step.simps)
qed

text \<open>
  Outside a transaction a failed addition still leaves the books of every
  pool balanced: the checks after the pool is written cannot fail in a state
  whose books balance, so an error means that no share was written.
\<close>

theorem failed_add_keeps_books:
  assumes "pool_books s" and "add_share cfg who p amount s = (t, Err e)"
  shows "pool_books t \<and> PoolAccountData t = PoolAccountData s \<and>
    total_shares (get_pool_info t q) = total_shares (get_pool_info s q)"
proof (cases "\<exists>u info. update_pool_reward cfg p s = (u, Ok info)")
  case True
  then obtain u info where u: "update_pool_reward cfg p s = (u, Ok info)" by blast
  note b = pool_books_update [OF assms(1) u]
  have le: "unat (shares (get_pool_account_info u p who)) \<le> unat (total_shares info)"
    "unat (borrowed_amount (get_pool_account_info u p who)) \<le> unat (total_rewards info)"
    using entry_le_held [of u p who] b unfolding pool_books_def
    by (metis, metis add_leD2 le_trans)
  have "t = s \<or> t = u"
    using assms(2) u checked_add_mono [OF le(1)] checked_add_mono [OF le(2)]
    by (fastforce simp: add_share_def)
  moreover have "total_shares (get_pool_info u q) = total_shares (get_pool_info s q)"
    using u calc_at_block_Ok by (fastforce simp: update_pool_reward_Ok calc_pool_reward_def)
  ultimately show ?thesis using b assms(1) by auto
next
  case False
  then obtain u e' where u: "update_pool_reward cfg p s = (u, Err e')"
    by (cases "update_pool_reward cfg p s"; cases "snd (update_pool_reward cfg p s)") auto
  then have "u = s \<or> (\<exists>l. u = s\<lparr>funds := l\<rparr>)"
    by (auto simp: update_pool_reward_def split: if_splits)
  moreover have "t = s \<or> t = u" using assms(2) u by (auto simp: add_share_def)
  ultimately show ?thesis using assms(1) by auto
qed

theorem failed_add_keeps_books_witness:
  "add_share demo_pool 1 0 0 demo_earned = (demo_earned, Err (RewardPoolError InvalidShareAmount)) \<and>
   pool_books demo_earned"
proof -
  have books: "pool_books demo_earned"
    unfolding demo_earned_def by (rule books.run_keeps [OF pool_books_genesis])
  have err: "add_share demo_pool 1 0 0 demo_earned = (demo_earned, Err (RewardPoolError InvalidShareAmount))"
    by (simp add: add_share_def comp_eval)
  show ?thesis using failed_add_keeps_books [OF books err, THEN conjunct1] err by (rule conjI [rotated])
qed

text \<open>
  The listing of pools is what an update would store: every stored pool is
  listed once, with the shares and the withdrawable rewards that updating it at
  the current block gives.
\<close>

theorem get_all_pools_current:
  assumes "pool_books s"
  shows "map fst (get_all_pools cfg s) = map fst (Pools s) \<and> distinct (map fst (get_all_pools cfg s)) \<and>
    (map_of (Pools s) p \<noteq> None \<longrightarrow> update_pool_reward cfg p s = (t, Ok info) \<longrightarrow>
       map_of (get_all_pools cfg s) p = Some (total_shares info, total_rewards_useable info))"
proof -
  have names: "map fst (get_all_pools cfg s) = map fst (Pools s)"
    by (auto simp: get_all_pools_def split: result.splits)
  define row where "row p i = (case calc_pool_reward_at_block cfg p i (current_block s) of
        Ok (new_info, _) \<Rightarrow> (total_shares new_info, total_rewards_useable new_info)
      | Err e \<Rightarrow> (total_shares i, 0))" for p i
  have rows: "get_all_pools cfg s = map (\<lambda>(p, i). (p, row p i)) (Pools s)"
    by (auto simp: get_all_pools_def row_def split: result.splits)
  have "map_of (map (\<lambda>(p, i). (p, row p i)) ps) p = map_option (row p) (map_of ps p)" for ps
    by (induction ps) auto
  then have "map_of (get_all_pools cfg s) p = map_option (row p) (map_of (Pools s) p)"
    by (simp add: rows)
  then have "map_of (get_all_pools cfg s) p = Some (total_shares info, total_rewards_useable info)"
    if "map_of (Pools s) p \<noteq> None" "update_pool_reward cfg p s = (t, Ok info)"
    using that by (auto simp: get_pool_info_def update_pool_reward_Ok calc_pool_reward_def row_def)
  moreover have "distinct (map fst (Pools s))" using assms by (simp add: pool_books_def)
  ultimately show ?thesis using names by simp
qed

theorem get_all_pools_current_witness:
  "map fst (get_all_pools demo_pool demo_visited) = [0]"
proof -
  have "pool_books demo_visited"
    unfolding demo_visited_def by (rule books.run_keeps [OF pool_books_genesis])
  from get_all_pools_current [OF this, of demo_pool] show ?thesis by (simp add: demo_visited_eq)
qed

end
