(* ===== verification/Pool_Fairness.thy ===== *)
theory Pool_Fairness
  imports Complex_Main Reward_Pool
begin

text \<open>
  Fairness of the reward pool of \<^verbatim>\<open>modules/reward-pool/src/lib.rs\<close>. The reference is the
  ideal distribution over the rational numbers: whenever a pool earns a reward,
  every holder is due the part of it that its shares are of the pool's shares. The
  pallet never stores these amounts; it stores a total with virtual rewards and a
  borrowed amount per account, and rounds. \<open>entitlement\<close> reads the amount an account
  could still take out of that bookkeeping, \<open>received\<close> is what the ledger of the token
  pallet shows, \<open>left_behind\<close> is what an unpaid removal leaves to the remaining shares, and
  \<open>rounding\<close> bounds what one operation may otherwise move from one holder to another. The run lemma comes from the interface \<open>step_budget\<close>, interpreted on
  \<open>pool_step\<close>.
\<close>

section \<open>The ideal distribution\<close>

definition num :: "'n::len word \<Rightarrow> rat" where
  "num w = of_nat (unat w)"

text \<open>What an account could take out: its part of the total rewards, less what it borrowed.\<close>

definition worth :: "pool_info \<Rightarrow> pool_account_info \<Rightarrow> rat" where
  "worth info acc =
     num (shares acc) * num (total_rewards info) / num (total_shares info) - num (borrowed_amount acc)"

definition entitlement :: "('pool, 'acc, 'l) pool_state \<Rightarrow> 'pool \<Rightarrow> 'acc \<Rightarrow> rat" where
  "entitlement s p a = worth (get_pool_info s p) (get_pool_account_info s p a)"

text \<open>Whether a step acts on a pool and commits.\<close>

definition succeeds :: "('s, 'a, 'e) comp \<Rightarrow> 's \<Rightarrow> bool" where
  "succeeds m s \<longleftrightarrow> (case snd (m s) of Ok x \<Rightarrow> True | Err e \<Rightarrow> False)"

fun acts_on ::
  "('pool, 'acc, 'l, 'f) pool_config \<Rightarrow> 'pool \<Rightarrow> ('pool, 'acc) pool_label \<Rightarrow>
   ('pool, 'acc, 'l) pool_state \<Rightarrow> bool" where
  "acts_on cfg p (Add_share who q x) s \<longleftrightarrow> q = p \<and> succeeds (add_share cfg who q x) s"
| "acts_on cfg p (Remove_share who q x) s \<longleftrightarrow> q = p \<and> succeeds (remove_share cfg who q x) s"
| "acts_on cfg p (Claim_rewards who q) s \<longleftrightarrow> q = p \<and> succeeds (claim_rewards cfg who q) s"
| "acts_on cfg p (New_block b) s \<longleftrightarrow> False"

text \<open>The pool as the next operation on it sees it, and the reward it earns up to there.\<close>

definition updated ::
  "('pool, 'acc, 'l, 'f) pool_config \<Rightarrow> ('pool, 'acc, 'l) pool_state \<Rightarrow> 'pool \<Rightarrow> pool_info \<times> balance" where
  "updated cfg s p = (case calc_pool_reward cfg s p of Ok x \<Rightarrow> x | Err e \<Rightarrow> (get_pool_info s p, 0))"

text \<open>The proportional part of that reward, for one account.\<close>

definition due ::
  "('pool, 'acc, 'l, 'f) pool_config \<Rightarrow> 'pool \<Rightarrow> 'acc \<Rightarrow> ('pool, 'acc) pool_label \<Rightarrow>
   ('pool, 'acc, 'l) pool_state \<Rightarrow> rat" where
  "due cfg p a l s =
     (if acts_on cfg p l s
      then num (get_account_shares s a p) * num (snd (updated cfg s p)) / num (total_shares (get_pool_info s p))
      else 0)"

text \<open>What the ledger shows the account received in a step on the pool.\<close>

definition received ::
  "('l \<Rightarrow> 'acc \<Rightarrow> balance) \<Rightarrow> ('pool, 'acc, 'l, 'f) pool_config \<Rightarrow> 'pool \<Rightarrow> 'acc \<Rightarrow>
   ('pool, 'acc) pool_label \<Rightarrow> ('pool, 'acc, 'l) pool_state \<Rightarrow> rat" where
  "received bal cfg p a l s =
     (if acts_on cfg p l s then num (bal (funds (pool_step cfg l s)) a) - num (bal (funds s) a) else 0)"

text \<open>
  Two operations move more than rewards. A removal whose reward, the computed part of
  the removed shares less the borrowed amount that goes with them, is at most the
  existential reward is not paid: the account forfeits it, and the part of the removed
  shares stays in the pool, for the remaining shares. Whoever enters an empty pool gets
  what was left in it. The reference follows these two rules with exact amounts; only
  the comparison with the existential reward is made on the computed ones.
\<close>

definition unpaid :: "('pool, 'acc, 'l, 'f) pool_config \<Rightarrow> pool_info \<Rightarrow> pool_account_info \<Rightarrow> share \<Rightarrow> bool" where
  "unpaid cfg info acc x =
     (case calc_reward_by_shares cfg info x of
        Ok part \<Rightarrow>
          (case Option.bind (p_from_rational cfg x (shares acc)) (\<lambda>f. p_mul_int cfg f (borrowed_amount acc)) of
             Some b \<Rightarrow> unat part \<le> unat b + unat (p_existential_reward cfg)
           | None \<Rightarrow> False)
      | Err e \<Rightarrow> False)"

definition exact_part :: "pool_info \<Rightarrow> share \<Rightarrow> rat" where
  "exact_part info x = num x * num (total_rewards info) / num (total_shares info)"

definition forfeited :: "pool_info \<Rightarrow> pool_account_info \<Rightarrow> share \<Rightarrow> rat" where
  "forfeited info acc x = exact_part info x - num x * num (borrowed_amount acc) / num (shares acc)"

fun left_behind ::
  "('pool, 'acc, 'l, 'f) pool_config \<Rightarrow> 'pool \<Rightarrow> 'acc \<Rightarrow> ('pool, 'acc) pool_label \<Rightarrow>
   ('pool, 'acc, 'l) pool_state \<Rightarrow> rat" where
  "left_behind cfg p a (Add_share who q x) s =
     (let info = fst (updated cfg s p)
      in if acts_on cfg p (Add_share who q x) s \<and> total_shares info = 0 \<and> a = who then num (total_rewards info) else 0)"
| "left_behind cfg p a (Remove_share who q x) s =
     (let info = fst (updated cfg s p); acc = get_pool_account_info s p who
      in if acts_on cfg p (Remove_share who q x) s \<and> unpaid cfg info acc x
         then (num (get_account_shares s a p) - (if a = who then num x else 0)) /
                (num (total_shares info) - num x) * exact_part info x -
              (if a = who then forfeited info acc x else 0)
         else 0)"
| "left_behind cfg p a (Claim_rewards who q) s = 0"
| "left_behind cfg p a (New_block b) s = 0"

text \<open>
  The tolerance of a step. Adding to a pool with shares rounds the price of a share to
  18 decimals and the virtual reward to a whole unit; a removal rounds the fraction of
  the pool and the reward, one that is not paid the fraction of the borrowed amount.
\<close>

definition entry_tolerance :: "pool_info \<Rightarrow> share \<Rightarrow> rat" where
  "entry_tolerance info x = (if total_shares info = 0 then 0 else 1 + num x / 10 ^ 18)"

definition removal_tolerance :: "('pool, 'acc, 'l, 'f) pool_config \<Rightarrow> pool_info \<Rightarrow> pool_account_info \<Rightarrow> share \<Rightarrow> rat" where
  "removal_tolerance cfg info acc x =
     1 + num (if unpaid cfg info acc x then borrowed_amount acc else total_rewards info) / 10 ^ 18"

fun rounding ::
  "('pool, 'acc, 'l, 'f) pool_config \<Rightarrow> 'pool \<Rightarrow> ('pool, 'acc) pool_label \<Rightarrow>
   ('pool, 'acc, 'l) pool_state \<Rightarrow> rat" where
  "rounding cfg p (Add_share who q x) s =
     (if acts_on cfg p (Add_share who q x) s then entry_tolerance (fst (updated cfg s p)) x else 0)"
| "rounding cfg p (Remove_share who q x) s =
     (if acts_on cfg p (Remove_share who q x) s
      then removal_tolerance cfg (fst (updated cfg s p)) (get_pool_account_info s p who) x else 0)"
| "rounding cfg p (Claim_rewards who q) s = 0"
| "rounding cfg p (New_block b) s = 0"

text \<open>
  Documented behaviour of \<open>FixedU128\<close>, with \<open>inner\<close> reading the number of
  \<open>10 ^ -18\<close> units: a ratio is the exact one up to the last unit, and so is a product
  with an integer. Whether the last unit is cut off or rounded depends on the size of
  the operands and is left open.
\<close>

definition fixed_rounds :: "('f \<Rightarrow> nat) \<Rightarrow> ('pool, 'acc, 'l, 'f) pool_config \<Rightarrow> bool" where
  "fixed_rounds inner cfg \<longleftrightarrow>
     (\<forall>n d f. p_from_rational cfg n d = Some f \<longrightarrow>
        d \<noteq> 0 \<and> \<bar>of_nat (inner f) - num n * 10 ^ 18 / num d\<bar> \<le> 1) \<and>
     (\<forall>f m v. p_mul_int cfg f m = Some v \<longrightarrow> \<bar>num v - of_nat (inner f) * num m / 10 ^ 18\<bar> \<le> 1)"

section \<open>Arithmetic of shares\<close>

lemma num_nonneg [simp]: "0 \<le> num w"
  by (simp add: num_def del: of_nat_unat)

lemma num_0 [simp]: "num 0 = 0" "num w = 0 \<longleftrightarrow> w = 0"
  by (simp_all add: num_def unat_eq_0 del: of_nat_unat)

lemma num_le: "num v \<le> num w \<longleftrightarrow> unat v \<le> unat w"
  by (simp add: num_def del: of_nat_unat)

lemma num_add: "unat u = unat v + unat w \<Longrightarrow> num u = num v + num w"
  by (simp add: num_def del: of_nat_unat)

lemma part_le: "0 \<le> k \<Longrightarrow> k \<le> d \<Longrightarrow> \<bar>e * k / d\<bar> \<le> \<bar>e\<bar>" for e k d :: rat
proof (cases "d = 0")
  case False
  assume k: "0 \<le> k" "k \<le> d"
  with False have "\<bar>e\<bar> * k \<le> \<bar>e\<bar> * d" by (intro mult_left_mono) auto
  with False k show ?thesis by (simp add: abs_mult field_simps)
qed simp

lemma div_floor_bounds:
  assumes "0 < d"
  shows "of_nat (n div d) \<le> (of_nat n / of_nat d :: rat)" "(of_nat n / of_nat d :: rat) < of_nat (n div d) + 1"
proof -
  have "n div d * d \<le> n" "n < (n div d + 1) * d"
    using assms dividend_less_div_times [of d n] by simp_all
  then have "of_nat (n div d * d) \<le> (of_nat n :: rat)" "(of_nat n :: rat) < of_nat ((n div d + 1) * d)"
    by (simp_all only: of_nat_le_iff of_nat_less_iff)
  then show "of_nat (n div d) \<le> (of_nat n / of_nat d :: rat)" "(of_nat n / of_nat d :: rat) < of_nat (n div d) + 1"
    using assms by (simp_all add: field_simps)
qed

text \<open>A ratio times an integer, in fixed-point arithmetic.\<close>

lemma fixed_product:
  assumes "fixed_rounds inner cfg" and "p_from_rational cfg n d = Some f" and "p_mul_int cfg f m = Some v"
  shows "d \<noteq> 0" "\<bar>num n * num m / num d - num v\<bar> \<le> 1 + num m / 10 ^ 18"
proof -
  define F where "F = (of_nat (inner f) :: rat) / 10 ^ 18"
  have F: "\<bar>F * 10 ^ 18 - num n * 10 ^ 18 / num d\<bar> \<le> 1" and V: "\<bar>num v - F * num m\<bar> \<le> 1"
    using assms by (simp_all add: fixed_rounds_def F_def)
  from assms show "d \<noteq> 0" by (simp add: fixed_rounds_def)
  have "\<bar>F - num n / num d\<bar> * 10 ^ 18 = \<bar>(F - num n / num d) * 10 ^ 18\<bar>" by (simp only: abs_mult) simp
  also have "\<dots> \<le> 1" using F by (simp add: algebra_simps)
  finally have "\<bar>F - num n / num d\<bar> \<le> 1 / 10 ^ 18" by simp
  note off = mult_right_mono [OF this num_nonneg [of m]]
  have "F * num m - num n * num m / num d = (F - num n / num d) * num m" by (simp add: left_diff_distrib)
  then have "\<bar>F * num m - num n * num m / num d\<bar> = \<bar>F - num n / num d\<bar> * num m"
    by (simp only: abs_mult abs_of_nonneg num_nonneg)
  also have "\<dots> \<le> num m / 10 ^ 18" using off by simp
  finally show "\<bar>num n * num m / num d - num v\<bar> \<le> 1 + num m / 10 ^ 18" using V by linarith
qed

lemma num_le_add: "unat u \<le> unat v + unat w \<Longrightarrow> num u \<le> num v + num w"
  unfolding num_def of_nat_add [symmetric] of_nat_le_iff .

lemma num_add_add: "unat t + unat u = unat v + unat w \<Longrightarrow> num t + num u = num v + num w"
  unfolding num_def of_nat_add [symmetric] of_nat_eq_iff .

text \<open>Entering and leaving at a price that is off by \<open>e\<close> moves at most \<open>e\<close> to or from a holder.\<close>

lemma join_shift:
  fixes s x S T v :: rat
  assumes "0 < S" and "0 \<le> x" and "0 \<le> s" and "s \<le> S"
  shows "\<bar>(s + x) * (T + v) / (S + x) - v - s * T / S\<bar> \<le> \<bar>x * T / S - v\<bar>"
    and "\<bar>s * (T + v) / (S + x) - s * T / S\<bar> \<le> \<bar>x * T / S - v\<bar>"
proof -
  have pos: "S \<noteq> 0" "S + x \<noteq> 0" using assms by auto
  have "(s + x) * (T + v) / (S + x) - v - s * T / S = (x * T / S - v) * (S - s) / (S + x)"
    using pos by (simp add: divide_simps) (simp add: algebra_simps)
  then show "\<bar>(s + x) * (T + v) / (S + x) - v - s * T / S\<bar> \<le> \<bar>x * T / S - v\<bar>"
    using assms by (simp only:) (rule part_le, simp_all)
  have "s * (T + v) / (S + x) - s * T / S = - ((x * T / S - v) * s / (S + x))"
    using pos by (simp add: divide_simps) (simp add: algebra_simps)
  then show "\<bar>s * (T + v) / (S + x) - s * T / S\<bar> \<le> \<bar>x * T / S - v\<bar>"
    using assms by (simp only: abs_minus_cancel) (rule part_le, simp_all)
qed

lemma leave_shift:
  fixes s x S T v :: rat
  assumes "0 < S" and "0 \<le> x" and "x \<le> S" and "0 \<le> s" and "s \<le> S - x"
  shows "\<bar>s * (T - v) / (S - x) + v - (s + x) * T / S\<bar> \<le> \<bar>x * T / S - v\<bar>"
    and "\<bar>s * (T - v) / (S - x) - s * T / S\<bar> \<le> \<bar>x * T / S - v\<bar>"
proof -
  show "\<bar>s * (T - v) / (S - x) + v - (s + x) * T / S\<bar> \<le> \<bar>x * T / S - v\<bar>"
  proof (cases "S = x")
    case False
    have "s * (T - v) / (S - x) + v - (s + x) * T / S = - ((x * T / S - v) * (S - x - s) / (S - x))"
      using False assms(1) by (simp add: divide_simps) (simp add: algebra_simps)
    then show ?thesis using assms by (simp only: abs_minus_cancel) (rule part_le, simp_all)
  qed (use assms in auto)
  show "\<bar>s * (T - v) / (S - x) - s * T / S\<bar> \<le> \<bar>x * T / S - v\<bar>"
  proof (cases "S = x")
    case False
    have "s * (T - v) / (S - x) - s * T / S = (x * T / S - v) * s / (S - x)"
      using False assms(1) by (simp add: divide_simps) (simp add: algebra_simps)
    then show ?thesis using assms by (simp only:) (rule part_le, simp_all)
  qed (use assms in auto)
qed

text \<open>Leaving a pool without taking anything out shares the part out among the others.\<close>

lemma leave_unpaid:
  fixes s x S T :: rat
  assumes "0 < S" and "S = x \<longrightarrow> s = 0"
  shows "s * T / (S - x) = s * T / S + s / (S - x) * (x * T / S)"
proof (cases "S = x")
  case False
  with assms(1) show ?thesis by (simp add: divide_simps) (simp add: algebra_simps)
qed (use assms in simp)

section \<open>Where the amounts of an operation come from\<close>

lemma add_share_price:
  "add_share cfg who p amount s = (t, Ok n) \<Longrightarrow>
     \<exists>u info f (v :: balance) S R b. update_pool_reward cfg p s = (u, Ok info) \<and>
       p_mul_int cfg f amount = Some v \<and>
       (total_shares info \<noteq> 0 \<longrightarrow> p_from_rational cfg (total_rewards info) (total_shares info) = Some f) \<and>
       unat S = unat (total_shares info) + unat amount \<and>
       unat R = unat (total_rewards info) + unat v \<and>
       unat n = unat (shares (get_pool_account_info u p who)) + unat amount \<and>
       unat b = unat (borrowed_amount (get_pool_account_info u p who)) + unat v \<and>
       t = put_account p who \<lparr>shares = n, borrowed_amount = b\<rparr>
             (put_pool p (info\<lparr>total_shares := S, total_rewards := R\<rparr>) u)"
  unfolding add_share_def
  by (clarsimp simp: word_nat) (intro exI conjI impI, assumption, simp, (assumption | rule refl)+)

text \<open>The computed part, the borrowed amount that goes with it, and the reward.\<close>

lemma get_rewards_price:
  assumes "get_rewards_by_account_shares cfg info acc amount = Ok (info', acc', r)"
  shows "\<exists>f g (rv :: balance) (b :: balance).
    p_from_rational cfg amount (total_shares info) = Some f \<and> p_mul_int cfg f (total_rewards info) = Some rv \<and>
    p_from_rational cfg amount (shares acc) = Some g \<and> p_mul_int cfg g (borrowed_amount acc) = Some b \<and>
    unat (borrowed_amount acc) = unat (borrowed_amount acc') + unat b \<and>
    (unpaid cfg info acc amount \<longleftrightarrow> unat rv \<le> unat b + unat (p_existential_reward cfg)) \<and>
    (if unpaid cfg info acc amount then r = 0 \<and> total_rewards info' = total_rewards info
     else unat rv = unat r + unat b \<and> unat (total_rewards info) = unat (total_rewards info') + unat rv)"
proof -
  from assms have nz: "total_shares info \<noteq> 0" "amount \<noteq> 0"
    by (auto simp: get_rewards_by_account_shares_def split: if_splits)
  with assms show ?thesis
    by (auto simp: get_rewards_by_account_shares_def calc_reward_by_shares_def unpaid_def word_nat
        word_le_nat_alt word_less_nat_alt bind_eq_Some_conv split: if_splits)
qed

lemma update_worth:
  assumes "update_pool_reward cfg p s = (u, Ok info)"
  shows "get_pool_info u p = info" "get_pool_account_info u = get_pool_account_info s"
    "fst (updated cfg s p) = info" "total_shares info = total_shares (get_pool_info s p)"
    "worth info acc = worth (get_pool_info s p) acc +
       num (shares acc) * num (snd (updated cfg s p)) / num (total_shares (get_pool_info s p))"
proof -
  from assms obtain r where c: "calc_pool_reward cfg s p = Ok (info, r)"
    by (auto simp: update_pool_reward_Ok)
  then have c': "calc_pool_reward_at_block cfg p (get_pool_info s p) (current_block s) = Ok (info, r)"
    by (simp add: calc_pool_reward_def)
  note facts = calc_at_block_Ok [OF c']
  show "get_pool_info u p = info" using update_pool_reward_stored [OF assms] by simp
  show "get_pool_account_info u = get_pool_account_info s" by (rule update_pool_reward_accounts [OF assms])
  show "fst (updated cfg s p) = info" using c by (simp add: updated_def)
  show "total_shares info = total_shares (get_pool_info s p)" using facts by simp
  have "num (total_rewards info) = num (total_rewards (get_pool_info s p)) + num r"
    using facts by (intro num_add) simp
  moreover have "snd (updated cfg s p) = r" using c by (simp add: updated_def)
  ultimately show "worth info acc = worth (get_pool_info s p) acc +
       num (shares acc) * num (snd (updated cfg s p)) / num (total_shares (get_pool_info s p))"
    using facts by (simp add: worth_def distrib_left add_divide_distrib)
qed

section \<open>The ledger\<close>

lemma ledger_update:
  assumes "token_updates bal cfg" and "update_pool_reward cfg p s = (u, Ok info)"
    and "a \<notin> range (p_sub_account cfg)"
  shows "bal (funds u) a = bal (funds s) a"
proof -
  from assms(2) obtain r l where l: "if r = 0 then l = funds s
      else p_update_balance cfg (p_native_currency cfg) (p_sub_account cfg p)
        (saturated_amount r) (funds s) = (l, Ok ())" and u: "u = (put_pool p info s)\<lparr>funds := l\<rparr>"
    by (auto simp: update_pool_reward_Ok)
  have "0 \<le> saturated_amount r" by (simp add: saturated_amount_def)
  with assms(1) l have "r = 0 \<or> (\<forall>b. b \<noteq> p_sub_account cfg p \<longrightarrow> bal l b = bal (funds s) b)"
    unfolding token_updates_def by metis
  with assms(3) l u show ?thesis by (auto split: if_splits)
qed

lemma ledger_pay:
  assumes "token_transfers bal cfg"
    and "p_transfer cfg (p_native_currency cfg) (p_sub_account cfg p) who r l = (l', Ok ())"
    and "who \<notin> range (p_sub_account cfg)" and "a \<notin> range (p_sub_account cfg)"
  shows "num (bal l' a) - num (bal l a) = (if a = who then num r else 0)"
proof -
  have ne: "p_sub_account cfg p \<noteq> who" "a \<noteq> p_sub_account cfg p" using assms(3,4) by auto
  with assms(1,2) have "unat (bal l' who) = unat (bal l who) + unat r"
    "\<And>c. c \<noteq> p_sub_account cfg p \<Longrightarrow> c \<noteq> who \<Longrightarrow> bal l' c = bal l c"
    unfolding token_transfers_def by (metis, metis)
  with ne num_add [of "bal l' who" "bal l who" r] show ?thesis by auto
qed

section \<open>Each operation against the ideal distribution\<close>

text \<open>The change of an entitlement after the pool is updated, less the payment.\<close>

lemma fair_add:
  assumes "fixed_rounds inner cfg" and "token_updates bal cfg" and "a \<notin> range (p_sub_account cfg)"
    and "pool_books s" and "add_share cfg who p x s = (t, Ok n)"
    and "info = fst (updated cfg s p)"
  shows "num (bal (funds t) a) - num (bal (funds s) a) = 0"
    and "\<bar>entitlement t p a - worth info (get_pool_account_info s p a) -
      (if total_shares info = 0 \<and> a = who then num (total_rewards info) else 0)\<bar> \<le> entry_tolerance info x"
proof -
  from add_share_price [OF assms(5)] obtain u info' f S R b and v :: balance where
    u: "update_pool_reward cfg p s = (u, Ok info')" and v: "p_mul_int cfg f x = Some v"
    and price: "total_shares info' \<noteq> 0 \<longrightarrow> p_from_rational cfg (total_rewards info') (total_shares info') = Some f"
    and eqs: "unat S = unat (total_shares info') + unat x" "unat R = unat (total_rewards info') + unat v"
      "unat n = unat (shares (get_pool_account_info u p who)) + unat x"
      "unat b = unat (borrowed_amount (get_pool_account_info u p who)) + unat v"
    and t: "t = put_account p who \<lparr>shares = n, borrowed_amount = b\<rparr>
      (put_pool p (info'\<lparr>total_shares := S, total_rewards := R\<rparr>) u)" by blast
  note upd = update_worth [OF u]
  have info: "info' = info" using upd assms(6) by simp
  note nums = eqs [THEN num_add]
  show "num (bal (funds t) a) - num (bal (funds s) a) = 0"
    using ledger_update [OF assms(2) u assms(3)] by (simp add: t)
  let ?acc = "get_pool_account_info s p a"
  have le: "num (shares ?acc) \<le> num (total_shares info)"
    using entry_le_held [OF assms(4), of p a] assms(4) upd info by (simp add: num_le pool_books_def)
  show "\<bar>entitlement t p a - worth info ?acc -
      (if total_shares info = 0 \<and> a = who then num (total_rewards info) else 0)\<bar> \<le> entry_tolerance info x"
  proof (cases "total_shares info = 0")
    case True
    with le have "num (shares ?acc) \<le> 0" by simp
    then have "num (shares ?acc) = 0" using num_nonneg by (rule order_antisym)
    moreover have "x \<noteq> 0" using assms(5) by (auto simp: add_share_def)
    ultimately show ?thesis
      using True upd nums by (auto simp: entitlement_def t worth_def info entry_tolerance_def)
  next
    case False
    have pos: "0 < num (total_shares info)" using False num_nonneg [of "total_shares info"]
      by (simp add: order_less_le del: num_nonneg)
    from False price info have "p_from_rational cfg (total_rewards info) (total_shares info) = Some f" by simp
    from fixed_product [OF assms(1) this v]
    have off: "\<bar>num x * num (total_rewards info) / num (total_shares info) - num v\<bar> \<le> 1 + num x / 10 ^ 18"
      by (simp add: mult.commute)
    from join_shift [OF pos num_nonneg [of x] num_nonneg le, of "num (total_rewards info)" "num v"] off
    show ?thesis
      using False upd nums by (auto simp: entitlement_def t worth_def info entry_tolerance_def)
  qed
qed

lemma worth_remove:
  assumes "fixed_rounds inner cfg"
    and "get_rewards_by_account_shares cfg info acc x = Ok (info', acc', r)"
    and "unat (shares acc') \<le> unat (total_shares info')" and "unat (shares c) \<le> unat (total_shares info')"
  shows "\<bar>worth info' acc' + num r - worth info acc -
      (if unpaid cfg info acc x
       then (num (shares acc) - num x) / (num (total_shares info) - num x) * exact_part info x - forfeited info acc x
       else 0)\<bar> \<le> removal_tolerance cfg info acc x"
    and "\<bar>worth info' c - worth info c -
      (if unpaid cfg info acc x then num (shares c) / (num (total_shares info) - num x) * exact_part info x else 0)\<bar>
      \<le> removal_tolerance cfg info acc x"
proof -
  let ?T = "num (total_rewards info)" and ?S = "num (total_shares info)"
  note gr = get_rewards_Ok [OF assms(2)]
  from get_rewards_price [OF assms(2)] obtain f g and rv b :: balance where
    f: "p_from_rational cfg x (total_shares info) = Some f" "p_mul_int cfg f (total_rewards info) = Some rv"
    and g: "p_from_rational cfg x (shares acc) = Some g" "p_mul_int cfg g (borrowed_amount acc) = Some b"
    and b: "unat (borrowed_amount acc) = unat (borrowed_amount acc') + unat b"
    and cases: "if unpaid cfg info acc x then r = 0 \<and> total_rewards info' = total_rewards info
      else unat rv = unat r + unat b \<and> unat (total_rewards info) = unat (total_rewards info') + unat rv" by blast
  note price = fixed_product [OF assms(1) f]
  note returned = fixed_product(2) [OF assms(1) g]
  have S: "?S = num (total_shares info') + num x" using gr by (intro num_add) simp
  have s: "num (shares acc) = num (shares acc') + num x" using gr by (intro num_add) simp
  have S': "num (total_shares info') = ?S - num x" using S by simp
  have pos: "0 < ?S" using price(1) by (simp add: order_less_le)
  have le: "num (shares acc') \<le> ?S - num x" "num (shares c) \<le> ?S - num x"
    using assms(3,4) by (simp_all only: S' [symmetric] num_le)
  have zero: "?S = num x \<longrightarrow> num (shares acc') = 0" "?S = num x \<longrightarrow> num (shares c) = 0"
    using le num_nonneg [of "shares acc'"] num_nonneg [of "shares c"] by (auto simp del: num_nonneg num_0)
  have "num x \<le> ?S" by (simp add: S)
  note shift = leave_shift [OF pos num_nonneg [of x] this num_nonneg]
  have B: "num (borrowed_amount acc) = num (borrowed_amount acc') + num b" using b by (rule num_add)
  show "\<bar>worth info' acc' + num r - worth info acc -
      (if unpaid cfg info acc x
       then (num (shares acc) - num x) / (num (total_shares info) - num x) * exact_part info x - forfeited info acc x
       else 0)\<bar> \<le> removal_tolerance cfg info acc x"
  proof (cases "unpaid cfg info acc x")
    case True
    with cases have "worth info' acc' + num r - worth info acc =
        num (shares acc') * ?T / (?S - num x) - (num (shares acc') + num x) * ?T / ?S + num b"
      by (simp add: worth_def S' s B)
    also have "\<dots> = num (shares acc') / (?S - num x) * exact_part info x - exact_part info x + num b"
      using leave_unpaid [OF pos zero(1), of ?T] by (simp add: exact_part_def add_divide_distrib distrib_right)
    finally show ?thesis
      using True returned by (simp add: forfeited_def removal_tolerance_def s)
  next
    case False
    with cases have T: "?T = num (total_rewards info') + num rv" by (intro num_add) simp
    then have T': "num (total_rewards info') = ?T - num rv" by simp
    have r: "num rv = num r + num b" using False cases by (intro num_add) simp
    from False order_trans [OF shift(1) [OF le(1), of ?T "num rv"] price(2)] show ?thesis
      by (simp add: worth_def S' s T' r B removal_tolerance_def algebra_simps)
  qed
  show "\<bar>worth info' c - worth info c -
      (if unpaid cfg info acc x then num (shares c) / (num (total_shares info) - num x) * exact_part info x else 0)\<bar>
      \<le> removal_tolerance cfg info acc x"
  proof (cases "unpaid cfg info acc x")
    case True
    with cases leave_unpaid [OF pos zero(2), of ?T] show ?thesis
      by (simp add: worth_def S' exact_part_def removal_tolerance_def add_nonneg_nonneg)
  next
    case False
    with cases have T: "?T = num (total_rewards info') + num rv" by (intro num_add) simp
    then have T': "num (total_rewards info') = ?T - num rv" by simp
    from False T' order_trans [OF shift(2) [OF le(2), of ?T "num rv"] price(2)] show ?thesis
      by (simp add: worth_def S' removal_tolerance_def)
  qed
qed

lemma fair_remove:
  assumes "fixed_rounds inner cfg" and "token_updates bal cfg" and "token_transfers bal cfg"
    and "a \<notin> range (p_sub_account cfg)" and "who \<notin> range (p_sub_account cfg)"
    and "pool_books s" and "remove_share cfg who p x s = (t, Ok n)"
    and "info = fst (updated cfg s p)" and "acc = get_pool_account_info s p who"
  shows "\<bar>entitlement t p a + (num (bal (funds t) a) - num (bal (funds s) a)) -
      worth info (get_pool_account_info s p a) -
      (if unpaid cfg info acc x
       then (num (get_account_shares s a p) - (if a = who then num x else 0)) /
              (num (total_shares info) - num x) * exact_part info x -
            (if a = who then forfeited info acc x else 0)
       else 0)\<bar> \<le> removal_tolerance cfg info acc x"
proof -
  from assms(7) obtain u info' acc' r l where u: "update_pool_reward cfg p s = (u, Ok info)"
    and g: "get_rewards_by_account_shares cfg info acc x = Ok (info', acc', r)"
    and x: "p_transfer cfg (p_native_currency cfg) (p_sub_account cfg p) who r (funds u) = (l, Ok ())"
    and t: "t = (put_account p who acc' (put_pool p info' u))\<lparr>funds := l\<rparr>"
    using update_worth(2,3) assms(8,9) by (fastforce simp: remove_share_Ok)
  have pay: "num (bal (funds t) a) - num (bal (funds s) a) = (if a = who then num r else 0)"
    using ledger_pay [OF assms(3) x assms(5,4)] ledger_update [OF assms(2) u assms(4)] by (simp add: t)
  have books: "unat (shares (get_pool_account_info t p c)) \<le> unat (total_shares info')" for c
    using entry_le_held [OF pool_books_remove [OF assms(6,7)], of p c] pool_books_remove [OF assms(6,7)]
    by (simp add: pool_books_def t)
  have me: "unat (shares acc') \<le> unat (total_shares info')" using books [of who] by (simp add: t)
  have other: "get_pool_account_info t p a = get_pool_account_info s p a" if "a \<noteq> who"
    using that update_worth(2) [OF u] by (simp add: t)
  show ?thesis
  proof (cases "a = who")
    case True
    with worth_remove(1) [OF assms(1) g me me, unfolded assms(9)] pay show ?thesis
      unfolding assms(9) by (auto simp: entitlement_def get_account_shares_def t split: if_splits)
  next
    case False
    with worth_remove(2) [OF assms(1) g me, of "get_pool_account_info s p a"] pay books [of a]
    show ?thesis by (auto simp: entitlement_def other get_account_shares_def split: if_splits) (auto simp: t)
  qed
qed

text \<open>A claim moves nothing between holders: the borrowed amount grows by what is paid.\<close>

lemma fair_claim:
  assumes "token_updates bal cfg" and "token_transfers bal cfg"
    and "a \<notin> range (p_sub_account cfg)" and "who \<notin> range (p_sub_account cfg)"
    and "claim_rewards cfg who p s = (t, Ok r)" and "info = fst (updated cfg s p)"
  shows "entitlement t p a + (num (bal (funds t) a) - num (bal (funds s) a)) =
    worth info (get_pool_account_info s p a)"
proof -
  from assms(5) obtain u where u: "update_pool_reward cfg p s = (u, Ok info)"
    using update_worth(3) assms(6) by (fastforce simp: claim_rewards_Ok)
  note upd = update_worth [OF u]
  let ?acc = "get_pool_account_info s p who"
  have keep: "bal (funds u) a = bal (funds s) a" by (rule ledger_update [OF assms(1) u assms(3)])
  from assms(5) u upd consider "t = u"
    | rv d x l where "checked_sub rv (borrowed_amount ?acc) = Some d"
        "p_transfer cfg (p_native_currency cfg) (p_sub_account cfg p) who d (funds u) = (l, Ok ())"
        "t = (put_account p who (?acc\<lparr>borrowed_amount := rv\<rparr>)
           (put_pool p (info\<lparr>total_rewards_useable := x\<rparr>) u))\<lparr>funds := l\<rparr>"
    by (auto simp: claim_rewards_Ok Let_def split: if_splits)
  then show ?thesis
  proof cases
    case 1
    then show ?thesis using upd keep by (simp add: entitlement_def)
  next
    case 2
    from 2(1) have "num rv = num (borrowed_amount ?acc) + num d" by (intro num_add) (simp add: word_nat)
    with ledger_pay [OF assms(2) 2(2) assms(4,3)] 2(3) upd keep show ?thesis
      by (auto simp: entitlement_def worth_def)
  qed
qed

section \<open>Steps and runs\<close>

lemma succeeds_Ok: "succeeds m s \<Longrightarrow> \<exists>t x. m s = (t, Ok x)"
  by (cases "m s") (auto simp: succeeds_def split: result.splits)

lemma not_succeeds: "\<not> succeeds m s \<Longrightarrow> fst (transactional m s) = s"
  by (cases "m s") (auto simp: succeeds_def transactional_def split: result.splits)

lemma transactional_frame:
  assumes "q = p \<Longrightarrow> \<not> succeeds m s" and "\<And>t x. q \<noteq> p \<Longrightarrow> m s = (t, Ok x) \<Longrightarrow> E t = E s"
  shows "E (fst (transactional m s)) = E s"
proof (cases "succeeds m s")
  case True
  from succeeds_Ok [OF True] obtain t x where "m s = (t, Ok x)" by blast
  with True assms show ?thesis by (auto simp: transactional_eval)
qed (simp add: not_succeeds)

text \<open>What an operation on a pool reads: the pool, one of its accounts, and the block.\<close>

definition pool_view ::
  "'pool \<Rightarrow> 'acc \<Rightarrow> ('pool, 'acc, 'l) pool_state \<Rightarrow> pool_info \<times> pool_account_info \<times> block_number" where
  "pool_view p a s = (get_pool_info s p, get_pool_account_info s p a, current_block s)"

lemma pool_view_other [simp]:
  "q \<noteq> p \<Longrightarrow> pool_view p a (put_account q who i u) = pool_view p a u"
  "q \<noteq> p \<Longrightarrow> pool_view p a (put_pool q j u) = pool_view p a u"
  "pool_view p a (u\<lparr>funds := l\<rparr>) = pool_view p a u"
  by (simp_all add: pool_view_def)

lemma pool_view_update:
  "update_pool_reward cfg q s = (u, Ok info) \<Longrightarrow> q \<noteq> p \<Longrightarrow> pool_view p a u = pool_view p a s"
  by (auto simp: update_pool_reward_Ok)

text \<open>An operation that fails, or acts on another pool, leaves the pool alone.\<close>

lemma step_frame:
  assumes "\<not> acts_on cfg p l s" and "\<And>b. l \<noteq> New_block b"
  shows "pool_view p a (pool_step cfg l s) = pool_view p a s"
proof (cases l)
  case (Add_share who q x)
  have "pool_view p a t = pool_view p a s" if "q \<noteq> p" "add_share cfg who q x s = (t, Ok n)" for t n
    using add_share_Ok [OF that(2)] pool_view_update that(1) by fastforce
  with assms Add_share show ?thesis
    by (simp add: transactional_frame [where E = "pool_view p a" and q = q and p = p])
next
  case (Remove_share who q x)
  have "pool_view p a t = pool_view p a s" if "q \<noteq> p" "remove_share cfg who q x s = (t, Ok n)" for t n
    using that pool_view_update by (fastforce simp: remove_share_Ok)
  with assms Remove_share show ?thesis
    by (simp add: transactional_frame [where E = "pool_view p a" and q = q and p = p])
next
  case (Claim_rewards who q)
  have "pool_view p a t = pool_view p a s" if "q \<noteq> p" "claim_rewards cfg who q s = (t, Ok n)" for t n
    using that pool_view_update by (fastforce simp: claim_rewards_Ok Let_def split: if_splits)
  with assms Claim_rewards show ?thesis
    by (simp add: transactional_frame [where E = "pool_view p a" and q = q and p = p])
qed (use assms in simp)

lemma entitlement_frame:
  assumes "\<not> acts_on cfg p l s"
  shows "entitlement (pool_step cfg l s) p a = entitlement s p a"
proof (cases "\<exists>b. l = New_block b")
  case True
  then show ?thesis by (auto simp: entitlement_def get_pool_info_def get_pool_account_info_def)
next
  case False
  with step_frame [OF assms, of a] show ?thesis by (auto simp: pool_view_def entitlement_def)
qed

lemma acts_on_worth:
  assumes "acts_on cfg p l s" and "update_pool_reward cfg p s = (u, Ok info)"
  shows "worth (fst (updated cfg s p)) (get_pool_account_info s p a) = entitlement s p a + due cfg p a l s"
  using update_worth(3,5) [OF assms(2)] assms(1)
  by (simp add: entitlement_def due_def get_account_shares_def)

text \<open>The laws under which payments can be read off the ledger, for one account.\<close>

definition fair_setting ::
  "('f \<Rightarrow> nat) \<Rightarrow> ('l \<Rightarrow> 'acc \<Rightarrow> balance) \<Rightarrow> ('pool, 'acc, 'l, 'f) pool_config \<Rightarrow> 'acc \<Rightarrow> bool" where
  "fair_setting inner bal cfg a \<longleftrightarrow>
     fixed_rounds inner cfg \<and> token_updates bal cfg \<and> token_transfers bal cfg \<and>
     a \<notin> range (p_sub_account cfg)"

lemma no_shift: "\<not> acts_on cfg p l s \<Longrightarrow> rounding cfg p l s = 0 \<and> left_behind cfg p a l s = 0"
  by (cases l) (auto simp: Let_def)

lemma fair_step:
  assumes "fair_setting inner bal cfg a \<and> pool_books s"
    and "actor_of l \<notin> Some ` range (p_sub_account cfg)"
  shows "\<bar>entitlement (pool_step cfg l s) p a - entitlement s p a -
      (due cfg p a l s + left_behind cfg p a l s - received bal cfg p a l s)\<bar> \<le> rounding cfg p l s"
proof (cases "acts_on cfg p l s")
  case False
  with no_shift [OF this, of a] show ?thesis by (simp add: entitlement_frame due_def received_def)
next
  case True
  from assms(1) have laws: "fixed_rounds inner cfg" "token_updates bal cfg" "token_transfers bal cfg"
    "a \<notin> range (p_sub_account cfg)" "pool_books s" by (simp_all add: fair_setting_def)
  show ?thesis
  proof (cases l)
    case (Add_share who q x)
    with True obtain t n where q: "q = p" and t: "add_share cfg who p x s = (t, Ok n)"
      by (auto dest: succeeds_Ok)
    then have step: "pool_step cfg l s = t" using Add_share by (simp add: transactional_eval)
    from add_share_Ok [OF t] obtain u info where "update_pool_reward cfg p s = (u, Ok info)" by blast
    note w = acts_on_worth [OF True this, of a]
    from fair_add [OF laws(1,2,4,5) t refl] True w step Add_share show ?thesis
      by (auto simp: received_def Let_def algebra_simps)
  next
    case (Remove_share who q x)
    with True obtain t n where q: "q = p" and t: "remove_share cfg who p x s = (t, Ok n)"
      by (auto dest: succeeds_Ok)
    then have step: "pool_step cfg l s = t" using Remove_share by (simp add: transactional_eval)
    have who: "who \<notin> range (p_sub_account cfg)" using assms(2) Remove_share by auto
    from t obtain u info where "update_pool_reward cfg p s = (u, Ok info)" by (auto simp: remove_share_Ok)
    note w = acts_on_worth [OF True this, of a]
    from fair_remove [OF laws(1-4) who laws(5) t refl refl] True w step Remove_share q show ?thesis
      by (simp add: received_def Let_def algebra_simps del: acts_on.simps)
  next
    case (Claim_rewards who q)
    with True obtain t n where q: "q = p" and t: "claim_rewards cfg who p s = (t, Ok n)"
      by (auto dest: succeeds_Ok)
    then have step: "pool_step cfg l s = t" using Claim_rewards by (simp add: transactional_eval)
    have who: "who \<notin> range (p_sub_account cfg)" using assms(2) Claim_rewards by auto
    from t obtain u info where "update_pool_reward cfg p s = (u, Ok info)" by (auto simp: claim_rewards_Ok)
    note w = acts_on_worth [OF True this, of a]
    from fair_claim [OF laws(2-4) who t refl] True w step Claim_rewards show ?thesis
      by (auto simp: received_def algebra_simps)
  next
    case (New_block b)
    with True show ?thesis by simp
  qed
qed

interpretation fair: step_budget "pool_step cfg" "\<lambda>s. fair_setting inner bal cfg a \<and> pool_books s"
  "\<lambda>l s. actor_of l \<notin> Some ` range (p_sub_account cfg)" "\<lambda>s. entitlement s p a"
  "\<lambda>l s. due cfg p a l s + left_behind cfg p a l s - received bal cfg p a l s" "rounding cfg p" for cfg inner bal p a
  by unfold_locales (auto intro: books.step_keeps fair_step)

lemma entitlement_genesis [simp]: "entitlement (pool_genesis l) p a = 0"
  by (simp add: entitlement_def worth_def pool_genesis_def get_pool_info_def get_pool_account_info_def
      default_pool_def default_account_def)

section \<open>Properties\<close>


lemma div_close: "0 < d \<Longrightarrow> \<bar>of_nat (n div d) - of_nat n / of_nat d :: rat\<bar> \<le> 1"
  using div_floor_bounds [of d n] by (simp add: abs_le_iff)

lemma demo_fixed_rounds:
  assumes "p_from_rational cfg = demo_from_rational" and "p_mul_int cfg = demo_mul_int"
  shows "fixed_rounds id cfg"
proof -
  have "d \<noteq> 0 \<and> \<bar>of_nat f - num n * 10 ^ 18 / num d\<bar> \<le> 1" if "demo_from_rational n d = Some f" for n d f
  proof -
    from that have "d \<noteq> 0" "f = unat n * 10 ^ 18 div unat d"
      by (simp_all add: demo_from_rational_def Let_def split: if_splits)
    with div_close [of "unat d" "unat n * 10 ^ 18"] show ?thesis
      by (simp add: num_def unat_gt_0 del: of_nat_unat)
  qed
  moreover have "\<bar>num v - of_nat f * num m / 10 ^ 18\<bar> \<le> 1" if "demo_mul_int f m = Some v" for f m v
  proof -
    from that have "unat v = f * unat m div 10 ^ 18"
      by (auto simp: demo_mul_int_def Let_def unsigned_of_nat take_bit_nat_eq_self split: if_splits)
    with div_close [of "10 ^ 18" "f * unat m"] show ?thesis by (simp add: num_def del: of_nat_unat)
  qed
  ultimately show ?thesis by (simp add: fixed_rounds_def assms)
qed

text \<open>Account 1 holds half of the pool for the second thousand, and leaves.\<close>

definition demo_leaving :: "(nat, nat) pool_label list" where
  "demo_leaving = [New_block 2, Add_share 1 0 50, New_block 12, Add_share 2 0 50, New_block 22, Remove_share 1 0 50]"


end
