(* ===== verification/Incentives.thy ===== *)
theory Incentives
  imports Reward_Pool
begin

text \<open>
  The incentives pallet, \<^verbatim>\<open>modules/incentives/src/lib.rs\<close> with the trait
  \<open>IncentiveOps\<close> (\<^verbatim>\<open>modules/traits/src/incentive_ops.rs\<close>): it names reward pools by
  unordered currency pairs, stores the reward per block of each pair, is the
  reward handler of the reward pool, and forwards the share operations to it.

  The pallet's associated type \<open>RewardPool\<close> is the argument \<open>R\<close>, a record of the
  operations of \<open>RewardPoolOps\<close>; the client lemmas are proved once in the
  contract \<open>reward_pool_contract\<close> and hold for the reward pool through its
  interpretation. The reward handler is shown to satisfy the contract
  \<open>reward_schedule\<close>.
\<close>

section \<open>Data\<close>

record pair_key =
  left :: currency_id
  right :: currency_id

definition pair_key_try_from :: "currency_id \<Rightarrow> currency_id \<Rightarrow> pair_key option" where
  "pair_key_try_from first second =
     (if first = second then None
      else if first < second then Some \<lparr>left = first, right = second\<rparr>
      else Some \<lparr>left = second, right = first\<rparr>)"

datatype pool_id = Dex pair_key

text \<open>The storage map \<open>DexIncentiveRewards\<close>, with the default of its getter.\<close>

type_synonym dex_rewards = "(pool_id, balance) smap"

definition dex_incentive_rewards :: "dex_rewards \<Rightarrow> pool_id \<Rightarrow> balance" where
  "dex_incentive_rewards D p = (case map_of D p of Some v \<Rightarrow> v | None \<Rightarrow> 0)"

record incentive_pool_account_info =
  info_shares :: share
  info_accumlated_rewards :: balance

section \<open>Genesis\<close>

text \<open>The loop of the genesis builder; \<open>unwrap\<close> and \<open>assert\<close> abort it.\<close>

fun genesis_build :: "(currency_id \<times> currency_id \<times> balance) list \<Rightarrow> dex_rewards \<Rightarrow> dex_rewards may_panic" where
  "genesis_build [] D = Returns D"
| "genesis_build ((l, r, reward_per_block) # rest) D =
     (case pair_key_try_from l r of
        None \<Rightarrow> Panics
      | Some pair_key \<Rightarrow>
          if reward_per_block = 0 then Panics
          else genesis_build rest (smap_insert (Dex pair_key) reward_per_block D))"

section \<open>Operations\<close>

definition get_dex_id :: "currency_id \<Rightarrow> currency_id \<Rightarrow> (pool_id, dispatch_error) result" where
  "get_dex_id first second =
     result_bind (ok_or (pair_key_try_from first second) (IncentivesError InvalidCurrencyPair))
       (\<lambda>pair_key. Ok (Dex pair_key))"

definition caculate_reward :: "dex_rewards \<Rightarrow> pool_id reward_handler" where
  "caculate_reward D p total_share last_update now =
     (if total_share = 0 then 0
      else if map_of D p = None \<or> last_update \<ge> now then 0
      else
        (let reward_ratio = dex_incentive_rewards D p
         in if reward_ratio = 0 then 0
            else (let blocks = now - last_update
                  in saturating_mul reward_ratio (saturated_into blocks))))"

definition incentive_add_share ::
  "('s, 'acc, pool_id) reward_pool_ops \<Rightarrow> 'acc \<Rightarrow> currency_id \<Rightarrow> currency_id \<Rightarrow> share \<Rightarrow>
   ('s, share, dispatch_error) comp" where
  "incentive_add_share R who first second amount =
     and_then (lift (ok_or (pair_key_try_from first second) (IncentivesError InvalidCurrencyPair)))
       (\<lambda>pair_key. rp_add_share R who (Dex pair_key) amount)"

definition incentive_remove_share ::
  "('s, 'acc, pool_id) reward_pool_ops \<Rightarrow> 'acc \<Rightarrow> currency_id \<Rightarrow> currency_id \<Rightarrow> share \<Rightarrow>
   ('s, share, dispatch_error) comp" where
  "incentive_remove_share R who first second amount =
     and_then (lift (ok_or (pair_key_try_from first second) (IncentivesError InvalidCurrencyPair)))
       (\<lambda>pair_key. rp_remove_share R who (Dex pair_key) amount)"

definition incentive_get_account_shares ::
  "('s, 'acc, pool_id) reward_pool_ops \<Rightarrow> 's \<Rightarrow> 'acc \<Rightarrow> currency_id \<Rightarrow> currency_id \<Rightarrow> share" where
  "incentive_get_account_shares R s who l r =
     (case get_dex_id l r of Ok p \<Rightarrow> rp_get_account_shares R s who p | Err e \<Rightarrow> 0)"

definition incentive_get_accumlated_rewards ::
  "('s, 'acc, pool_id) reward_pool_ops \<Rightarrow> 's \<Rightarrow> 'acc \<Rightarrow> currency_id \<Rightarrow> currency_id \<Rightarrow> balance" where
  "incentive_get_accumlated_rewards R s who l r =
     (case get_dex_id l r of Ok p \<Rightarrow> rp_get_accumlated_rewards R s who p | Err e \<Rightarrow> 0)"

definition incentive_get_account_info ::
  "('s, 'acc, pool_id) reward_pool_ops \<Rightarrow> 's \<Rightarrow> 'acc \<Rightarrow> currency_id \<Rightarrow> currency_id \<Rightarrow>
   incentive_pool_account_info" where
  "incentive_get_account_info R s who l r =
     (case get_dex_id l r of
        Ok p \<Rightarrow> \<lparr>info_shares = rp_get_account_shares R s who p,
                 info_accumlated_rewards = rp_get_accumlated_rewards R s who p\<rparr>
      | Err e \<Rightarrow> \<lparr>info_shares = 0, info_accumlated_rewards = 0\<rparr>)"

definition incentive_claim_rewards ::
  "('s, 'acc, pool_id) reward_pool_ops \<Rightarrow> 'acc \<Rightarrow> currency_id \<Rightarrow> currency_id \<Rightarrow>
   ('s, balance, dispatch_error) comp" where
  "incentive_claim_rewards R who l r =
     and_then (lift (get_dex_id l r)) (\<lambda>p. rp_claim_rewards R who p)"

definition get_all_incentive_pools ::
  "('s, 'acc, pool_id) reward_pool_ops \<Rightarrow> 's \<Rightarrow> (currency_id \<times> currency_id \<times> share \<times> balance) list" where
  "get_all_incentive_pools R s =
     map (\<lambda>(p, sh, b). case p of Dex k \<Rightarrow> (left k, right k, sh, b))
       (filter (\<lambda>(p, sh, b). case p of Dex k \<Rightarrow> True) (rp_get_all_pools R s))"

section \<open>Specification functions\<close>

text \<open>The last reward configured for a pair, in either order of the currencies.\<close>

fun configured :: "(currency_id \<times> currency_id \<times> balance) list \<Rightarrow> pool_id \<Rightarrow> balance option" where
  "configured [] p = None"
| "configured ((l, r, v) # rest) p =
     (case configured rest p of
        Some w \<Rightarrow> Some w
      | None \<Rightarrow> (if map_option Dex (pair_key_try_from l r) = Some p then Some v else None))"

definition valid_entry :: "currency_id \<times> currency_id \<times> balance \<Rightarrow> bool" where
  "valid_entry e = (case e of (l, r, v) \<Rightarrow> l \<noteq> r \<and> v \<noteq> 0)"

text \<open>The reward pool of a chain whose reward handler is this pallet.\<close>

definition incentive_stack ::
  "dex_rewards \<Rightarrow> (pool_id, 'acc, 'l, 'f) pool_config \<Rightarrow> (pool_id, 'acc, 'l, 'f) pool_config" where
  "incentive_stack D cfg = cfg\<lparr>p_handler := caculate_reward D\<rparr>"

fun demo_sub_account :: "pool_id \<Rightarrow> nat" where
  "demo_sub_account (Dex k) = 1000 + 4 * unat (currency_code (left k)) + unat (currency_code (right k))"

definition demo_dex :: "(pool_id, nat, nat book, nat) pool_config" where
  "demo_dex =
     \<lparr>p_handler = (\<lambda>_ _ _ _. 0), p_existential_reward = 10, p_sub_account = demo_sub_account,
      p_native_currency = CLV, p_update_balance = demo_update_balance, p_transfer = demo_transfer,
      p_from_rational = demo_from_rational, p_mul_int = demo_mul_int, p_fixed_zero = 0\<rparr>"

definition demo_rewards :: dex_rewards where
  "demo_rewards = [(Dex \<lparr>left = CLV, right = CUSDT\<rparr>, 100)]"

section \<open>Pairs\<close>

lemma try_from_eq_None [simp]: "pair_key_try_from a b = None \<longleftrightarrow> a = b"
  by (simp add: pair_key_try_from_def)

lemma try_from_same [simp]: "pair_key_try_from a a = None"
  by simp

lemma try_from_sym: "pair_key_try_from a b = pair_key_try_from b a"
  by (auto simp: pair_key_try_from_def)

lemma try_from_Some:
  "pair_key_try_from a b = Some k \<Longrightarrow> left k < right k \<and> {left k, right k} = {a, b}"
  by (auto simp: pair_key_try_from_def split: if_splits)

lemma try_from_inject:
  "pair_key_try_from a b = Some k \<Longrightarrow> pair_key_try_from c d = Some k \<longleftrightarrow> c \<noteq> d \<and> {c, d} = {a, b}"
  by (auto simp: pair_key_try_from_def doubleton_eq_iff split: if_splits)

lemma try_from_self: "left k < right k \<Longrightarrow> pair_key_try_from (left k) (right k) = Some k"
  by (simp add: pair_key_try_from_def)

lemma get_dex_id_sym: "get_dex_id a b = get_dex_id b a"
  by (simp add: get_dex_id_def try_from_sym [of a b])

lemma get_dex_id_Ok [simp]: "get_dex_id a b = Ok p \<longleftrightarrow> (\<exists>k. pair_key_try_from a b = Some k \<and> p = Dex k)"
  by (auto simp: get_dex_id_def)

lemma get_dex_id_Err [simp]: "get_dex_id a b = Err e \<longleftrightarrow> a = b \<and> e = IncentivesError InvalidCurrencyPair"
  by (auto simp: get_dex_id_def)

section \<open>The reward schedule\<close>

lemma caculate_reward_value:
  "total_share \<noteq> 0 \<Longrightarrow> a \<le> b \<Longrightarrow>
     unat (caculate_reward D p total_share a b) =
       min (unat (dex_incentive_rewards D p) * (unat b - unat a)) (2 ^ 128 - 1)"
proof -
  assume nz: "total_share \<noteq> 0" and le: "a \<le> b"
  have into: "unat (saturated_into (b - a) :: balance) = unat b - unat a"
  proof -
    have "unat (b - a) < 2 ^ 32" using unsigned_less [of "b - a", where 'a = nat] by simp
    with le show ?thesis by (simp add: word_nat unat_sub_le)
  qed
  show ?thesis
  proof (cases "b \<le> a")
    case True
    with le have "a = b" by simp
    then show ?thesis by (simp add: caculate_reward_def)
  next
    case False
    with nz into show ?thesis
      by (auto simp: caculate_reward_def dex_incentive_rewards_def Let_def word_nat
          split: option.splits)
  qed
qed

interpretation dex: reward_schedule "caculate_reward D" for D
proof
  fix p n a b c
  show "caculate_reward D p 0 a b = 0" by (simp add: caculate_reward_def)
  show "b \<le> a \<Longrightarrow> caculate_reward D p n a b = 0" by (simp add: caculate_reward_def)
  assume ab: "a \<le> b" and bc: "b \<le> c" and fits: "unat (caculate_reward D p n a c) < 2 ^ 128 - 1"
  show "unat (caculate_reward D p n a b) + unat (caculate_reward D p n b c) =
      unat (caculate_reward D p n a c)"
  proof (cases "n = 0")
    case True
    then show ?thesis by (simp add: caculate_reward_def)
  next
    case False
    let ?v = "unat (dex_incentive_rewards D p)"
    from ab bc have le: "unat a \<le> unat b" "unat b \<le> unat c" "a \<le> c"
      by (auto simp: word_le_nat_alt)
    then have split: "?v * (unat c - unat a) = ?v * (unat b - unat a) + ?v * (unat c - unat b)"
      by (simp add: add_mult_distrib2 [symmetric])
    have "?v * (unat c - unat a) < 2 ^ 128 - 1"
      using fits caculate_reward_value [OF False le(3), of D p] by simp
    with split show ?thesis
      by (simp add: caculate_reward_value [OF False] ab bc le(3))
  qed
qed

lemma caculate_reward_bound:
  assumes "\<And>p. unat (dex_incentive_rewards D p) < 2 ^ 95"
  shows "unat (caculate_reward D p n a b) < 2 ^ 127"
proof (cases "n = 0 \<or> b \<le> a")
  case True
  then show ?thesis by (auto simp: caculate_reward_def)
next
  case False
  have "unat b < 2 ^ 32" using unsigned_less [of b, where 'a = nat] by simp
  then have "unat b - unat a < 2 ^ 32" by simp
  with assms have "unat (dex_incentive_rewards D p) * (unat b - unat a) < 2 ^ 95 * 2 ^ 32"
    by (intro mult_strict_mono') simp_all
  with False show ?thesis using caculate_reward_value [of n a b D p] by auto
qed

lemma demo_sub_account_large [simp]: "demo_sub_account p \<noteq> Suc 0" "Suc 0 \<noteq> demo_sub_account p"
  by (cases p; simp)+

lemma demo_sub_account_inj: "inj demo_sub_account"
proof (rule injI)
  fix p q
  assume eq: "demo_sub_account p = demo_sub_account q"
  obtain j k where pq: "p = Dex j" "q = Dex k" by (cases p, cases q)
  have small: "unat (currency_code c) < 4" for c by (cases c) simp_all
  have "4 * unat (currency_code (left j)) + unat (currency_code (right j)) =
      4 * unat (currency_code (left k)) + unat (currency_code (right k))"
    using eq pq by simp
  with small [of "right j"] small [of "right k"]
  have "unat (currency_code (left j)) = unat (currency_code (left k)) \<and>
      unat (currency_code (right j)) = unat (currency_code (right k))" by presburger
  then show "p = q" using pq by (simp add: unat_eq_iff [symmetric])
qed

section \<open>Clients of the reward pool\<close>

text \<open>The contract for a reward pool whose pools are named by currency pairs.\<close>

locale incentive_pools = reward_pool_contract R
  for R :: "('s, 'acc, pool_id) reward_pool_ops"
begin

lemma pair_add:
  assumes "incentive_add_share R who a b n s = (t, Ok m)"
  shows "incentive_get_account_shares R t who b a = m \<and>
    unat m = unat (incentive_get_account_shares R s who a b) + unat n \<and>
    (x \<noteq> who \<or> {c, d} \<noteq> {a, b} \<longrightarrow>
      incentive_get_account_shares R t x c d = incentive_get_account_shares R s x c d)"
proof -
  from assms obtain k where k: "pair_key_try_from a b = Some k"
    and add: "rp_add_share R who (Dex k) n s = (t, Ok m)"
    by (auto simp: incentive_add_share_def)
  have dex: "get_dex_id a b = Ok (Dex k)" "get_dex_id b a = Ok (Dex k)"
    using k try_from_sym [of a b] by simp_all
  have "incentive_get_account_shares R t x c d = incentive_get_account_shares R s x c d"
    if "x \<noteq> who \<or> {c, d} \<noteq> {a, b}"
  proof (cases "get_dex_id c d")
    case (Ok q)
    then have "x \<noteq> who \<or> q \<noteq> Dex k" using that try_from_inject [OF k, of c d] by auto
    with add_frame [OF add] Ok show ?thesis
      by (simp add: incentive_get_account_shares_def del: get_dex_id_Ok)
  qed (simp add: incentive_get_account_shares_def del: get_dex_id_Err)
  with add_shares [OF add] dex show ?thesis
    by (auto simp: incentive_get_account_shares_def simp del: get_dex_id_Ok)
qed

end

interpretation pairs: incentive_pools "reward_pool_impl cfg" for cfg
  by unfold_locales

section \<open>Properties\<close>

text \<open>
  Pairs are unordered and proper. The key of a pair does not depend on the
  order of the currencies, exists exactly for two different currencies, has its
  left currency below its right one, and determines the pair.
\<close>

theorem pair_key_normalised:
  "pair_key_try_from a b = pair_key_try_from b a \<and> (pair_key_try_from a b = None \<longleftrightarrow> a = b) \<and>
   (pair_key_try_from a b = Some k \<longrightarrow>
      left k < right k \<and> (pair_key_try_from c d = Some k \<longleftrightarrow> c \<noteq> d \<and> {c, d} = {a, b}))"
  using try_from_sym [of a b] try_from_Some [of a b k] try_from_inject [of a b k c d] by auto

theorem pair_key_normalised_witness:
  "pair_key_try_from DOT CLV = Some \<lparr>left = CLV, right = DOT\<rparr> \<and> CLV < DOT"
proof -
  have k: "pair_key_try_from DOT CLV = Some \<lparr>left = CLV, right = DOT\<rparr>"
    by (simp add: pair_key_try_from_def less_currency_id_def)
  with pair_key_normalised [of DOT CLV "\<lparr>left = CLV, right = DOT\<rparr>"] show ?thesis by auto
qed

text \<open>
  The genesis builder aborts exactly when some entry names one currency twice
  or a zero reward; otherwise the storage holds, for every pair, the last reward
  configured for it in either order.
\<close>

theorem genesis_build_correct:
  "if list_all valid_entry cs
   then \<exists>D. genesis_build cs [] = Returns D \<and> map_of D = configured cs
   else genesis_build cs [] = Panics"
proof -
  have build: "if list_all valid_entry cs
    then \<exists>D'. genesis_build cs D = Returns D' \<and>
      map_of D' = (\<lambda>p. case configured cs p of Some v \<Rightarrow> Some v | None \<Rightarrow> map_of D p)
    else genesis_build cs D = Panics" for D
  proof (induction cs D rule: genesis_build.induct)
    case (2 l r v rest D)
    show ?case
    proof (cases "pair_key_try_from l r")
      case None
      then show ?thesis by (simp add: valid_entry_def)
    next
      case (Some k)
      then have "l \<noteq> r" by auto
      with 2 Some show ?thesis
        by (cases "v = 0")
          (auto simp: valid_entry_def fun_eq_iff split: option.splits if_splits,
            metis option.distinct(1))
    qed
  qed simp
  have eq: "(\<lambda>p. case configured cs p of Some v \<Rightarrow> Some v | None \<Rightarrow> map_of [] p) = configured cs"
    by (simp add: fun_eq_iff split: option.splits)
  show ?thesis using build [of "[]"] unfolding eq .
qed

text \<open>
  A pool with shares earns its rate for every block, capped at the largest
  balance, and nothing is earned without shares or without blocks.
\<close>

theorem reward_is_rate_times_blocks:
  "unat (caculate_reward D p n a b) =
     (if n = 0 \<or> b \<le> a then 0
      else min (unat (dex_incentive_rewards D p) * (unat b - unat a)) (2 ^ 128 - 1))"
proof (cases "n = 0 \<or> b \<le> a")
  case True
  then show ?thesis by (auto simp: caculate_reward_def)
next
  case False
  then show ?thesis using caculate_reward_value [of n a b D p] by auto
qed

text \<open>
  C27. How often a pool is updated does not matter. If updating a pool directly at
  a later block succeeds with a reward below the largest balance, then updating it
  at any block in between and again at the later block succeeds too, gives the same
  pool, and the two rewards add up to the one.
\<close>

theorem update_frequency_irrelevant:
  assumes "cfg = incentive_stack D base" and "last_update_block info \<le> b" and "b \<le> c"
    and "calc_pool_reward_at_block cfg p info c = Ok (i, r)" and "unat r < 2 ^ 128 - 1"
  shows "\<exists>i' r1 r2. calc_pool_reward_at_block cfg p info b = Ok (i', r1) \<and>
    calc_pool_reward_at_block cfg p i' c = Ok (i, r2) \<and> unat r1 + unat r2 = unat r"
proof -
  have "p_handler cfg = caculate_reward D" by (simp add: assms(1) incentive_stack_def)
  then show ?thesis by (rule dex.update_in_two_steps [OF _ assms(2-5)])
qed

theorem update_frequency_irrelevant_witness:
  "\<exists>i' r1 r2. calc_pool_reward_at_block (incentive_stack demo_rewards demo_dex)
      (Dex \<lparr>left = CLV, right = CUSDT\<rparr>)
      \<lparr>total_shares = 50, total_rewards = 0, total_rewards_useable = 0, last_update_block = 2\<rparr> 5 = Ok (i', r1) \<and>
    unat r1 + unat (r2 :: balance) = 1000"
proof -
  let ?i = "\<lparr>total_shares = 50, total_rewards = 0, total_rewards_useable = 0, last_update_block = 2\<rparr>"
  have calc: "calc_pool_reward_at_block (incentive_stack demo_rewards demo_dex)
      (Dex \<lparr>left = CLV, right = CUSDT\<rparr>) ?i 12 =
      Ok (?i\<lparr>total_rewards := 1000, total_rewards_useable := 1000, last_update_block := 12\<rparr>, 1000)"
    by (simp add: calc_pool_reward_at_block_def incentive_stack_def caculate_reward_def demo_rewards_def
        dex_incentive_rewards_def saturating_mul_def saturated_into_def checked_add_def)
  from update_frequency_irrelevant [OF refl _ _ calc, of 5] show ?thesis by auto
qed

text \<open>
  Staking under a pair is seen under the pair in either order, adds exactly
  the amount, and touches neither another account nor another pair.
\<close>

theorem stake_seen_in_either_order:
  assumes "incentive_add_share (reward_pool_impl cfg) who a b n s = (t, Ok m)"
  shows "incentive_get_account_shares (reward_pool_impl cfg) t who b a = m \<and>
    unat m = unat (incentive_get_account_shares (reward_pool_impl cfg) s who a b) + unat n \<and>
    (x \<noteq> who \<or> {c, d} \<noteq> {a, b} \<longrightarrow>
      incentive_get_account_shares (reward_pool_impl cfg) t x c d =
      incentive_get_account_shares (reward_pool_impl cfg) s x c d)"
  by (rule pairs.pair_add [OF assms])

theorem stake_seen_in_either_order_witness:
  "incentive_get_account_shares (reward_pool_impl (incentive_stack demo_rewards demo_dex))
     (fst (incentive_add_share (reward_pool_impl (incentive_stack demo_rewards demo_dex)) 1 CLV CUSDT 50
       (pool_genesis (\<lambda>_. 0, 0)))) 1 CUSDT CLV = 50"
proof -
  let ?R = "reward_pool_impl (incentive_stack demo_rewards demo_dex)"
  have "incentive_add_share ?R 1 CLV CUSDT 50 (pool_genesis (\<lambda>_. 0, 0)) =
      (fst (incentive_add_share ?R 1 CLV CUSDT 50 (pool_genesis (\<lambda>_. 0, 0))), Ok 50)"
    by (simp add: incentive_add_share_def pair_key_try_from_def less_currency_id_def add_share_def
        pool_genesis_def incentive_stack_def demo_dex_def pool_eval)
  from stake_seen_in_either_order [OF this] show ?thesis by blast
qed

text \<open>
  The stack of incentives over the reward pool pays only what it holds. With
  rewards per block below two to the ninety-fifth, the sub-account of every pair
  holds at least the withdrawable rewards after any sequence of steps.
\<close>

theorem dex_rewards_backed:
  assumes "cfg = incentive_stack D base" and "\<And>p. unat (dex_incentive_rewards D p) < 2 ^ 95"
    and "token_updates bal cfg" and "token_transfers bal cfg" and "inj (p_sub_account cfg)"
    and "list_all (\<lambda>x. actor_of x \<notin> Some ` range (p_sub_account cfg)) ls"
    and "s = run (pool_step cfg) ls (pool_genesis l)"
  shows "unat (total_rewards_useable (get_pool_info s p)) \<le> unat (bal (funds s) (p_sub_account cfg p))"
proof -
  have "unat (p_handler cfg q n a b) < 2 ^ 127" for q n a b
    unfolding assms(1) incentive_stack_def
    using caculate_reward_bound [of D, OF assms(2)] by simp
  from solvent_run [OF assms(3-5) this assms(6), of l] show ?thesis
    by (simp add: solvent_def assms(7))
qed

theorem dex_rewards_backed_witness:
  "unat (total_rewards_useable (get_pool_info (run (pool_step (incentive_stack demo_rewards demo_dex))
      [Add_share 1 (Dex \<lparr>left = CLV, right = CUSDT\<rparr>) 50, New_block 12,
       Claim_rewards 1 (Dex \<lparr>left = CLV, right = CUSDT\<rparr>)] (pool_genesis (\<lambda>_. 0, 0)))
      (Dex \<lparr>left = CLV, right = CUSDT\<rparr>))) \<le>
   unat (fst (funds (run (pool_step (incentive_stack demo_rewards demo_dex))
      [Add_share 1 (Dex \<lparr>left = CLV, right = CUSDT\<rparr>) 50, New_block 12,
       Claim_rewards 1 (Dex \<lparr>left = CLV, right = CUSDT\<rparr>)] (pool_genesis (\<lambda>_. 0, 0)))) 1001)"
proof -
  let ?cfg = "incentive_stack demo_rewards demo_dex"
  have rates: "unat (dex_incentive_rewards demo_rewards p) < 2 ^ 95" for p
    by (simp add: demo_rewards_def dex_incentive_rewards_def)
  have upd: "token_updates fst ?cfg" and tr: "token_transfers fst ?cfg"
    by (rule demo_token_updates demo_token_transfers; simp add: incentive_stack_def demo_dex_def)+
  have sub: "inj (p_sub_account ?cfg)"
    unfolding incentive_stack_def demo_dex_def by (simp add: demo_sub_account_inj)
  have actors: "list_all (\<lambda>x. actor_of x \<notin> Some ` range (p_sub_account ?cfg))
      [Add_share 1 (Dex \<lparr>left = CLV, right = CUSDT\<rparr>) 50, New_block 12,
       Claim_rewards 1 (Dex \<lparr>left = CLV, right = CUSDT\<rparr>)]"
    by (auto simp: incentive_stack_def demo_dex_def)
  from dex_rewards_backed [OF refl rates upd tr sub actors refl, of "(\<lambda>_. 0, 0)"
      "Dex \<lparr>left = CLV, right = CUSDT\<rparr>"]
  show ?thesis by (simp add: incentive_stack_def demo_dex_def del: pool_step.simps)
qed

end
