(* ===== verification/Dex_Fairness.thy ===== *)
theory Dex_Fairness
  imports Pool_Fairness Incentives
begin

text \<open>
  Fairness of the two pallets together: the reward pool of
  \<^verbatim>\<open>modules/reward-pool/src/lib.rs\<close> with the incentives pallet
  (\<^verbatim>\<open>modules/incentives/src/lib.rs\<close>) as its reward handler. The pool adds its rewards up
  lazily, when somebody acts on it; the reference pays every holder at every block
  its part of the rate of the pair. What an account received, with what it could
  still take out, agrees with that reference, and what removals too small to be paid
  left behind, up to the rounding of the operations.
\<close>

section \<open>Rewards per block\<close>

text \<open>The part of the rate that an account earns over some blocks, by the shares of a state.\<close>

definition accrual :: "dex_rewards \<Rightarrow> (pool_id, 'acc, 'l) pool_state \<Rightarrow> pool_id \<Rightarrow> 'acc \<Rightarrow> nat \<Rightarrow> rat" where
  "accrual D s p a blocks =
     num (get_account_shares s a p) * (num (dex_incentive_rewards D p) * of_nat blocks) /
       num (total_shares (get_pool_info s p))"

text \<open>What the ideal scheme gives an account in a step: only blocks earn.\<close>

fun block_reward ::
  "dex_rewards \<Rightarrow> pool_id \<Rightarrow> 'acc \<Rightarrow> (pool_id, 'acc) pool_label \<Rightarrow> (pool_id, 'acc, 'l) pool_state \<Rightarrow> rat" where
  "block_reward D p a (New_block b) s = accrual D s p a (unat b - unat (current_block s))"
| "block_reward D p a _ s = 0"

text \<open>What an account could take out now: the stored part, and the blocks not added up yet.\<close>

definition claimable :: "dex_rewards \<Rightarrow> (pool_id, 'acc, 'l) pool_state \<Rightarrow> pool_id \<Rightarrow> 'acc \<Rightarrow> rat" where
  "claimable D s p a = entitlement s p a +
     accrual D s p a (unat (current_block s) - unat (last_update_block (get_pool_info s p)))"

text \<open>Blocks only go forward, and no pool is updated ahead of the chain.\<close>

fun forward :: "('pool, 'acc) pool_label \<Rightarrow> ('pool, 'acc, 'l) pool_state \<Rightarrow> bool" where
  "forward (New_block b) s \<longleftrightarrow> current_block s \<le> b"
| "forward _ s \<longleftrightarrow> True"

definition up_to_date :: "('pool, 'acc, 'l) pool_state \<Rightarrow> bool" where
  "up_to_date s \<longleftrightarrow> (\<forall>p. last_update_block (get_pool_info s p) \<le> current_block s)"

section \<open>The last update\<close>

lemma acts_on_updates:
  assumes "acts_on cfg p l s" and "up_to_date s"
  shows "last_update_block (get_pool_info (pool_step cfg l s) p) = current_block s \<and>
    current_block (pool_step cfg l s) = current_block s \<and>
    (\<exists>info r. calc_pool_reward cfg s p = Ok (info, r))"
proof -
  have upd: "last_update_block info = current_block s \<and> current_block u = current_block s \<and>
      get_pool_info u p = info \<and> (\<exists>info r. calc_pool_reward cfg s p = Ok (info, r))"
    if u: "update_pool_reward cfg p s = (u, Ok info)" for u info
  proof -
    from u obtain r where c: "calc_pool_reward cfg s p = Ok (info, r)" by (auto simp: update_pool_reward_Ok)
    then have "last_update_block info = max (current_block s) (last_update_block (get_pool_info s p))"
      using calc_at_block_Ok by (fastforce simp: calc_pool_reward_def)
    also have "\<dots> = current_block s" using assms(2) by (simp add: up_to_date_def max_absorb1)
    finally show ?thesis using c update_pool_reward_stored [OF u] by auto
  qed
  show ?thesis
  proof (cases l)
    case (Add_share who q x)
    with assms(1) obtain t n where q: "q = p" and t: "add_share cfg who p x s = (t, Ok n)"
      by (auto dest: succeeds_Ok)
    from add_share_Ok [OF t] obtain u info S R i where u: "update_pool_reward cfg p s = (u, Ok info)"
      and t': "t = put_account p who i (put_pool p (info\<lparr>total_shares := S, total_rewards := R\<rparr>) u)" by blast
    with t q upd [OF u] Add_share show ?thesis by (auto simp: transactional_eval)
  next
    case (Remove_share who q x)
    with assms(1) obtain t n where q: "q = p" and t: "remove_share cfg who p x s = (t, Ok n)"
      by (auto dest: succeeds_Ok)
    then obtain u info info' acc' r l' where u: "update_pool_reward cfg p s = (u, Ok info)"
      and g: "get_rewards_by_account_shares cfg info (get_pool_account_info u p who) x = Ok (info', acc', r)"
      and t': "t = (put_account p who acc' (put_pool p info' u))\<lparr>funds := l'\<rparr>"
      by (auto simp: remove_share_Ok)
    with t q upd [OF u] get_rewards_Ok [OF g] Remove_share show ?thesis by (auto simp: transactional_eval)
  next
    case (Claim_rewards who q)
    with assms(1) obtain t n where q: "q = p" and t: "claim_rewards cfg who p s = (t, Ok n)"
      by (auto dest: succeeds_Ok)
    then obtain u info where u: "update_pool_reward cfg p s = (u, Ok info)"
      by (auto simp: claim_rewards_Ok)
    have "last_update_block (get_pool_info t p) = last_update_block info \<and> current_block t = current_block u"
      using t u upd [OF u] by (auto simp: claim_rewards_Ok Let_def split: if_splits)
    with t q upd [OF u] Claim_rewards show ?thesis by (auto simp: transactional_eval)
  qed (use assms in simp)
qed

lemma up_to_date_step:
  assumes "up_to_date s" and "forward l s"
  shows "up_to_date (pool_step cfg l s)"
proof (cases "\<exists>b. l = New_block b")
  case True
  then obtain b where "pool_step cfg l s = s\<lparr>current_block := b\<rparr>" "current_block s \<le> b"
    using assms(2) by auto
  with assms(1) show ?thesis by (auto simp: up_to_date_def get_pool_info_def intro: order_trans)
next
  case False
  have "last_update_block (get_pool_info (pool_step cfg l s) p) \<le> current_block (pool_step cfg l s)" for p
  proof (cases "acts_on cfg p l s")
    case True
    with acts_on_updates [OF this assms(1)] show ?thesis by simp
  next
    case no: False
    have "pool_view p a (pool_step cfg l s) = pool_view p a s" for a
      using False by (intro step_frame [OF no]) auto
    with assms(1) show ?thesis by (simp add: pool_view_def up_to_date_def)
  qed
  then show ?thesis by (simp add: up_to_date_def)
qed

lemma due_accrual:
  assumes "cfg = incentive_stack D base" and "unat (dex_incentive_rewards D p) < 2 ^ 95"
    and "acts_on cfg p l s" and "up_to_date s"
  shows "due cfg p a l s =
    accrual D s p a (unat (current_block s) - unat (last_update_block (get_pool_info s p)))"
proof -
  let ?i = "get_pool_info s p" and ?v = "unat (dex_incentive_rewards D p)"
  let ?n = "unat (current_block s) - unat (last_update_block ?i)"
  from acts_on_updates [OF assms(3,4)] obtain info r where c: "calc_pool_reward cfg s p = Ok (info, r)" by blast
  have "p_handler cfg = caculate_reward D" by (simp add: assms(1) incentive_stack_def)
  from dex.calc_at_block_iff [OF this] c
  have r: "r = caculate_reward D p (total_shares ?i) (last_update_block ?i) (current_block s)"
    by (simp add: calc_pool_reward_def)
  have "num r = num (dex_incentive_rewards D p) * of_nat ?n" if "total_shares ?i \<noteq> 0"
  proof -
    have "unat (current_block s) < 2 ^ 32" using unsigned_less [of "current_block s", where 'a = nat] by simp
    then have "?n < 2 ^ 32" by simp
    with assms(2) have "?v * ?n < 2 ^ 95 * 2 ^ 32" by (intro mult_strict_mono') simp_all
    then have "unat r = ?v * ?n"
      using caculate_reward_value [OF that, of "last_update_block ?i" "current_block s" D p] assms(4) r
      by (simp add: up_to_date_def)
    then show ?thesis by (simp add: num_def del: of_nat_unat)
  qed
  moreover have "snd (updated cfg s p) = r" using c by (simp add: updated_def)
  ultimately show ?thesis using assms(3) by (auto simp: due_def accrual_def)
qed

section \<open>Steps\<close>

lemma accrual_0 [simp]: "accrual D s p a 0 = 0"
  by (simp add: accrual_def)

lemma accrual_add: "accrual D s p a (m + n) = accrual D s p a m + accrual D s p a n"
  by (simp add: accrual_def algebra_simps add_divide_distrib)

lemma accrual_view: "pool_view p a s = pool_view p a t \<Longrightarrow> accrual D s p a n = accrual D t p a n"
  by (simp add: pool_view_def accrual_def get_account_shares_def)

lemma claimable_block:
  assumes "up_to_date s" and "current_block s \<le> b"
  shows "claimable D (s\<lparr>current_block := b\<rparr>) p a = claimable D s p a + accrual D s p a (unat b - unat (current_block s))"
proof -
  let ?k = "unat (last_update_block (get_pool_info s p))" and ?c = "unat (current_block s)"
  have "unat b - ?k = (?c - ?k) + (unat b - ?c)"
    using assms by (simp add: up_to_date_def word_le_nat_alt)
  moreover have "get_pool_info (s\<lparr>current_block := b\<rparr>) p = get_pool_info s p"
    "get_account_shares (s\<lparr>current_block := b\<rparr>) a p = get_account_shares s a p"
    "entitlement (s\<lparr>current_block := b\<rparr>) p a = entitlement s p a"
    by (simp_all add: get_pool_info_def get_account_shares_def get_pool_account_info_def entitlement_def)
  ultimately show ?thesis
    by (simp add: claimable_def accrual_def algebra_simps add_divide_distrib)
qed

definition dex_setting ::
  "('f \<Rightarrow> nat) \<Rightarrow> ('l \<Rightarrow> 'acc \<Rightarrow> balance) \<Rightarrow> dex_rewards \<Rightarrow> (pool_id, 'acc, 'l, 'f) pool_config \<Rightarrow> 'acc \<Rightarrow> bool" where
  "dex_setting inner bal D cfg a \<longleftrightarrow>
     fair_setting inner bal cfg a \<and> p_handler cfg = caculate_reward D \<and>
     (\<forall>p. unat (dex_incentive_rewards D p) < 2 ^ 95)"

lemma dex_fair_step:
  assumes "dex_setting inner bal D cfg a \<and> pool_books s \<and> up_to_date s"
    and "actor_of l \<notin> Some ` range (p_sub_account cfg) \<and> forward l s"
  shows "\<bar>claimable D (pool_step cfg l s) p a - claimable D s p a -
      (block_reward D p a l s + left_behind cfg p a l s - received bal cfg p a l s)\<bar> \<le> rounding cfg p l s"
proof (cases "acts_on cfg p l s")
  case True
  have "incentive_stack D cfg = cfg" using assms(1) by (simp add: dex_setting_def incentive_stack_def)
  then have due: "due cfg p a l s = claimable D s p a - entitlement s p a"
    using due_accrual [of cfg D cfg p l s a] True assms(1) by (simp add: dex_setting_def claimable_def)
  have "claimable D (pool_step cfg l s) p a = entitlement (pool_step cfg l s) p a"
    using acts_on_updates [OF True] assms(1) by (simp add: claimable_def)
  moreover have "block_reward D p a l s = 0" using True by (cases l) auto
  moreover have "\<bar>entitlement (pool_step cfg l s) p a - entitlement s p a -
      (due cfg p a l s + left_behind cfg p a l s - received bal cfg p a l s)\<bar> \<le> rounding cfg p l s"
    using assms by (intro fair_step) (auto simp: dex_setting_def)
  ultimately show ?thesis by (simp add: due)
next
  case False
  then have zero: "received bal cfg p a l s = 0" "rounding cfg p l s = 0" "left_behind cfg p a l s = 0"
    using no_shift [OF False, of a] by (simp_all add: received_def)
  show ?thesis
  proof (cases "\<exists>b. l = New_block b")
    case True
    with assms zero show ?thesis by (auto simp: claimable_block)
  next
    case op: False
    then have view: "pool_view p a (pool_step cfg l s) = pool_view p a s" by (intro step_frame [OF False]) auto
    then have "claimable D (pool_step cfg l s) p a = claimable D s p a"
      using accrual_view [OF view, of D] entitlement_frame [OF False, of a]
      by (auto simp: claimable_def pool_view_def)
    moreover have "block_reward D p a l s = 0" using op by (cases l) auto
    ultimately show ?thesis by (simp add: zero)
  qed
qed

interpretation dex_fair: step_budget "pool_step cfg"
  "\<lambda>s. dex_setting inner bal D cfg a \<and> pool_books s \<and> up_to_date s"
  "\<lambda>l s. actor_of l \<notin> Some ` range (p_sub_account cfg) \<and> forward l s" "\<lambda>s. claimable D s p a"
  "\<lambda>l s. block_reward D p a l s + left_behind cfg p a l s - received bal cfg p a l s" "rounding cfg p" for cfg inner bal D p a
  by unfold_locales (auto intro: books.step_keeps up_to_date_step dex_fair_step)

lemma current_block_genesis [simp]: "current_block (pool_genesis l) = 0"
  by (simp add: pool_genesis_def)

lemma up_to_date_genesis [simp]: "up_to_date (pool_genesis l)"
  by (simp add: up_to_date_def pool_genesis_def get_pool_info_def default_pool_def)

lemma claimable_genesis [simp]: "claimable D (pool_genesis l) p a = 0"
  by (simp add: claimable_def)

section \<open>Properties\<close>



end
