(* ===== verification/Pool_Exit.thy ===== *)
theory Pool_Exit
  imports Pool_Fairness
begin

text \<open>
  Leaving a pool of \<^verbatim>\<open>modules/reward-pool/src/lib.rs\<close>: when \<open>remove_share\<close> lets an account
  take out all of its shares. The exact condition covers every way to be locked in, one of
  which, a visit within one block, is followed through; and a sufficient one in terms of the ideal distribution says that
  an account that is worth more than the rounding can leave a pool that can pay it.
\<close>

section \<open>The amount that leaving pays\<close>

text \<open>The computed part of the pool less the borrowed amount, or nothing when that is too small.\<close>

definition exit_reward :: "('pool, 'acc, 'l, 'f) pool_config \<Rightarrow> balance \<Rightarrow> pool_account_info \<Rightarrow> balance" where
  "exit_reward cfg rv acc =
     (let a = rv - borrowed_amount acc in if a \<le> p_existential_reward cfg then 0 else a)"

lemma exit_rewards:
  assumes "unit_ratio_exact cfg" and "shares acc \<noteq> 0" and "shares acc \<le> total_shares info"
    and "calc_reward_by_shares cfg info (shares acc) = Ok rv"
  shows "(\<exists>info' acc' r. get_rewards_by_account_shares cfg info acc (shares acc) = Ok (info', acc', r) \<and> Q acc' r) \<longleftrightarrow>
    borrowed_amount acc \<le> rv \<and> rv - borrowed_amount acc \<le> total_rewards_useable info \<and>
    Q (acc\<lparr>shares := 0, borrowed_amount := 0\<rparr>) (exit_reward cfg rv acc)"
proof (cases "borrowed_amount acc \<le> rv")
  case True
  then have "checked_sub rv (borrowed_amount acc) = Some (rv - borrowed_amount acc)" by (simp add: checked_sub_def)
  from whole_holding [OF assms this] True show ?thesis by (auto simp: exit_reward_def Let_def)
next
  case False
  have "Option.bind (p_from_rational cfg (shares acc) (shares acc)) (\<lambda>f. p_mul_int cfg f m) = Some m" for m
    using assms(1,2) by (simp add: unit_ratio_exact_def)
  moreover have "checked_sub rv (borrowed_amount acc) = None" using False by (simp add: checked_sub_def)
  ultimately show ?thesis
    using False assms by (simp add: get_rewards_by_account_shares_def checked_sub_def not_less
        del: result_bind_Ok result_bind_Err)
qed

text \<open>The computed part is close to the exact one.\<close>

lemma computed_part:
  assumes "fixed_rounds inner cfg" and "shares acc \<noteq> 0" and "total_shares info \<noteq> 0"
    and "calc_reward_by_shares cfg info (shares acc) = Ok rv"
  shows "\<bar>worth info acc + num (borrowed_amount acc) - num rv\<bar> \<le> 1 + num (total_rewards info) / 10 ^ 18"
proof -
  from assms obtain f where f: "p_from_rational cfg (shares acc) (total_shares info) = Some f"
    "p_mul_int cfg f (total_rewards info) = Some rv"
    by (auto simp: calc_reward_by_shares_def bind_eq_Some_conv split: if_splits)
  from fixed_product(2) [OF assms(1) f] show ?thesis by (simp add: worth_def)
qed

lemma leave_exactly:
  assumes "unit_ratio_exact cfg" and "update_pool_reward cfg p s = (u, Ok info)"
    and "acc = get_pool_account_info s p who" and "shares acc \<noteq> 0" and "shares acc \<le> total_shares info"
    and "calc_reward_by_shares cfg info (shares acc) = Ok rv"
  shows "(\<exists>t n. remove_share cfg who p (shares acc) s = (t, Ok n) \<and> n = 0 \<and>
      get_pool_account_info t p who = \<lparr>shares = 0, borrowed_amount = 0\<rparr>) \<longleftrightarrow>
    borrowed_amount acc \<le> rv \<and> rv - borrowed_amount acc \<le> total_rewards_useable info \<and>
    (\<exists>l. p_transfer cfg (p_native_currency cfg) (p_sub_account cfg p) who (exit_reward cfg rv acc) (funds u) =
       (l, Ok ()))"
    (is "?leaves \<longleftrightarrow> ?may")
proof -
  let ?Q = "\<lambda>acc' r. shares acc' = 0 \<and> borrowed_amount acc' = 0 \<and>
    (\<exists>l. p_transfer cfg (p_native_currency cfg) (p_sub_account cfg p) who r (funds u) = (l, Ok ()))"
  have acc: "get_pool_account_info u p who = acc"
    using update_pool_reward_stored [OF assms(2)] assms(3) by (simp add: get_pool_account_info_def)
  have "?leaves \<longleftrightarrow>
      (\<exists>info' acc' r. get_rewards_by_account_shares cfg info acc (shares acc) = Ok (info', acc', r) \<and> ?Q acc' r)"
    by (auto simp: remove_share_Ok assms(2) acc)
  with exit_rewards [OF assms(1,4-6), of ?Q] show ?thesis by simp
qed

text \<open>The payment of an account that leaves.\<close>

lemma leave_pays:
  assumes "unit_ratio_exact cfg" and "update_pool_reward cfg p s = (u, Ok info)"
    and "acc = get_pool_account_info s p who" and "shares acc \<noteq> 0" and "shares acc \<le> total_shares info"
    and "calc_reward_by_shares cfg info (shares acc) = Ok rv" and "borrowed_amount acc \<le> rv"
    and "rv - borrowed_amount acc \<le> total_rewards_useable info"
    and "p_transfer cfg (p_native_currency cfg) (p_sub_account cfg p) who (exit_reward cfg rv acc) (funds u) = (l, Ok ())"
  shows "\<exists>t. remove_share cfg who p (shares acc) s = (t, Ok 0) \<and>
    get_pool_account_info t p who = \<lparr>shares = 0, borrowed_amount = 0\<rparr> \<and> funds t = l"
proof -
  let ?Q = "\<lambda>acc' r. shares acc' = 0 \<and> borrowed_amount acc' = 0 \<and>
    p_transfer cfg (p_native_currency cfg) (p_sub_account cfg p) who r (funds u) = (l, Ok ())"
  have acc: "get_pool_account_info u p who = acc"
    using update_pool_reward_stored [OF assms(2)] assms(3) by (simp add: get_pool_account_info_def)
  from exit_rewards [OF assms(1,4-6), of ?Q] assms(7-9) obtain info' acc' r where
    "get_rewards_by_account_shares cfg info acc (shares acc) = Ok (info', acc', r)" "?Q acc' r" by auto
  then show ?thesis by (auto simp: remove_share_Ok assms(2) acc)
qed

section \<open>A visit within one block\<close>

text \<open>The numbers of an entry into a pool with shares, by an account that has none.\<close>

lemma entry_numbers:
  assumes "add_share cfg who p x s = (t, Ok n)" and "get_pool_account_info s p who = \<lparr>shares = 0, borrowed_amount = 0\<rparr>"
    and "total_shares (get_pool_info s p) \<noteq> 0"
  obtains u info f v S R where "update_pool_reward cfg p s = (u, Ok info)"
    and "p_from_rational cfg (total_rewards info) (total_shares info) = Some f" and "p_mul_int cfg f x = Some v"
    and "unat S = unat (total_shares info) + unat x" and "unat R = unat (total_rewards info) + unat v"
    and "t = put_account p who \<lparr>shares = x, borrowed_amount = v\<rparr>
             (put_pool p (info\<lparr>total_shares := S, total_rewards := R\<rparr>) u)"
proof -
  from add_share_price [OF assms(1)] obtain u info f S R b and v :: balance where
    u: "update_pool_reward cfg p s = (u, Ok info)" and f: "p_mul_int cfg f x = Some v"
    "total_shares info \<noteq> 0 \<longrightarrow> p_from_rational cfg (total_rewards info) (total_shares info) = Some f"
    and eqs: "unat S = unat (total_shares info) + unat x" "unat R = unat (total_rewards info) + unat v"
      "unat n = unat (shares (get_pool_account_info u p who)) + unat x"
      "unat b = unat (borrowed_amount (get_pool_account_info u p who)) + unat v"
    and t: "t = put_account p who \<lparr>shares = n, borrowed_amount = b\<rparr>
      (put_pool p (info\<lparr>total_shares := S, total_rewards := R\<rparr>) u)" by blast
  have "total_shares info \<noteq> 0" "n = x" "b = v"
    using update_worth(2,4) [OF u] assms(2,3) eqs(3,4) by (simp_all add: word_unat_eq_iff)
  with that [OF u _ f(1) eqs(1,2)] f(2) t show ?thesis by simp
qed

text \<open>Within the block of the last update, updating changes nothing.\<close>

lemma update_again:
  assumes "current_block s \<le> last_update_block (get_pool_info s p)" and "update_pool_reward cfg p s = (u, Ok info)"
  shows "info = get_pool_info s p \<and> get_pool_info u p = info \<and> get_pool_account_info u = get_pool_account_info s"
  using assms update_pool_reward_accounts [OF assms(2)]
  by (auto simp: update_pool_reward_Ok calc_pool_reward_def calc_pool_reward_at_block_def)

text \<open>
  What a guest leaves behind who enters and leaves in one block, with an existential
  reward above the rounding: the reward is too small to be paid, so that the total
  rewards keep the virtual ones.
\<close>

lemma visit_leaves_virtual:
  assumes "unit_ratio_exact cfg" and "fixed_rounds inner cfg"
    and "get_pool_account_info s p guest = \<lparr>shares = 0, borrowed_amount = 0\<rparr>" and "total_shares (get_pool_info s p) \<noteq> 0"
    and "add_share cfg guest p x s = (t, Ok n)" and "remove_share cfg guest p x t = (w, Ok m)"
    and "v = borrowed_amount (get_pool_account_info t p guest)"
    and "2 + (num x + num (total_rewards (get_pool_info t p))) / 10 ^ 18 \<le> num (p_existential_reward cfg)"
  obtains u info R where "update_pool_reward cfg p s = (u, Ok info)" and "unat R = unat (total_rewards info) + unat v"
    and "get_pool_info w p = info\<lparr>total_rewards := R\<rparr>"
    and "\<And>a. a \<noteq> guest \<Longrightarrow> get_pool_account_info w p a = get_pool_account_info s p a"
proof -
  from assms(5,3,4) obtain u info f v' S R where u: "update_pool_reward cfg p s = (u, Ok info)"
    and f: "p_from_rational cfg (total_rewards info) (total_shares info) = Some f" "p_mul_int cfg f x = Some v'"
    and eqs: "unat S = unat (total_shares info) + unat x" "unat R = unat (total_rewards info) + unat v'"
    and t: "t = put_account p guest \<lparr>shares = x, borrowed_amount = v'\<rparr>
             (put_pool p (info\<lparr>total_shares := S, total_rewards := R\<rparr>) u)" by (rule entry_numbers)
  let ?in = "info\<lparr>total_shares := S, total_rewards := R\<rparr>" and ?guest = "\<lparr>shares = x, borrowed_amount = v\<rparr>"
  have v: "v' = v" using assms(7) by (simp add: t)
  from assms(6) obtain u' info' out acc' r l where u': "update_pool_reward cfg p t = (u', Ok info')"
    and g: "get_rewards_by_account_shares cfg info' (get_pool_account_info u' p guest) x = Ok (out, acc', r)"
    and w: "w = (put_account p guest acc' (put_pool p out u'))\<lparr>funds := l\<rparr>" by (auto simp: remove_share_Ok)
  have "current_block u = current_block s" "current_block s \<le> last_update_block info"
    using u calc_at_block_Ok by (fastforce simp: update_pool_reward_Ok calc_pool_reward_def)+
  then have "current_block t \<le> last_update_block (get_pool_info t p)" by (simp add: t)
  note again = update_again [OF this u']
  have info': "info' = ?in" and acc: "get_pool_account_info u' p guest = ?guest" using again by (simp_all add: t v)
  note g' = g [unfolded info' acc]
  from get_rewards_price [OF g'] obtain f' g'' and rv b :: balance where
    rv: "p_from_rational cfg x S = Some f'" "p_mul_int cfg f' R = Some rv"
    and b: "p_from_rational cfg x x = Some g''" "p_mul_int cfg g'' v = Some b"
    and un: "unpaid cfg ?in ?guest x \<longleftrightarrow> unat rv \<le> unat b + unat (p_existential_reward cfg)"
    and res: "unpaid cfg ?in ?guest x \<Longrightarrow> r = 0 \<and> total_rewards out = R" by (auto split: if_splits)
  have x: "x \<noteq> 0" using get_rewards_Ok [OF g'] by simp
  have "b = v" using assms(1) x b by (auto simp: unit_ratio_exact_def)
  have pos: "0 < num (total_shares info)" using assms(4) update_worth(4) [OF u] by (simp add: order_less_le)
  have nums: "num S = num (total_shares info) + num x" "num R = num (total_rewards info) + num v"
    using eqs v by (auto intro: num_add)
  have "\<bar>num x * num R / num S - num rv\<bar> \<le> 1 + num R / 10 ^ 18" by (rule fixed_product(2) [OF assms(2) rv])
  moreover have "\<bar>num x * num (total_rewards info) / num (total_shares info) - num v\<bar> \<le> 1 + num x / 10 ^ 18"
    using fixed_product(2) [OF assms(2) f] v by (simp add: mult.commute)
  moreover have "\<bar>num x * num R / num S - num v\<bar> \<le>
      \<bar>num x * num (total_rewards info) / num (total_shares info) - num v\<bar>"
    using join_shift(1) [OF pos num_nonneg [of x] order_refl, of "num (total_rewards info)" "num v"] by (simp add: nums)
  moreover have "2 + num x / 10 ^ 18 + num R / 10 ^ 18 \<le> num (p_existential_reward cfg)"
    using assms(8) by (simp add: t add_divide_distrib)
  ultimately have "num rv \<le> num v + num (p_existential_reward cfg)" by linarith
  then have "unat rv \<le> unat v + unat (p_existential_reward cfg)"
    unfolding num_def of_nat_add [symmetric] of_nat_le_iff .
  then have "unpaid cfg ?in ?guest x" using un \<open>b = v\<close> by simp
  note res = res [OF this]
  have "total_shares out = total_shares info" "total_rewards_useable out = total_rewards_useable info"
    "last_update_block out = last_update_block info"
    using get_rewards_Ok [OF g'] eqs(1) res by (simp_all add: word_unat_eq_iff)
  then have "get_pool_info w p = info\<lparr>total_rewards := R\<rparr>" using res by (simp add: w)
  moreover have "get_pool_account_info w p a = get_pool_account_info s p a" if "a \<noteq> guest" for a
    using that again update_worth(2) [OF u] by (simp add: w) (simp add: t)
  ultimately show ?thesis using that [OF u] eqs(2) v by simp
qed

section \<open>Properties\<close>

text \<open>
  C11. When an account can leave. Once the pool is updated and the part of its shares
  computed, removing all shares of an account succeeds exactly when the part covers
  the amount the account borrowed, the difference does not exceed the withdrawable
  rewards of the pool, and the token pallet makes the payment; the account then has
  neither shares nor a borrowed amount.
\<close>

theorem leave_iff:
  assumes "unit_ratio_exact cfg" and "update_pool_reward cfg p s = (u, Ok info)"
    and "acc = get_pool_account_info s p who" and "shares acc \<noteq> 0" and "shares acc \<le> total_shares info"
    and "calc_reward_by_shares cfg info (shares acc) = Ok rv"
  shows "(\<exists>t n. remove_share cfg who p (shares acc) s = (t, Ok n) \<and> n = 0 \<and>
      get_pool_account_info t p who = \<lparr>shares = 0, borrowed_amount = 0\<rparr>) \<longleftrightarrow>
    borrowed_amount acc \<le> rv \<and> rv - borrowed_amount acc \<le> total_rewards_useable info \<and>
    (\<exists>l. p_transfer cfg (p_native_currency cfg) (p_sub_account cfg p) who (exit_reward cfg rv acc) (funds u) =
       (l, Ok ()))"
  by (rule leave_exactly [OF assms])

theorem leave_iff_witness:
  "\<not> (\<exists>t n. remove_share demo_pool 2 0 1 demo_newcomer = (t, Ok n) \<and> n = 0 \<and>
      get_pool_account_info t 0 2 = \<lparr>shares = 0, borrowed_amount = 0\<rparr>)"
proof -
  let ?info = "\<lparr>total_shares = 3, total_rewards = 1500, total_rewards_useable = 1000, last_update_block = 12\<rparr>"
  have upd: "update_pool_reward demo_pool 0 demo_newcomer = (demo_newcomer, Ok ?info)"
    by (simp add: demo_newcomer_eq pool_eval)
  have acc: "\<lparr>shares = 1, borrowed_amount = 500\<rparr> = get_pool_account_info demo_newcomer 0 2"
    by (simp add: demo_newcomer_eq get_pool_account_info_def)
  have calc: "calc_reward_by_shares demo_pool ?info 1 = Ok 499"
    by (simp add: calc_reward_by_shares_def demo_from_rational_def demo_mul_int_def Let_def)
  from leave_iff [OF demo_unit_ratio upd acc, of 499] calc show ?thesis by simp
qed

text \<open>
  C13. An account that is worth something can leave with it. If the exact worth of an
  account, its part of the rewards less what it borrowed, is above the rounding of the
  fixed-point numbers, the pool can pay the computed part, and the token pallet makes
  payments within the withdrawable rewards, then removing all its shares succeeds, and
  what the ledger shows it was paid differs from the worth by at most that rounding;
  only a worth that does not exceed the existential reward by more than the rounding
  may be forfeited instead.
\<close>

theorem leave_when_worth:
  assumes "unit_ratio_exact cfg" and "fixed_rounds inner cfg" and "token_updates bal cfg" and "token_transfers bal cfg"
    and "who \<notin> range (p_sub_account cfg)" and "update_pool_reward cfg p s = (u, Ok info)"
    and "acc = get_pool_account_info s p who" and "shares acc \<noteq> 0" and "shares acc \<le> total_shares info"
    and "calc_reward_by_shares cfg info (shares acc) = Ok rv"
    and "margin = 1 + num (total_rewards info) / 10 ^ 18" and "margin \<le> worth info acc"
    and "unat rv \<le> unat (borrowed_amount acc) + unat (total_rewards_useable info)"
    and "\<And>v. v \<le> total_rewards_useable info \<Longrightarrow>
      \<exists>l. p_transfer cfg (p_native_currency cfg) (p_sub_account cfg p) who v (funds u) = (l, Ok ())"
  shows "\<exists>t paid. remove_share cfg who p (shares acc) s = (t, Ok 0) \<and>
    get_pool_account_info t p who = \<lparr>shares = 0, borrowed_amount = 0\<rparr> \<and>
    paid = num (bal (funds t) who) - num (bal (funds s) who) \<and>
    (\<bar>paid - worth info acc\<bar> \<le> margin \<or>
     paid = 0 \<and> worth info acc \<le> num (p_existential_reward cfg) + margin)"
proof -
  let ?r = "rv - borrowed_amount acc"
  have "total_shares info \<noteq> 0" using assms(8,9) by auto
  note part = computed_part [OF assms(2,8) this assms(10), folded assms(11)]
  then have "num (borrowed_amount acc) \<le> num rv" using assms(12) by linarith
  then have le: "borrowed_amount acc \<le> rv" by (simp add: num_le word_le_nat_alt)
  then have sub: "unat ?r = unat rv - unat (borrowed_amount acc)" by (rule unat_sub_le)
  then have use: "?r \<le> total_rewards_useable info" using assms(13) by (simp add: word_le_nat_alt)
  then have "exit_reward cfg rv acc \<le> total_rewards_useable info" by (simp add: exit_reward_def Let_def)
  with assms(14) le use obtain t l where t: "remove_share cfg who p (shares acc) s = (t, Ok 0)"
    "get_pool_account_info t p who = \<lparr>shares = 0, borrowed_amount = 0\<rparr>" "funds t = l"
    and l: "p_transfer cfg (p_native_currency cfg) (p_sub_account cfg p) who (exit_reward cfg rv acc) (funds u) = (l, Ok ())"
    using leave_pays [OF assms(1,6-10) le] by blast
  have "num (bal l who) - num (bal (funds s) who) = num (exit_reward cfg rv acc)"
    using ledger_pay [OF assms(4) l assms(5,5)] ledger_update [OF assms(3,6,5)] by simp
  moreover have r: "num rv = num ?r + num (borrowed_amount acc)"
    using sub le by (intro num_add) (simp add: word_le_nat_alt)
  moreover have "num ?r \<le> num (p_existential_reward cfg)" if "?r \<le> p_existential_reward cfg"
    using that by (simp add: num_le word_le_nat_alt)
  ultimately have "\<bar>num (bal l who) - num (bal (funds s) who) - worth info acc\<bar> \<le> margin \<or>
      num (bal l who) - num (bal (funds s) who) = 0 \<and> worth info acc \<le> num (p_existential_reward cfg) + margin"
    using part by (auto simp: exit_reward_def Let_def abs_le_iff)
  with t show ?thesis by auto
qed

theorem leave_when_worth_witness:
  "\<exists>t. remove_share demo_pool 1 0 2 demo_newcomer = (t, Ok 0) \<and>
     \<bar>num (fst (funds t) 1) - num (fst (funds demo_newcomer) 1) - 1000\<bar> \<le> 1 + 1500 / 10 ^ 18"
proof -
  let ?info = "\<lparr>total_shares = 3, total_rewards = 1500, total_rewards_useable = 1000, last_update_block = 12\<rparr>"
  let ?acc = "\<lparr>shares = 2, borrowed_amount = 0\<rparr>"
  have upd: "update_pool_reward demo_pool 0 demo_newcomer = (demo_newcomer, Ok ?info)"
    by (simp add: demo_newcomer_eq pool_eval)
  have acc: "?acc = get_pool_account_info demo_newcomer 0 1"
    by (simp add: demo_newcomer_eq get_pool_account_info_def)
  have calc: "calc_reward_by_shares demo_pool ?info 2 = Ok 999"
    by (simp add: calc_reward_by_shares_def demo_from_rational_def demo_mul_int_def Let_def)
  have laws: "fixed_rounds id demo_pool" "token_updates fst demo_pool" "token_transfers fst demo_pool"
    by (rule demo_fixed_rounds demo_token_updates demo_token_transfers; simp)+
  have out: "1 \<notin> range (p_sub_account demo_pool)" by auto
  note exit = leave_when_worth [OF demo_unit_ratio laws out upd acc, of 999 "1 + 1500 / 10 ^ 18"]
  have worth: "worth ?info ?acc = 1000" "num (p_existential_reward demo_pool) = 10" "num (1500 :: balance) = 1500"
    by (simp_all add: worth_def num_def)
  have "\<exists>l. p_transfer demo_pool c (p_sub_account demo_pool 0) 1 v (funds demo_newcomer) = (l, Ok ())"
    if "v \<le> 1000" for v c
    using that by (simp add: demo_newcomer_eq demo_transfer_def book_transfer_def checked_sub_def checked_add_def
        word_le_nat_alt)
  with exit calc worth show ?thesis by (auto simp: word_le_nat_alt)
qed



end
