(* ===== verification/Claims_Mock.thy ===== *)
theory Claims_Mock
  imports Claims
begin

text \<open>
  The runtime the claims pallet is tested on, \<^verbatim>\<open>modules/claims/src/mock.rs\<close>, and the
  tests of \<^verbatim>\<open>modules/claims/src/tests.rs\<close> as lists of checks run on the model. A check
  is one assertion of a test: a call that must succeed, a call that must fail with a
  given error and change nothing, or a value read back from the storage or the ledger.

  Parameters, in \<open>claims_test_library\<close>: the balances pallet with its genesis, the
  account of a module, the SCALE encodings and the host functions; what the tests
  need of them is \<open>test_library_laws\<close>, and \<open>test_signatures\<close> says who signed the
  signatures of the mock. The balances of the test runtime are 64 bits wide, those of
  the model 128; no test comes near either bound.
\<close>

section \<open>Literals\<close>

definition get_legal_tx_hash :: ethereum_tx_hash where
  "get_legal_tx_hash = EthereumTxHash (Bytes (hex_literal
     ''4c5adaad6ca9cd2ae9f372b59ff6765fb66082c08caf6e61e6fbc39c35e82bec''))"

definition get_legal_eth_addr :: ethereum_address where
  "get_legal_eth_addr = EthereumAddress (Bytes (hex_literal ''243E34C336F3D2c08BBC79b99E6BCA1fA7c58595''))"

definition get_legal_eth_sig :: ecdsa_signature where
  "get_legal_eth_sig = EcdsaSignature (Bytes (hex_literal
     (''c179736cc655655e14f8b66d386045df26f5f441ba6e58d153dfa1ffdd329ccc'' @
      ''602bf23833371f87f408ecb093dc9839f24fa35473c3693ce5395780309f2a7f1b'')))"

definition get_another_account_eth_sig :: ecdsa_signature where
  "get_another_account_eth_sig = EcdsaSignature (Bytes (hex_literal
     (''7dc3cd6d99fb0dd1f8fbc4fae9aec8399e913496e3dbd33ddd83f723665ecf45'' @
      ''69b715c430239750ffb2973d094cfa4fbb808b3f0ec1ef2caff5d5e473b2332a1b'')))"

definition get_wrong_msg_eth_sig :: ecdsa_signature where
  "get_wrong_msg_eth_sig = EcdsaSignature (Bytes (hex_literal
     (''7dc3cd6d99fb0dd1f8fbc4fae9aec8399e913496e3dbd33ddd83f723665ecf45'' @
      ''69b715c430239750ffb2973d094cfa4fbb808b3f0ec1ef2caff5d5e473b2332a1c'')))"

section \<open>The test runtime\<close>

record 'l claims_test_library =
  tl_balances :: "(u64, 'l) currency"
  tl_genesis :: "(u64 \<times> balance) list \<Rightarrow> 'l"
  tl_keep_alive :: dispatch_error
  tl_into_account :: "u8 list \<Rightarrow> u64"
  tl_crypto :: host_crypto
  tl_encode_account :: "u64 \<Rightarrow> u8 list"
  tl_encode_tx :: "ethereum_tx_hash \<Rightarrow> u8 list"
  tl_encode_provides :: "string \<Rightarrow> ethereum_address \<Rightarrow> u8 list"

definition test_Prefix :: "u8 list" where
  "test_Prefix = ascii ''Pay CLVs to the TEST account:''"

definition test_ClaimsModuleId :: "u8 list" where
  "test_ClaimsModuleId = ascii ''clvclaim''"

definition test_ExistentialDeposit :: balance where
  "test_ExistentialDeposit = 1"

definition claims_test :: "'l claims_test_library \<Rightarrow> (u64 raw_origin, u64, 'l) claims_config" where
  "claims_test L =
     \<lparr>c_origins = raw_origins, c_currency = tl_balances L, c_crypto = tl_crypto L,
      c_module_account = tl_into_account L test_ClaimsModuleId, c_prefix = test_Prefix,
      c_encode_account = tl_encode_account L, c_encode_tx = tl_encode_tx L,
      c_encode_provides = tl_encode_provides L\<rparr>"

definition new_test_ext :: "'l claims_test_library \<Rightarrow> (u64, 'l) claims_state" where
  "new_test_ext L = claims_genesis (tl_genesis L [(4, 100), (5, 100)])"

section \<open>Checks\<close>

datatype claims_check =
    Assert_ok "u64 raw_origin" "u64 claims_call"
  | Assert_noop "u64 raw_origin" "u64 claims_call" dispatch_error
  | Free_balance u64 balance
  | Module_balance balance
  | Claim_limit bridge_networks balance
  | Claim_entry bridge_networks ethereum_tx_hash claim_record

fun passes ::
  "(u64 raw_origin, u64, 'l) claims_config \<Rightarrow> claims_check list \<Rightarrow> (u64, 'l) claims_state \<Rightarrow> bool" where
  "passes cfg [] s \<longleftrightarrow> True"
| "passes cfg (Assert_ok orig c # cs) s \<longleftrightarrow>
     (case claims_dispatch cfg orig c s of (t, Ok _) \<Rightarrow> passes cfg cs t | (t, Err _) \<Rightarrow> False)"
| "passes cfg (Assert_noop orig c e # cs) s \<longleftrightarrow>
     (case claims_dispatch cfg orig c s of (t, Ok _) \<Rightarrow> False | (t, Err e') \<Rightarrow> e' = e \<and> t = s \<and> passes cfg cs s)"
| "passes cfg (Free_balance a v # cs) s \<longleftrightarrow>
     free_balance (c_currency cfg) (ledger s) a = v \<and> passes cfg cs s"
| "passes cfg (Module_balance v # cs) s \<longleftrightarrow>
     free_balance (c_currency cfg) (ledger s) (c_module_account cfg) = v \<and> passes cfg cs s"
| "passes cfg (Claim_limit n v # cs) s \<longleftrightarrow> elastic_claim_limits s n = v \<and> passes cfg cs s"
| "passes cfg (Claim_entry n tx r # cs) s \<longleftrightarrow> ElasticClaims s n tx = Some r \<and> passes cfg cs s"

section \<open>The tests\<close>

abbreviation mint_call :: "bridge_networks \<Rightarrow> balance \<Rightarrow> u64 claims_call" where
  "mint_call n v \<equiv> Mint_claim_elastic n get_legal_tx_hash get_legal_eth_addr v"

abbreviation claim_call :: "bridge_networks \<Rightarrow> ecdsa_signature \<Rightarrow> u64 claims_call" where
  "claim_call n sig \<equiv> Claim_elastic n 1 get_legal_tx_hash sig"

definition mint_and_claim_should_works :: "claims_check list" where
  "mint_and_claim_should_works =
     [Assert_ok RootOrigin (Set_bridge_account_elastic BSC 1),
      Assert_ok RootOrigin (Set_claim_limit_elastic BSC 100),
      Assert_ok RootOrigin (Set_claim_limit_elastic Ethereum 200),
      Claim_limit BSC 100, Claim_limit Ethereum 200,
      Assert_ok (SignedBy 1) (mint_call BSC 100),
      Claim_entry BSC get_legal_tx_hash (get_legal_eth_addr, 100, False),
      Claim_limit BSC 0, Claim_limit Ethereum 200, Free_balance 1 0,
      Assert_ok NoOrigin (claim_call BSC get_legal_eth_sig), Free_balance 1 100,
      Claim_entry BSC get_legal_tx_hash (get_legal_eth_addr, 100, True)]"

definition ethereum_mint_and_claim_should_works :: "claims_check list" where
  "ethereum_mint_and_claim_should_works =
     [Assert_ok RootOrigin (Set_bridge_account_elastic Ethereum 2),
      Assert_ok RootOrigin (Set_claim_limit_elastic Ethereum 100), Claim_limit Ethereum 100,
      Assert_ok (SignedBy 2) (mint_call Ethereum 100),
      Claim_entry Ethereum get_legal_tx_hash (get_legal_eth_addr, 100, False),
      Claim_limit Ethereum 0, Free_balance 1 0,
      Assert_noop NoOrigin (claim_call BSC get_legal_eth_sig) (ClaimsError TxNotMinted),
      Assert_ok NoOrigin (claim_call Ethereum get_legal_eth_sig), Free_balance 1 100,
      Claim_entry Ethereum get_legal_tx_hash (get_legal_eth_addr, 100, True)]"

definition mint_fee_should_work :: "claims_check list" where
  "mint_fee_should_work =
     [Assert_ok RootOrigin (Set_bridge_fee_elastic BSC 1000 0),
      Assert_ok RootOrigin (Set_bridge_account_elastic BSC 1),
      Assert_ok RootOrigin (Set_claim_limit_elastic BSC 2000),
      Assert_noop (SignedBy 1) (mint_call BSC 100) (ClaimsError InvalidAmount), Claim_limit BSC 2000,
      Assert_ok (SignedBy 1) (mint_call BSC 1200), Claim_limit BSC 1800, Free_balance 1 0,
      Assert_ok NoOrigin (claim_call BSC get_legal_eth_sig), Free_balance 1 200, Module_balance 1000]"

definition change_bridger_should_work :: "claims_check list" where
  "change_bridger_should_work =
     [Assert_noop (SignedBy 1) (Set_bridge_account_elastic BSC 1) BadOrigin,
      Assert_ok RootOrigin (Set_bridge_account_elastic BSC 1),
      Assert_noop (SignedBy 2) (mint_call BSC 100) (ClaimsError NoPermission)]"

definition non_exist_tx_should_fail :: "claims_check list" where
  "non_exist_tx_should_fail =
     [Assert_noop NoOrigin (claim_call BSC get_legal_eth_sig) (ClaimsError TxNotMinted)]"

definition illegal_sig_claim_should_fail :: "claims_check list" where
  "illegal_sig_claim_should_fail =
     [Assert_noop (SignedBy 2) (Set_bridge_account_elastic BSC 1) BadOrigin,
      Assert_ok RootOrigin (Set_bridge_account_elastic BSC 1),
      Assert_ok RootOrigin (Set_claim_limit_elastic BSC 100),
      Assert_ok (SignedBy 1) (mint_call BSC 100),
      Assert_noop NoOrigin (claim_call BSC get_another_account_eth_sig) (ClaimsError SignatureNotMatch),
      Assert_noop NoOrigin (claim_call BSC get_wrong_msg_eth_sig) (ClaimsError SignatureNotMatch)]"

definition mint_twice_should_fail :: "claims_check list" where
  "mint_twice_should_fail =
     [Assert_ok RootOrigin (Set_bridge_account_elastic BSC 1),
      Assert_ok RootOrigin (Set_claim_limit_elastic BSC 100),
      Assert_ok (SignedBy 1) (mint_call BSC 100),
      Assert_noop (SignedBy 1) (mint_call BSC 100) (ClaimsError AlreadyMinted)]"

definition claim_twice_should_fail :: "claims_check list" where
  "claim_twice_should_fail =
     [Assert_ok RootOrigin (Set_bridge_account_elastic BSC 1),
      Assert_ok RootOrigin (Set_claim_limit_elastic BSC 100),
      Assert_ok (SignedBy 1) (mint_call BSC 100), Free_balance 1 0,
      Assert_ok NoOrigin (claim_call BSC get_legal_eth_sig), Free_balance 1 100,
      Assert_noop NoOrigin (claim_call BSC get_legal_eth_sig) (ClaimsError AlreadyClaimed),
      Free_balance 1 100]"

definition claim_limit_should_work :: "claims_check list" where
  "claim_limit_should_work =
     [Assert_ok RootOrigin (Set_bridge_account_elastic BSC 2),
      Assert_noop (SignedBy 2) (mint_call BSC 10) (ClaimsError ClaimLimitExceeded),
      Assert_ok RootOrigin (Set_claim_limit_elastic BSC 10), Claim_limit BSC 10,
      Assert_ok (SignedBy 2) (mint_call BSC 10), Claim_limit BSC 0]"

definition burn_should_work :: "'l claims_test_library \<Rightarrow> claims_check list" where
  "burn_should_work L =
     [Assert_ok (SignedBy 4) (Burn_elastic BSC get_legal_eth_addr 40), Free_balance 4 60,
      Assert_ok (SignedBy 4) (Burn_elastic BSC get_legal_eth_addr 40), Free_balance 4 20,
      Assert_noop (SignedBy 5) (Burn_elastic BSC get_legal_eth_addr 100) (tl_keep_alive L),
      Free_balance 5 100]"

definition burn_fee_should_work :: "claims_check list" where
  "burn_fee_should_work =
     [Assert_ok RootOrigin (Set_bridge_fee_elastic BSC 0 30),
      Assert_ok RootOrigin (Set_bridge_account_elastic BSC 1),
      Assert_ok RootOrigin (Set_claim_limit_elastic BSC 2000),
      Assert_noop (SignedBy 4) (Burn_elastic BSC get_legal_eth_addr 20) (ClaimsError InvalidAmount),
      Free_balance 4 100,
      Assert_ok (SignedBy 5) (Burn_elastic BSC get_legal_eth_addr 40), Free_balance 5 60,
      Module_balance 30]"

definition elastic_burn_fee_should_work :: "claims_check list" where
  "elastic_burn_fee_should_work = [Assert_ok RootOrigin (Set_claim_limit_elastic BSC 10)]"

definition claims_tests :: "'l claims_test_library \<Rightarrow> claims_check list list" where
  "claims_tests L =
     [mint_and_claim_should_works, ethereum_mint_and_claim_should_works, mint_fee_should_work,
      change_bridger_should_work, non_exist_tx_should_fail, illegal_sig_claim_should_fail,
      mint_twice_should_fail, claim_twice_should_fail, claim_limit_should_work,
      burn_should_work L, burn_fee_should_work, elastic_burn_fee_should_work]"

text \<open>The test of the migration writes the old storage items first.\<close>

definition init_mock_data ::
  "u64 \<Rightarrow> balance \<Rightarrow> balance \<Rightarrow> balance \<Rightarrow> (ethereum_tx_hash \<times> ethereum_address \<times> balance \<times> bool) list \<Rightarrow>
   (u64, 'l) claims_state \<Rightarrow> (u64, 'l) claims_state" where
  "init_mock_data account fee_mint fee_burn limit cs s =
     (let s = s\<lparr>BridgeAccount := some account, MintFee := some fee_mint, BurnFee := some fee_burn,
               ClaimLimit := limit\<rparr>
      in fold (\<lambda>(tx, addr, amount, claimed) s.
           s\<lparr>Claims := smap_insert tx (some (addr, amount, claimed)) (Claims s)\<rparr>) cs s)"

definition upgrade_tx2 :: ethereum_tx_hash where
  "upgrade_tx2 = EthereumTxHash (Bytes (hex_literal
     ''4c5adaad6ca9cd2ae9f372b59ff6765fb66082c08caf6e61e6fbc39c35e82beb''))"

definition upgrade_mock_data :: "'l claims_test_library \<Rightarrow> (u64, 'l) claims_state" where
  "upgrade_mock_data L =
     init_mock_data 1 1000 500 2000
       [(get_legal_tx_hash, get_legal_eth_addr, 100, False), (upgrade_tx2, get_legal_eth_addr, 50, True)]
       (new_test_ext L)"

section \<open>What the tests need of the libraries\<close>

text \<open>
  Documented behaviour of the balances pallet on ledgers without locks and reserves
  (\<open>plain\<close>): the genesis configuration sets the balances and nothing else, deposits
  and withdrawals set no locks, and a withdrawal that must keep the account alive
  succeeds exactly when the existential deposit is left. The module's account is none
  of the accounts the tests use.
\<close>

definition keeps_alive :: "('l \<Rightarrow> bool) \<Rightarrow> 'l claims_test_library \<Rightarrow> bool" where
  "keeps_alive plain L \<longleftrightarrow>
     (\<forall>l who v rs. plain l \<longrightarrow> v \<le> free_balance (tl_balances L) l who \<longrightarrow>
        snd (withdraw (tl_balances L) who v rs KeepAlive l) =
          (if unat v + unat (minimum_balance (tl_balances L)) \<le> unat (free_balance (tl_balances L) l who)
           then Ok () else Err (tl_keep_alive L)))"

definition withdraw_takes :: "('acc, 'l) currency \<Rightarrow> bool" where
  "withdraw_takes C \<longleftrightarrow>
     (\<forall>l l' who v rs k. withdraw C who v rs k l = (l', Ok ()) \<longrightarrow>
        unat (free_balance C l who) = unat (free_balance C l' who) + unat v)"

definition plain_ledgers :: "('l \<Rightarrow> bool) \<Rightarrow> 'l claims_test_library \<Rightarrow> bool" where
  "plain_ledgers plain L \<longleftrightarrow>
     (\<forall>bs. plain (tl_genesis L bs)) \<and>
     (\<forall>l who v. plain l \<longrightarrow> plain (deposit_creating (tl_balances L) who v l)) \<and>
     (\<forall>l who v rs k. plain l \<longrightarrow> plain (fst (withdraw (tl_balances L) who v rs k l)))"

definition test_library_laws :: "('l \<Rightarrow> bool) \<Rightarrow> 'l claims_test_library \<Rightarrow> bool" where
  "test_library_laws plain L \<longleftrightarrow>
     minimum_balance (tl_balances L) = test_ExistentialDeposit \<and>
     deposit_credits (tl_balances L) \<and> deposit_frame (tl_balances L) \<and>
     withdraw_takes (tl_balances L) \<and> withdraw_frame (tl_balances L) \<and>
     keeps_alive plain L \<and> plain_ledgers plain L \<and>
     (\<forall>bs a. distinct (map fst bs) \<longrightarrow>
        free_balance (tl_balances L) (tl_genesis L bs) a = (case map_of bs a of Some v \<Rightarrow> v | None \<Rightarrow> 0)) \<and>
     tl_into_account L test_ClaimsModuleId \<notin> {1, 4, 5}"

text \<open>The first signature is one of the legal address for account 1; the other two are not.\<close>

definition test_signatures :: "'l claims_test_library \<Rightarrow> bool" where
  "test_signatures L \<longleftrightarrow>
     claim_signer (claims_test L) 1 get_legal_tx_hash get_legal_eth_sig = Some get_legal_eth_addr \<and>
     list_all (\<lambda>sig. case claim_signer (claims_test L) 1 get_legal_tx_hash sig of
                 Some a \<Rightarrow> a \<noteq> get_legal_eth_addr | None \<Rightarrow> False)
       [get_another_account_eth_sig, get_wrong_msg_eth_sig]"

section \<open>Running the tests\<close>

definition withdrawn :: "('acc, 'l) currency \<Rightarrow> 'acc \<Rightarrow> balance \<Rightarrow> withdraw_reasons \<Rightarrow> 'l \<Rightarrow> 'l" where
  "withdrawn C who v rs l = fst (withdraw C who v rs KeepAlive l)"

lemma test_genesis_balances:
  assumes "test_library_laws plain L"
  shows "free_balance (tl_balances L) (tl_genesis L [(4, 100), (5, 100)]) a = (if a = 4 \<or> a = 5 then 100 else 0)"
  using assms by (auto simp: test_library_laws_def)

lemma test_deposit:
  assumes "test_library_laws plain L" and "1 \<le> v"
    and "unat (free_balance (tl_balances L) l who) + unat v < 2 ^ 128"
  shows "free_balance (tl_balances L) (deposit_creating (tl_balances L) who v l) a =
    (if a = who then free_balance (tl_balances L) l a + v else free_balance (tl_balances L) l a)"
  using assms by (simp add: test_library_laws_def deposit_credits_def deposit_frame_def test_ExistentialDeposit_def)

lemma test_withdraw:
  assumes "test_library_laws plain L" and "plain l" and "v \<le> free_balance (tl_balances L) l who"
  shows "withdraw (tl_balances L) who v rs KeepAlive l =
    (withdrawn (tl_balances L) who v rs l,
     if unat v + 1 \<le> unat (free_balance (tl_balances L) l who) then Ok () else Err (tl_keep_alive L))"
proof (rule prod_eqI)
  have "keeps_alive plain L" and "minimum_balance (tl_balances L) = 1"
    using assms(1) by (simp_all add: test_library_laws_def test_ExistentialDeposit_def)
  with assms(2,3) show "snd (withdraw (tl_balances L) who v rs KeepAlive l) =
      snd (withdrawn (tl_balances L) who v rs l,
        if unat v + 1 \<le> unat (free_balance (tl_balances L) l who) then Ok () else Err (tl_keep_alive L))"
    unfolding keeps_alive_def by simp
qed (simp add: withdrawn_def)

lemma test_withdrawn:
  assumes "test_library_laws plain L" and "plain l" 
    and "unat v + 1 \<le> unat (free_balance (tl_balances L) l who)"
  shows "free_balance (tl_balances L) (withdrawn (tl_balances L) who v rs l) a =
    (if a = who then free_balance (tl_balances L) l a - v else free_balance (tl_balances L) l a)"
proof -
  have le: "v \<le> free_balance (tl_balances L) l who" using assms(3) by (simp add: word_le_nat_alt)
  have "withdraw (tl_balances L) who v rs KeepAlive l = (withdrawn (tl_balances L) who v rs l, Ok ())"
    using test_withdraw [OF assms(1,2) le] assms(3) by simp
  with assms(1) have "unat (free_balance (tl_balances L) l who) =
      unat (free_balance (tl_balances L) (withdrawn (tl_balances L) who v rs l) who) + unat v"
    "\<And>a. a \<noteq> who \<Longrightarrow> free_balance (tl_balances L) (withdrawn (tl_balances L) who v rs l) a =
      free_balance (tl_balances L) l a"
    unfolding test_library_laws_def withdraw_takes_def withdraw_frame_def by blast+
  with le show ?thesis by (cases "a = who") (simp_all add: unat_eq_iff [of _ "_ - v"] unat_sub_le)
qed

lemma test_plain:
  assumes "test_library_laws plain L"
  shows "plain (tl_genesis L bs)"
    and "plain l \<Longrightarrow> plain (deposit_creating (tl_balances L) who v l)"
    and "plain l \<Longrightarrow> plain (withdrawn (tl_balances L) who v rs l)"
  using assms by (simp_all add: test_library_laws_def plain_ledgers_def withdrawn_def)

lemma claims_test_simps [simp]:
  "c_origins (claims_test L) = raw_origins" "c_currency (claims_test L) = tl_balances L"
  "c_module_account (claims_test L) = tl_into_account L test_ClaimsModuleId"
  by (simp_all add: claims_test_def)

lemmas test_rules = test_genesis_balances test_deposit test_withdraw test_withdrawn test_plain

lemmas test_eval = set_bridge_account_elastic_def set_claim_limit_elastic_def
  set_bridge_fee_elastic_def mint_claim_elastic_def claim_elastic_def burn_elastic_def
  do_mint_claim_def do_claim_def do_burn_def credit_def deposit_event_def insert_claim_def
  elastic_bridge_accounts_def elastic_claim_limits_def bridge_fees_def comp_eval
  new_test_ext_def claims_genesis_def some_def saturating_sub_def

lemmas test_defs = mint_and_claim_should_works_def ethereum_mint_and_claim_should_works_def
  mint_fee_should_work_def change_bridger_should_work_def non_exist_tx_should_fail_def
  illegal_sig_claim_should_fail_def mint_twice_should_fail_def claim_twice_should_fail_def
  claim_limit_should_work_def burn_should_work_def burn_fee_should_work_def
  elastic_burn_fee_should_work_def

text \<open>The tests that claim, those that only mint, and those that burn.\<close>

lemma claiming_tests:
  assumes "test_library_laws plain L" and "test_signatures L"
  shows "passes (claims_test L) mint_and_claim_should_works (new_test_ext L)"
    and "passes (claims_test L) ethereum_mint_and_claim_should_works (new_test_ext L)"
    and "passes (claims_test L) mint_fee_should_work (new_test_ext L)"
    and "passes (claims_test L) illegal_sig_claim_should_fail (new_test_ext L)"
    and "passes (claims_test L) claim_twice_should_fail (new_test_ext L)"
proof -
  from assms(1) have module: "tl_into_account L test_ClaimsModuleId \<noteq> 1"
    "tl_into_account L test_ClaimsModuleId \<noteq> 4" "tl_into_account L test_ClaimsModuleId \<noteq> 5"
    by (simp_all add: test_library_laws_def)
  note eval = test_defs test_eval test_rules [OF assms(1)] Let_def module module [symmetric]
  from assms(2) have sig: "claim_signer (claims_test L) 1 get_legal_tx_hash get_legal_eth_sig = Some get_legal_eth_addr"
    by (simp add: test_signatures_def)
  from assms(2) obtain a b where other: "claim_signer (claims_test L) 1 get_legal_tx_hash get_another_account_eth_sig = Some a"
    "claim_signer (claims_test L) 1 get_legal_tx_hash get_wrong_msg_eth_sig = Some b"
    "get_legal_eth_addr \<noteq> a" "get_legal_eth_addr \<noteq> b"
    by (auto simp: test_signatures_def split: option.splits)
  show "passes (claims_test L) mint_and_claim_should_works (new_test_ext L)" by (simp add: eval sig)
  show "passes (claims_test L) ethereum_mint_and_claim_should_works (new_test_ext L)" by (simp add: eval sig)
  show "passes (claims_test L) mint_fee_should_work (new_test_ext L)" by (simp add: eval sig)
  show "passes (claims_test L) illegal_sig_claim_should_fail (new_test_ext L)" by (simp add: eval other raw_origins_def)
  show "passes (claims_test L) claim_twice_should_fail (new_test_ext L)" by (simp add: eval sig)
qed

lemma minting_tests:
  "passes (claims_test L) change_bridger_should_work (new_test_ext L)"
  "passes (claims_test L) non_exist_tx_should_fail (new_test_ext L)"
  "passes (claims_test L) mint_twice_should_fail (new_test_ext L)"
  "passes (claims_test L) claim_limit_should_work (new_test_ext L)"
  "passes (claims_test L) elastic_burn_fee_should_work (new_test_ext L)"
  by (simp_all add: test_defs test_eval raw_origins_def Let_def)

lemma burning_tests:
  assumes "test_library_laws plain L"
  shows "passes (claims_test L) (burn_should_work L) (new_test_ext L)"
    and "passes (claims_test L) burn_fee_should_work (new_test_ext L)"
proof -
  from assms have module: "tl_into_account L test_ClaimsModuleId \<noteq> 4"
    "tl_into_account L test_ClaimsModuleId \<noteq> 5"
    by (simp_all add: test_library_laws_def)
  note eval = test_defs test_eval test_rules [OF assms] Let_def module module [symmetric]
  show "passes (claims_test L) (burn_should_work L) (new_test_ext L)" by (simp add: eval)
  show "passes (claims_test L) burn_fee_should_work (new_test_ext L)" by (simp add: eval)
qed

section \<open>A library for witnesses\<close>

text \<open>A ledger with an existential deposit of one, and host functions that know two signers.\<close>

definition test_book :: "(u64, u64 book) currency" where
  "test_book =
     \<lparr>free_balance = fst, total_issuance = snd, minimum_balance = 1, deposit_creating = book_deposit,
      withdraw = (\<lambda>who v rs k l.
        if k = KeepAlive \<and> v \<le> fst l who \<and> unat (fst l who) < unat v + 1 then (l, Err (ForeignError 3))
        else case checked_sub (fst l who) v of
          Some b \<Rightarrow> (((fst l)(who := b), snd l), Ok ()) | None \<Rightarrow> (l, Err (ForeignError 0))),
      transfer = book_transfer\<rparr>"

text \<open>The public key of a signer is its address, padded; hashing a key moves the address to the end.\<close>

definition test_crypto :: host_crypto where
  "test_crypto =
     \<lparr>keccak_256 = (\<lambda>bs. Bytes (replicate 12 0 @ take 20 (bs @ replicate 20 0))),
      secp256k1_ecdsa_recover = (\<lambda>sig msg.
        Some (Bytes (hex_literal (if EcdsaSignature sig = get_legal_eth_sig
          then ''243E34C336F3D2c08BBC79b99E6BCA1fA7c58595''
          else ''f189cdFF5C1A903e20397b110f5D99B0460C67DC'') @ replicate 44 0)))\<rparr>"

definition little_endian :: "u64 \<Rightarrow> u8 list" where
  "little_endian n = map (\<lambda>i. of_nat (unat n div 256 ^ i)) [0..<8]"

definition claims_demo_library :: "u64 book claims_test_library" where
  "claims_demo_library =
     \<lparr>tl_balances = test_book,
      tl_genesis = (\<lambda>bs. (\<lambda>a. case map_of bs a of Some v \<Rightarrow> v | None \<Rightarrow> 0, 0)),
      tl_keep_alive = ForeignError 3, tl_into_account = (\<lambda>_. 77), tl_crypto = test_crypto,
      tl_encode_account = little_endian,
      tl_encode_tx = (\<lambda>tx. case tx of EthereumTxHash h \<Rightarrow> bytes_list h),
      tl_encode_provides = (\<lambda>tag a. ascii tag)\<rparr>"

lemma test_book_simps [simp]:
  "free_balance test_book = fst" "minimum_balance test_book = 1" "deposit_creating test_book = book_deposit"
  by (simp_all add: test_book_def)

lemma test_book_withdraw:
  "withdraw test_book who v rs k l = (l', Ok ()) \<Longrightarrow>
     \<exists>b. unat (fst l who) = unat v + unat b \<and> l' = ((fst l)(who := b), snd l)"
  by (auto simp: test_book_def word_nat split: option.splits if_splits)

lemma test_book_laws:
  "deposit_credits test_book" "deposit_frame test_book" "withdraw_takes test_book" "withdraw_frame test_book"
  by (auto simp: deposit_credits_def deposit_frame_def withdraw_takes_def withdraw_frame_def
      book_deposit_def checked_add_def dest!: test_book_withdraw split: option.splits)

lemma test_library_laws_hold: "test_library_laws (\<lambda>_. True) claims_demo_library"
proof -
  have "keeps_alive (\<lambda>_. True) claims_demo_library"
    by (auto simp: keeps_alive_def claims_demo_library_def test_book_def checked_sub_def)
  then show ?thesis
    using test_book_laws
    by (simp add: test_library_laws_def claims_demo_library_def plain_ledgers_def test_ExistentialDeposit_def)
qed

lemma mock_signatures_differ:
  "get_another_account_eth_sig \<noteq> get_legal_eth_sig" "get_wrong_msg_eth_sig \<noteq> get_legal_eth_sig"
  by (simp_all add: get_another_account_eth_sig_def get_legal_eth_sig_def get_wrong_msg_eth_sig_def
      Bytes_inject hex_digit_def)

lemma test_recover:
  assumes "length s = 40"
  shows "hash_tail (keccak_256 test_crypto (hex_literal s @ replicate 44 0)) = Bytes (hex_literal s)"
  using assms by (simp add: test_crypto_def hash_tail_def)

lemma test_signer:
  "claim_signer (claims_test claims_demo_library) dest tx sig =
     Some (EthereumAddress (Bytes (hex_literal (if sig = get_legal_eth_sig
       then ''243E34C336F3D2c08BBC79b99E6BCA1fA7c58595'' else ''f189cdFF5C1A903e20397b110f5D99B0460C67DC''))))"
proof -
  have crypto: "c_crypto (claims_test claims_demo_library) = test_crypto"
    by (simp add: claims_test_def claims_demo_library_def)
  have recover: "secp256k1_ecdsa_recover test_crypto bs msg =
      Some (Bytes (hex_literal (if EcdsaSignature bs = get_legal_eth_sig
          then ''243E34C336F3D2c08BBC79b99E6BCA1fA7c58595''
          else ''f189cdFF5C1A903e20397b110f5D99B0460C67DC'') @ replicate 44 0))" for bs msg
    by (simp add: test_crypto_def)
  show ?thesis
    by (cases sig) (simp add: claim_signer_def eth_recover_def eth_recover_bytes_def crypto recover
        test_recover del: hex_literal.simps)
qed

lemma test_signatures_hold: "test_signatures claims_demo_library"
proof -
  have "(Bytes (hex_literal ''f189cdFF5C1A903e20397b110f5D99B0460C67DC'') :: h160) \<noteq>
      Bytes (hex_literal ''243E34C336F3D2c08BBC79b99E6BCA1fA7c58595'')"
    by (simp add: Bytes_inject hex_digit_def)
  then show ?thesis
    by (simp add: test_signatures_def test_signer mock_signatures_differ get_legal_eth_addr_def del: hex_literal.simps)
qed

section \<open>Properties\<close>

text \<open>
  The tests of the claims pallet pass on the model. For every balances pallet that
  keeps its documented laws and host functions that recover the signers the mock
  names, all twelve scenarios of calls go as the tests assert: which calls succeed,
  the error of each one that fails without any effect, and the balances, limits and
  claim records read back between them.
\<close>

theorem claims_tests_pass:
  assumes "test_library_laws plain L" and "test_signatures L"
  shows "list_all (\<lambda>t. passes (claims_test L) t (new_test_ext L)) (claims_tests L)"
  by (simp add: claims_tests_def claiming_tests [OF assms] minting_tests burning_tests [OF assms(1)])

theorem claims_tests_pass_witness:
  "list_all (\<lambda>t. passes (claims_test claims_demo_library) t (new_test_ext claims_demo_library)) (claims_tests claims_demo_library)"
  by (rule claims_tests_pass [OF test_library_laws_hold test_signatures_hold])

text \<open>
  The test of the migration passes: from the old storage items that
  \<open>init_mock_data\<close> writes, the upgrade raises the version, moves the account, the
  limit and the fees to the BSC network and copies the claims there and nowhere else.
\<close>

theorem upgrade_test_passes:
  "pallet_storage_version (new_test_ext L) = 1 \<and>
   (let s = upgrade_mock_data L; t = fst (on_runtime_upgrade s) in
      MintFee s = Some 1000 \<and> BurnFee s = Some 500 \<and> ClaimLimit s = 2000 \<and>
      map_of (Claims s) get_legal_tx_hash \<noteq> None \<and> ElasticClaims s BSC get_legal_tx_hash = None \<and>
      elastic_bridge_accounts s BSC = None \<and> elastic_claim_limits s BSC = 0 \<and> bridge_fees s BSC = (0, 0) \<and>
      pallet_storage_version t = 2 \<and> elastic_bridge_accounts t BSC = Some 1 \<and>
      elastic_claim_limits t BSC = 2000 \<and> bridge_fees t BSC = (1000, 500) \<and>
      ElasticClaims t BSC get_legal_tx_hash = Some (get_legal_eth_addr, 100, False) \<and>
      ElasticClaims t Ethereum get_legal_tx_hash = None \<and> ElasticClaims t Ethereum upgrade_tx2 = None)"
proof -
  have "upgrade_tx2 \<noteq> get_legal_tx_hash"
    by (simp add: upgrade_tx2_def get_legal_tx_hash_def Bytes_inject hex_digit_def)
  moreover have "\<not> 2 \<le> (1 :: u32)" by (simp add: word_le_nat_alt)
  ultimately show ?thesis
    by (simp add: Let_def upgrade_mock_data_def init_mock_data_def new_test_ext_def claims_genesis_def some_def
        on_runtime_upgrade_def pallet_storage_version_def VersionDefault_def migrate_claim_def
        migrate_limit_def migrate_bridge_account_def migrate_fees_def insert_claim_def
        elastic_bridge_accounts_def elastic_claim_limits_def bridge_fees_def)
qed

text \<open>
  The mock's comment gives the bytes that were signed: with the SCALE encoding of the
  account number 1 and of the transaction hash, the message of the pallet is the
  prefix, the account and the hash in hexadecimal, with the length 109 before them.
\<close>

theorem test_message:
  assumes "tl_encode_account L 1 = [1, 0, 0, 0, 0, 0, 0, 0]"
    and "tl_encode_tx L get_legal_tx_hash =
      hex_literal ''4c5adaad6ca9cd2ae9f372b59ff6765fb66082c08caf6e61e6fbc39c35e82bec''"
  shows "claim_message (claims_test L) 1 get_legal_tx_hash =
    message_header @ ascii (''109'' @ ''Pay CLVs to the TEST account:0100000000000000'' @
      ''4c5adaad6ca9cd2ae9f372b59ff6765fb66082c08caf6e61e6fbc39c35e82bec'')"
proof -
  let ?tx = "''4c5adaad6ca9cd2ae9f372b59ff6765fb66082c08caf6e61e6fbc39c35e82bec''"
  have len: "length test_Prefix + length (to_ascii_hex [1, 0, 0, 0, 0, 0, 0, 0]) +
      length (to_ascii_hex (hex_literal ?tx)) = 109"
    by (simp add: test_Prefix_def ascii_def del: hex_literal.simps to_ascii_hex.simps)
  have "rev (rev_digits 109) = ascii ''109''" by (simp add: rev_digits.simps ascii_def)
  moreover have "to_ascii_hex (hex_literal ?tx) = ascii ?tx"
    by (simp add: hex_digit_def push_nibble_def ascii_def)
  moreover have "to_ascii_hex [1, 0, 0, 0, 0, 0, 0, 0] = ascii ''0100000000000000''"
    by (simp add: push_nibble_def ascii_def)
  moreover have "claim_message (claims_test L) 1 get_legal_tx_hash =
      ethereum_signable_message test_Prefix (to_ascii_hex [1, 0, 0, 0, 0, 0, 0, 0]) (to_ascii_hex (hex_literal ?tx))"
    by (simp add: claim_message_def claims_test_def assms del: hex_literal.simps to_ascii_hex.simps)
  ultimately show ?thesis
    unfolding ethereum_signable_message_def Let_def len by (simp add: test_Prefix_def ascii_def)
qed

theorem test_message_witness:
  "length (claim_message (claims_test claims_demo_library) 1 get_legal_tx_hash) = 138"
proof -
  have "tl_encode_account claims_demo_library 1 = [1, 0, 0, 0, 0, 0, 0, 0]"
    by (simp add: claims_demo_library_def little_endian_def upt_rec)
  moreover have "tl_encode_tx claims_demo_library get_legal_tx_hash =
      hex_literal ''4c5adaad6ca9cd2ae9f372b59ff6765fb66082c08caf6e61e6fbc39c35e82bec''"
    by (simp add: claims_demo_library_def get_legal_tx_hash_def del: hex_literal.simps)
  ultimately show ?thesis
    by (simp add: test_message message_header_def ascii_def del: hex_literal.simps)
qed

text \<open>
  The third signature is the second one with another recovery byte: its comment in
  the mock says that it is the legal address's own signature of another message.
\<close>

theorem wrong_msg_sig_reused:
  "case (get_another_account_eth_sig, get_wrong_msg_eth_sig) of (EcdsaSignature a, EcdsaSignature b) \<Rightarrow>
     take 64 (bytes_list a) = take 64 (bytes_list b)"
  by (simp add: get_another_account_eth_sig_def get_wrong_msg_eth_sig_def Bytes_inverse hex_literal.simps)

end
