(* ===== verification/Pool_Mock.thy ===== *)
theory Pool_Mock
  imports Reward_Pool "HOL-Library.While_Combinator"
begin

text \<open>
  The runtime the reward-pool pallet is tested on,
  \<^verbatim>\<open>modules/reward-pool/src/mock.rs\<close>: its reward handler, the pallet's configuration,
  the endowed accounts, and the loop \<open>run_to_block\<close>. The pallets of the framework are
  parameters, as the token operations, the sub-accounts and the fixed-point numbers
  are.

  The lemmas show that the loop ends at the block asked for, after the hooks of every
  block in their order, that the handler's \<open>unwrap\<close> is safe, and what the scenarios of
  \<^verbatim>\<open>modules/reward-pool/src/tests.rs\<close> give when they are run on the model.
\<close>

section \<open>The handler\<close>

datatype mock_pool_id = Swap u64

text \<open>The subtraction of block numbers panics below zero, \<open>unwrap\<close> on an overflow.\<close>

definition mock_caculate_reward :: "mock_pool_id \<Rightarrow> share \<Rightarrow> u64 \<Rightarrow> u64 \<Rightarrow> balance may_panic" where
  "mock_caculate_reward pool_id total_share last_update now =
     (if total_share = 0 then Returns 0
      else if now < last_update then Panics
      else case checked_mul DOLLARS (ucast (now - last_update)) of
        Some reward \<Rightarrow> Returns reward
      | None \<Rightarrow> Panics)"

section \<open>The configuration\<close>

definition mock_ExistentialDeposit :: u128 where
  "mock_ExistentialDeposit = 500"

definition RewardPoolModuleId :: "u8 list" where
  "RewardPoolModuleId = ascii ''clv/repm''"

record ('l, 'f) mock_library =
  ml_sub_account :: "u8 list \<Rightarrow> mock_pool_id \<Rightarrow> account_id"
  ml_update_balance :: "currency_id \<Rightarrow> account_id \<Rightarrow> int \<Rightarrow> ('l, unit, dispatch_error) comp"
  ml_transfer :: "currency_id \<Rightarrow> account_id \<Rightarrow> account_id \<Rightarrow> balance \<Rightarrow> ('l, unit, dispatch_error) comp"
  ml_from_rational :: "u128 \<Rightarrow> u128 \<Rightarrow> 'f option"
  ml_mul_int :: "'f \<Rightarrow> u128 \<Rightarrow> u128 option"
  ml_fixed_zero :: 'f

text \<open>
  The block numbers of this runtime are 64 bits wide and those of the chain 32; the
  pallet never asks for a reward backwards (\<open>calc_pool_reward_at_block\<close>), so that the
  handler does not panic (\<open>mock_reward_total\<close>).
\<close>

definition mock_pool :: "('l, 'f) mock_library \<Rightarrow> (mock_pool_id, account_id, 'l, 'f) pool_config" where
  "mock_pool L =
     \<lparr>p_handler = (\<lambda>p sh last now.
        case mock_caculate_reward p sh (ucast last) (ucast now) of Returns v \<Rightarrow> v | Panics \<Rightarrow> 0),
      p_existential_reward = mock_ExistentialDeposit,
      p_sub_account = ml_sub_account L RewardPoolModuleId,
      p_native_currency = CLV,
      p_update_balance = ml_update_balance L, p_transfer = ml_transfer L,
      p_from_rational = ml_from_rational L, p_mul_int = ml_mul_int L, p_fixed_zero = ml_fixed_zero L\<rparr>"

section \<open>The accounts\<close>

definition ALICE :: account_id where "ALICE = Bytes (replicate 32 0)"

definition BOB :: account_id where "BOB = Bytes (replicate 32 1)"

definition DAVE :: account_id where "DAVE = Bytes (replicate 32 2)"

definition mock_endowed_accounts :: "(account_id \<times> currency_id \<times> balance) list" where
  "mock_endowed_accounts =
     [(ALICE, CLV, 1000000000000000000), (BOB, CLV, 1000000000000000000),
      (ALICE, CUSDT, 1000000000000000000), (BOB, CUSDT, 1000000000000000000),
      (ALICE, DOT, 1000000000000000000), (BOB, DOT, 1000000000000000000),
      (ALICE, CETH, 1000000000000000000), (BOB, CETH, 1000000000000000000)]"

text \<open>\<open>ExtBuilder::build\<close>: the genesis of the balances and of the tokens pallet.\<close>

definition mock_build ::
  "(account_id \<times> currency_id \<times> balance) list \<Rightarrow>
   (account_id \<times> balance) list \<times> (account_id \<times> currency_id \<times> balance) list" where
  "mock_build endowed =
     (map (\<lambda>(account, currency, initial_balance). (account, initial_balance))
        (filter (\<lambda>(_, currency, _). currency = CLV) endowed),
      filter (\<lambda>(_, currency, _). currency \<noteq> CLV) endowed)"

section \<open>The block loop\<close>

datatype mock_pallet = RewardPoolModule | Currencies | Tokens | Balances | System

text \<open>
  What the loop calls: the hooks of the pallets, and the two functions of the system
  pallet that read and write the block number in the storage.
\<close>

record 's hooks =
  block_number_of :: "'s \<Rightarrow> u64"
  set_block_number :: "u64 \<Rightarrow> 's \<Rightarrow> 's"
  on_finalize :: "mock_pallet \<Rightarrow> u64 \<Rightarrow> 's \<Rightarrow> 's"
  on_initialize :: "mock_pallet \<Rightarrow> u64 \<Rightarrow> 's \<Rightarrow> 's"

text \<open>A hook is called with the block number that the storage has then.\<close>

definition finalize_now :: "'s hooks \<Rightarrow> mock_pallet \<Rightarrow> 's \<Rightarrow> 's" where
  "finalize_now H p s = on_finalize H p (block_number_of H s) s"

definition initialize_now :: "'s hooks \<Rightarrow> mock_pallet \<Rightarrow> 's \<Rightarrow> 's" where
  "initialize_now H p s = on_initialize H p (block_number_of H s) s"

definition block_round :: "'s hooks \<Rightarrow> 's \<Rightarrow> 's" where
  "block_round H s =
     (let s = finalize_now H RewardPoolModule s;
          s = finalize_now H Currencies s;
          s = finalize_now H Tokens s;
          s = finalize_now H Balances s;
          s = finalize_now H System s;
          s = set_block_number H (block_number_of H s + 1) s;
          s = initialize_now H System s;
          s = initialize_now H Balances s;
          s = initialize_now H Tokens s;
          s = initialize_now H Currencies s
      in initialize_now H RewardPoolModule s)"

text \<open>The loop may run forever, when the hooks write the block number.\<close>

definition run_to_block :: "'s hooks \<Rightarrow> u64 \<Rightarrow> 's \<Rightarrow> 's option" where
  "run_to_block H n = while_option (\<lambda>s. block_number_of H s < n) (block_round H)"

text \<open>
  Documented behaviour of the framework: the block number is what was set last, and
  the hooks of the pallets do not set it.
\<close>

definition number_kept :: "'s hooks \<Rightarrow> bool" where
  "number_kept H \<longleftrightarrow>
     (\<forall>b s. block_number_of H (set_block_number H b s) = b) \<and>
     (\<forall>p b s. block_number_of H (on_finalize H p b s) = block_number_of H s \<and>
        block_number_of H (on_initialize H p b s) = block_number_of H s)"

text \<open>The calls that move the chain from one block to the next, and a chain of them.\<close>

datatype block_call = Finalize mock_pallet u64 | SetNumber u64 | Initialize mock_pallet u64

fun perform :: "'s hooks \<Rightarrow> block_call \<Rightarrow> 's \<Rightarrow> 's" where
  "perform H (Finalize p b) = on_finalize H p b"
| "perform H (SetNumber b) = set_block_number H b"
| "perform H (Initialize p b) = on_initialize H p b"

definition calls_after :: "u64 \<Rightarrow> block_call list" where
  "calls_after b =
     [Finalize RewardPoolModule b, Finalize Currencies b, Finalize Tokens b, Finalize Balances b, Finalize System b,
      SetNumber (b + 1),
      Initialize System (b + 1), Initialize Balances (b + 1), Initialize Tokens (b + 1), Initialize Currencies (b + 1),
      Initialize RewardPoolModule (b + 1)]"

lemma unat_succ_below: "b < n \<Longrightarrow> unat (b + 1) = Suc (unat b)" for b n :: u64
proof -
  assume "b < n"
  then have "unat b < unat n" by (simp add: word_less_nat_alt)
  moreover have "unat n < 2 ^ 64" using unsigned_less [of n, where 'a = nat] by simp
  ultimately have "unat b + 1 < 2 ^ LENGTH(64)" by simp
  then show ?thesis by (simp add: unat_word_ariths)
qed

lemma block_round_calls:
  assumes "number_kept H"
  shows "block_round H s = fold (perform H) (calls_after (block_number_of H s)) s"
    and "block_number_of H (block_round H s) = block_number_of H s + 1"
  using assms by (simp_all add: block_round_def finalize_now_def initialize_now_def calls_after_def number_kept_def Let_def)

section \<open>The test scenarios\<close>

definition mock_update_balance :: "currency_id \<Rightarrow> account_id \<Rightarrow> int \<Rightarrow> (account_id book, unit, dispatch_error) comp" where
  "mock_update_balance c a n l =
     (let v = int (unat (fst l a)) + n
      in if 0 \<le> v \<and> v < 2 ^ 128 then (((fst l)(a := of_nat (nat v)), snd l), Ok ())
         else (l, Err (ForeignError 2)))"

definition mock_transfer ::
  "currency_id \<Rightarrow> account_id \<Rightarrow> account_id \<Rightarrow> balance \<Rightarrow> (account_id book, unit, dispatch_error) comp" where
  "mock_transfer c a b v = book_transfer a b v AllowDeath"

definition POOL_ACCOUNT :: account_id where "POOL_ACCOUNT = Bytes (replicate 32 9)"

definition test_library :: "(account_id book, nat) mock_library" where
  "test_library =
     \<lparr>ml_sub_account = (\<lambda>_ _. POOL_ACCOUNT), ml_update_balance = mock_update_balance,
      ml_transfer = mock_transfer, ml_from_rational = demo_from_rational, ml_mul_int = demo_mul_int,
      ml_fixed_zero = 0\<rparr>"

type_synonym 'a test = "((mock_pool_id, account_id, account_id book) pool_state, 'a, dispatch_error) comp"

text \<open>The five numbers \<open>check_pool_data\<close> compares: of the pool, then of the account.\<close>

definition pool_data :: "account_id \<Rightarrow> (u128 \<times> u128 \<times> u128 \<times> u128 \<times> u128) test" where
  "pool_data who = gets (\<lambda>s.
     let i = get_pool_info s (Swap 1); a = get_pool_account_info s (Swap 1) who
     in (total_shares i, total_rewards i, total_rewards_useable i, shares a, borrowed_amount a))"

definition at_block :: "block_number \<Rightarrow> unit test" where
  "at_block n = modify (\<lambda>s. s\<lparr>current_block := n\<rparr>)"

text \<open>\<open>test_reward_single_account\<close>, with what it compares as the result.\<close>

definition single_account :: "(u128 \<times> u128 \<times> u128 \<times> u128 \<times> u128) list test" where
  "single_account =
     and_then (at_block 10) (\<lambda>_.
     and_then (add_share (mock_pool test_library) ALICE (Swap 1) 100) (\<lambda>_.
     and_then (at_block 20) (\<lambda>_.
     and_then (update_pool_reward (mock_pool test_library) (Swap 1)) (\<lambda>_.
     and_then (pool_data ALICE) (\<lambda>d1.
     and_then (at_block 30) (\<lambda>_.
     and_then (add_share (mock_pool test_library) ALICE (Swap 1) 100) (\<lambda>_.
     and_then (pool_data ALICE) (\<lambda>d2.
     and_then (at_block 40) (\<lambda>_.
     and_then (remove_share (mock_pool test_library) ALICE (Swap 1) 100) (\<lambda>_.
     and_then (pool_data ALICE) (\<lambda>d3.
     and_then (at_block 50) (\<lambda>_.
     and_then (remove_share (mock_pool test_library) ALICE (Swap 1) 100) (\<lambda>_.
     and_then (pool_data ALICE) (\<lambda>d4.
     ok [d1, d2, d3, d4]))))))))))))))"

text \<open>The first removal of \<open>test_reward_single_account_existential\<close>.\<close>

definition single_account_existential :: "(u128 \<times> u128 \<times> u128 \<times> u128 \<times> u128) test" where
  "single_account_existential =
     and_then (at_block 10) (\<lambda>_.
     and_then (add_share (mock_pool test_library) ALICE (Swap 1) 1000000000000) (\<lambda>_.
     and_then (at_block 11) (\<lambda>_.
     and_then (remove_share (mock_pool test_library) ALICE (Swap 1) 1) (\<lambda>_.
     pool_data ALICE))))"

text \<open>The other removal of that test is of all that is left.\<close>

definition existential_last_removal :: "(u128 \<times> u128 \<times> u128 \<times> u128 \<times> u128) test" where
  "existential_last_removal =
     and_then single_account_existential (\<lambda>_.
     and_then (at_block 20) (\<lambda>_.
     and_then (remove_share (mock_pool test_library) ALICE (Swap 1) 999999999999) (\<lambda>_.
     pool_data ALICE)))"

text \<open>\<open>test_reward_calc_on_no_shares\<close>\<close>

definition no_shares :: "(u128 \<times> u128 \<times> u128 \<times> u128 \<times> u128) list test" where
  "no_shares =
     and_then (at_block 10) (\<lambda>_.
     and_then (update_pool_reward (mock_pool test_library) (Swap 1)) (\<lambda>_.
     and_then (pool_data ALICE) (\<lambda>d1.
     and_then (at_block 20) (\<lambda>_.
     and_then (update_pool_reward (mock_pool test_library) (Swap 1)) (\<lambda>_.
     and_then (pool_data ALICE) (\<lambda>d2.
     ok [d1, d2]))))))"

text \<open>\<open>test_multi_account_rewards\<close>, block by block, and \<open>test_claim_rewards\<close>.\<close>

definition multi_enter :: "unit test" where
  "multi_enter =
     and_then (at_block 100) (\<lambda>_.
     and_then (add_share (mock_pool test_library) ALICE (Swap 1) (100 * DOLLARS)) (\<lambda>_.
     and_then (at_block 200) (\<lambda>_.
     and_then (add_share (mock_pool test_library) BOB (Swap 1) (50 * DOLLARS)) (\<lambda>_.
     and_then (add_share (mock_pool test_library) DAVE (Swap 1) (50 * DOLLARS)) (\<lambda>_.
     at_block 300)))))"

definition multi_leave :: "(u128 \<times> u128 \<times> u128 \<times> u128 \<times> u128) list test" where
  "multi_leave =
     and_then (remove_share (mock_pool test_library) ALICE (Swap 1) (100 * DOLLARS)) (\<lambda>_.
     and_then (add_share (mock_pool test_library) BOB (Swap 1) (50 * DOLLARS)) (\<lambda>_.
     and_then (add_share (mock_pool test_library) DAVE (Swap 1) (50 * DOLLARS)) (\<lambda>_.
     and_then (at_block 400) (\<lambda>_.
     and_then (remove_share (mock_pool test_library) BOB (Swap 1) (50 * DOLLARS)) (\<lambda>_.
     and_then (remove_share (mock_pool test_library) DAVE (Swap 1) (100 * DOLLARS)) (\<lambda>_.
     and_then (at_block 500) (\<lambda>_.
     and_then (remove_share (mock_pool test_library) BOB (Swap 1) (50 * DOLLARS)) (\<lambda>_.
     and_then (pool_data ALICE) (\<lambda>d1.
     and_then (pool_data BOB) (\<lambda>d2.
     and_then (pool_data DAVE) (\<lambda>d3.
     ok [d1, d2, d3])))))))))))"

definition multi_account :: "(u128 \<times> u128 \<times> u128 \<times> u128 \<times> u128) list test" where
  "multi_account = and_then multi_enter (\<lambda>_. multi_leave)"

definition claim_after_enter :: "(u128 \<times> u128 \<times> u128 \<times> u128 \<times> u128) list test" where
  "claim_after_enter =
     and_then (claim_rewards (mock_pool test_library) ALICE (Swap 1)) (\<lambda>_.
     and_then (add_share (mock_pool test_library) BOB (Swap 1) (100 * DOLLARS)) (\<lambda>_.
     and_then (add_share (mock_pool test_library) DAVE (Swap 1) (100 * DOLLARS)) (\<lambda>_.
     and_then (pool_data ALICE) (\<lambda>d1.
     and_then (at_block 400) (\<lambda>_.
     and_then (claim_rewards (mock_pool test_library) ALICE (Swap 1)) (\<lambda>_.
     and_then (pool_data ALICE) (\<lambda>d2.
     and_then (claim_rewards (mock_pool test_library) BOB (Swap 1)) (\<lambda>_.
     and_then (pool_data BOB) (\<lambda>d3.
     ok [d1, d2, d3])))))))))"

definition claiming :: "(u128 \<times> u128 \<times> u128 \<times> u128 \<times> u128) list test" where
  "claiming = and_then multi_enter (\<lambda>_. claim_after_enter)"

lemma mock_reward_total:
  assumes "b \<le> now" and "total_share \<noteq> 0"
  shows "\<exists>v. mock_caculate_reward p total_share b now = Returns v \<and>
    unat v = unat DOLLARS * (unat now - unat b)"
proof -
  have "unat (now - b) < 2 ^ 64" using unsigned_less [of "now - b", where 'a = nat] by simp
  then have u: "unat (ucast (now - b) :: u128) = unat (now - b)" by (intro unat_ucast_fits) simp
  moreover have "unat DOLLARS * unat (now - b) < 2 ^ 128"
    using \<open>unat (now - b) < 2 ^ 64\<close> by (simp add: DOLLARS_def)
  ultimately have "unat (DOLLARS * ucast (now - b)) = unat DOLLARS * unat (now - b)"
    "checked_mul DOLLARS (ucast (now - b)) = Some (DOLLARS * ucast (now - b))"
    by (simp_all add: unat_mul_fits checked_mul_def)
  with assms show ?thesis by (simp add: mock_caculate_reward_def unat_sub_le)
qed

lemma mock_handler_eval:
  "p_handler (mock_pool L) p sh b now =
     (if sh = 0 then 0 else if now < b then 0 else DOLLARS * of_nat (unat now - unat b))"
proof -
  have u: "unat (ucast x :: u64) = unat x" for x :: u32
    using unsigned_less [of x, where 'a = nat] by (intro unat_ucast_fits) simp
  show ?thesis
  proof (cases "now < b")
    case True
    then show ?thesis by (simp add: mock_pool_def mock_caculate_reward_def word_less_nat_alt u)
  next
    case False
    let ?d = "unat now - unat b"
    have small: "?d < 2 ^ 32" using unsigned_less [of now, where 'a = nat] by simp
    then have d: "unat (of_nat ?d :: u128) = ?d" by (simp add: unsigned_of_nat take_bit_nat_eq_self)
    with small have v: "unat (DOLLARS * of_nat ?d) = unat DOLLARS * ?d"
      by (subst unat_mul_fits) (simp_all add: DOLLARS_def)
    from False have "(ucast b :: u64) \<le> ucast now" by (simp add: word_le_nat_alt word_less_nat_alt u not_less)
    from mock_reward_total [OF this, of sh p] v False show ?thesis
      by (auto simp: mock_pool_def mock_caculate_reward_def u unat_eq_iff)
  qed
qed

text \<open>The state \<open>ExtBuilder\<close> builds, as far as the native currency goes.\<close>

definition mock_genesis :: "(mock_pool_id, account_id, account_id book) pool_state" where
  "mock_genesis = pool_genesis
     ((\<lambda>a. case map_of (fst (mock_build mock_endowed_accounts)) a of Some v \<Rightarrow> v | None \<Rightarrow> 0), 0)"

lemma mock_genesis_eq:
  "mock_genesis = pool_genesis ((\<lambda>a. if a = ALICE \<or> a = BOB then 1000000000000000000 else 0), 0)"
proof -
  have "(case map_of (fst (mock_build mock_endowed_accounts)) a of Some v \<Rightarrow> v | None \<Rightarrow> 0) =
      (if a = ALICE \<or> a = BOB then 1000000000000000000 else 0)" for a
    by (simp add: mock_build_def mock_endowed_accounts_def)
  then show ?thesis by (simp only: mock_genesis_def)
qed

lemma mock_pool_simps [simp]:
  "p_existential_reward (mock_pool L) = 500" "p_sub_account (mock_pool test_library) = (\<lambda>_. POOL_ACCOUNT)"
  "p_native_currency (mock_pool L) = CLV" "p_update_balance (mock_pool test_library) = mock_update_balance"
  "p_transfer (mock_pool test_library) = mock_transfer" "p_from_rational (mock_pool test_library) = demo_from_rational"
  "p_mul_int (mock_pool test_library) = demo_mul_int" "p_fixed_zero (mock_pool test_library) = 0"
  by (simp_all add: mock_pool_def test_library_def mock_ExistentialDeposit_def)

lemma pool_not_alice [simp]: "POOL_ACCOUNT \<noteq> ALICE" "ALICE \<noteq> POOL_ACCOUNT" "POOL_ACCOUNT \<noteq> BOB"
  by (simp_all add: POOL_ACCOUNT_def ALICE_def BOB_def Bytes_eq_iff replicate_eq_replicate)

lemma test_accounts_differ [simp]: "distinct [ALICE, BOB, DAVE, POOL_ACCOUNT]"
  "BOB \<noteq> POOL_ACCOUNT" "DAVE \<noteq> POOL_ACCOUNT" "POOL_ACCOUNT \<noteq> DAVE" "ALICE \<noteq> BOB" "BOB \<noteq> ALICE"
  "ALICE \<noteq> DAVE" "DAVE \<noteq> ALICE" "BOB \<noteq> DAVE" "DAVE \<noteq> BOB"
  by (simp_all add: POOL_ACCOUNT_def ALICE_def BOB_def DAVE_def Bytes_eq_iff replicate_eq_replicate)

lemmas test_eval = add_share_def remove_share_def claim_rewards_def pool_eval Let_def at_block_def pool_data_def
  mock_handler_eval DOLLARS_def mock_update_balance_def mock_transfer_def

text \<open>What the accounts have at block 300, with shares of 100, 50 and 50 units.\<close>

lemma multi_enter_eq:
  "multi_enter mock_genesis =
     (\<lparr>Pools = [(Swap 1, \<lparr>total_shares = 200 * DOLLARS, total_rewards = 200 * DOLLARS,
                   total_rewards_useable = 100 * DOLLARS, last_update_block = 200\<rparr>)],
       PoolAccountData = (\<lambda>_. Map.empty)(Swap 1 :=
         [ALICE \<mapsto> \<lparr>shares = 100 * DOLLARS, borrowed_amount = 0\<rparr>,
          BOB \<mapsto> \<lparr>shares = 50 * DOLLARS, borrowed_amount = 50 * DOLLARS\<rparr>,
          DAVE \<mapsto> \<lparr>shares = 50 * DOLLARS, borrowed_amount = 50 * DOLLARS\<rparr>]),
       current_block = 300,
       funds = ((\<lambda>a. if a = ALICE \<or> a = BOB then 1000000000000000000 else 0)(POOL_ACCOUNT := 100 * DOLLARS), 0)\<rparr>, Ok ())"
  by (simp add: multi_enter_def test_eval mock_genesis_eq pool_genesis_def)

section \<open>Properties\<close>

text \<open>
  C39. The block loop of the test runtime ends: for pallets whose hooks do not write the
  block number, it stops at the block asked for, or where it started if that is later.
  In between it has made exactly these calls: for each block, in order, the hooks that
  end it, from the reward pool to the system, with its number, then the next number is
  set, and the hooks that begin the next block run in the opposite order, with the
  next number.
\<close>

theorem run_to_block_ends:
  assumes "number_kept H"
  shows "\<exists>t. run_to_block H n s = Some t \<and> block_number_of H t = max (block_number_of H s) n \<and>
    t = fold (perform H) (concat (map (\<lambda>k. calls_after (of_nat k)) [unat (block_number_of H s) ..< unat n])) s"
proof (induction "unat n - unat (block_number_of H s)" arbitrary: s)
  case 0
  then have le: "n \<le> block_number_of H s" by (simp add: word_le_nat_alt)
  then have "run_to_block H n s = Some s" unfolding run_to_block_def by (subst while_option_unfold) (simp add: leD)
  with le show ?case by (simp add: max_absorb1 word_le_nat_alt)
next
  case (Suc d)
  let ?b = "block_number_of H s" and ?u = "block_round H s"
  have lt: "?b < n" using Suc.hyps(2) by (simp add: word_less_nat_alt)
  then have succ: "unat (?b + 1) = Suc (unat ?b)" by (rule unat_succ_below)
  note u = block_round_calls [OF assms, of s]
  have "run_to_block H n s = run_to_block H n ?u"
    unfolding run_to_block_def using lt by (subst while_option_unfold) simp
  moreover from Suc.hyps(1) [of ?u] Suc.hyps(2) obtain t where t: "run_to_block H n ?u = Some t"
    "block_number_of H t = max (?b + 1) n"
    "t = fold (perform H) (concat (map (\<lambda>k. calls_after (of_nat k)) [Suc (unat ?b) ..< unat n])) ?u"
    by (auto simp: u(2) succ)
  moreover have "max (?b + 1) n = max ?b n"
    using lt succ by (simp add: max_absorb2 word_le_nat_alt word_less_nat_alt)
  moreover have "[unat ?b ..< unat n] = unat ?b # [Suc (unat ?b) ..< unat n]"
    using lt by (simp add: upt_conv_Cons word_less_nat_alt)
  ultimately show ?case by (simp add: u(1))
qed

text \<open>Pallets that record their calls.\<close>

definition demo_hooks :: "(u64 \<times> block_call list) hooks" where
  "demo_hooks =
     \<lparr>block_number_of = fst, set_block_number = (\<lambda>b (_, log). (b, log)),
      on_finalize = (\<lambda>p b (m, log). (m, log @ [Finalize p b])),
      on_initialize = (\<lambda>p b (m, log). (m, log @ [Initialize p b]))\<rparr>"

theorem run_to_block_ends_witness:
  "run_to_block demo_hooks 2 (1, []) = Some (2,
     [Finalize RewardPoolModule 1, Finalize Currencies 1, Finalize Tokens 1, Finalize Balances 1, Finalize System 1,
      Initialize System 2, Initialize Balances 2, Initialize Tokens 2, Initialize Currencies 2,
      Initialize RewardPoolModule 2])"
proof -
  have "number_kept demo_hooks" by (simp add: number_kept_def demo_hooks_def split_beta)
  from run_to_block_ends [OF this, of 2 "(1, [])"] show ?thesis
    by (simp add: demo_hooks_def calls_after_def upt_rec)
qed

text \<open>
  The model reproduces the pallet's own test of one account: at blocks 20, 30, 40
  and 50 the pool and the account have exactly the shares, rewards, withdrawable
  rewards and borrowed amounts the test compares with, and at the end the account has
  earned forty units and the pool's account is empty.
\<close>

theorem single_account_as_tested:
  "case single_account mock_genesis of (s, r) \<Rightarrow>
     fst (funds s) ALICE = fst (funds mock_genesis) ALICE + 40 * DOLLARS \<and> fst (funds s) POOL_ACCOUNT = 0 \<and>
     r = Ok [(100, 10 * DOLLARS, 10 * DOLLARS, 100, 0), (200, 40 * DOLLARS, 20 * DOLLARS, 200, 20 * DOLLARS),
       (100, 25 * DOLLARS, 15 * DOLLARS, 100, 10 * DOLLARS), (0, 0, 0, 0, 0)]"
  by (simp add: single_account_def add_share_def remove_share_def pool_eval Let_def at_block_def pool_data_def
      mock_handler_eval DOLLARS_def mock_update_balance_def mock_transfer_def mock_genesis_eq pool_genesis_def)

text \<open>
  The second test of one account does not agree with the code: it expects the
  reward of one share in a million million to be too small to pay and the pool to keep
  one whole unit, but at the present size of the unit that share earns a million, two
  thousand times the existential reward, and is paid.
\<close>

theorem existential_test_outdated:
  "snd (single_account_existential mock_genesis) =
     Ok (999999999999, DOLLARS - 1000000, DOLLARS - 1000000, 999999999999, 0)"
  by (simp add: single_account_existential_def add_share_def remove_share_def pool_eval Let_def at_block_def
      pool_data_def mock_handler_eval DOLLARS_def mock_update_balance_def mock_transfer_def mock_genesis_eq
      pool_genesis_def)

text \<open>
  The other tests of the pallet: a pool without shares earns nothing, and claims in
  between give the amounts, the pools and the borrowed amounts that the test compares
  with.
\<close>

theorem no_shares_as_tested:
  "snd (no_shares mock_genesis) = Ok [(0, 0, 0, 0, 0), (0, 0, 0, 0, 0)]"
  by (simp add: no_shares_def test_eval mock_genesis_eq pool_genesis_def)

theorem claiming_as_tested:
  "case claiming mock_genesis of (s, r) \<Rightarrow>
     map (fst (funds s)) [ALICE, BOB, POOL_ACCOUNT] =
       [DOLLARS + 175 * DOLLARS, DOLLARS + 625 * DOLLARS div 10, 625 * DOLLARS div 10] \<and>
     r = Ok [(400 * DOLLARS, 600 * DOLLARS, 50 * DOLLARS, 100 * DOLLARS, 150 * DOLLARS),
       (400 * DOLLARS, 700 * DOLLARS, 125 * DOLLARS, 100 * DOLLARS, 175 * DOLLARS),
       (400 * DOLLARS, 700 * DOLLARS, 625 * DOLLARS div 10, 150 * DOLLARS, 200 * DOLLARS + 625 * DOLLARS div 10)]"
  by (simp add: claiming_def and_then_def multi_enter_eq claim_after_enter_def test_eval)

text \<open>
  The last removal of the second test pays everything that is left, as the test
  says: ten units in all, and the pool is empty.
\<close>

theorem existential_last_removal_as_tested:
  "case existential_last_removal mock_genesis of (s, r) \<Rightarrow>
     map (fst (funds s)) [ALICE, POOL_ACCOUNT] = [DOLLARS + 10 * DOLLARS, 0] \<and> r = Ok (0, 0, 0, 0, 0)"
  by (simp add: existential_last_removal_def single_account_existential_def test_eval mock_genesis_eq pool_genesis_def)

text \<open>
  The test of three accounts that enter and leave at different times agrees with the
  code up to rounding: 150, 175 and 75 units. But it expects the rounding to be one,
  and at the present size of the unit, which is the precision of the fixed-point
  numbers, it is two hundred.
\<close>

theorem multi_account_test_outdated:
  "case multi_account mock_genesis of (s, r) \<Rightarrow>
     map (fst (funds s)) [ALICE, BOB, DAVE, POOL_ACCOUNT] =
       [DOLLARS + 150 * DOLLARS, DOLLARS + 175 * DOLLARS + 200, 75 * DOLLARS - 200, 0] \<and>
     r = Ok [(0, 0, 0, 0, 0), (0, 0, 0, 0, 0), (0, 0, 0, 0, 0)]"
  by (simp add: multi_account_def and_then_def multi_enter_eq multi_leave_def test_eval)

end
