(* ===== verification/Test_Runtimes.thy ===== *)
theory Test_Runtimes
  imports Claims_Mock Pool_Mock Evm_Interop
begin

text \<open>
  Two more runtimes the repository tests on: that of the interop pallet,
  \<^verbatim>\<open>modules/evm-interop/src/mock.rs\<close> with its fixed address mapping, and the genesis
  builder of \<^verbatim>\<open>runtime/src/mock.rs\<close>. The balances pallet is the one of
  \<open>claims_test_library\<close>, a parameter; \<open>transfer_succeeds\<close> is the law the test of the
  interop pallet needs of it.
\<close>

section \<open>The runtime of the interop pallet\<close>

definition mock_address :: "string \<Rightarrow> evm_address" where
  "mock_address s = Bytes (hex_literal s)"

definition mock_into_account_id :: "evm_address \<Rightarrow> u64" where
  "mock_into_account_id address =
     (if address = mock_address ''2200000000000000000000000000000000000000'' then 8
      else if address = mock_address ''2200000000000000000000000000000000000001'' then 9
      else if address = mock_address ''2200000000000000000000000000000000000002'' then 10
      else if address = mock_address ''2200000000000000000000000000000000000003'' then 11
      else 128)"

definition mock_to_evm_address :: "u64 \<Rightarrow> evm_address option" where
  "mock_to_evm_address account = None"

definition interop_test :: "'l claims_test_library \<Rightarrow> (u64 raw_origin, 'l, u64) interop_config" where
  "interop_test L =
     \<lparr>io_origins = raw_origins, io_into_account_id = (\<lambda>_. mock_into_account_id),
      io_transfer = transfer (tl_balances L)\<rparr>"

definition interop_test_ext :: "'l claims_test_library \<Rightarrow> 'l" where
  "interop_test_ext L = tl_genesis L [(4, 100000000), (5, 100000000)]"

section \<open>The genesis builder of the chain's own tests\<close>

record runtime_test_genesis =
  rt_balances :: "(account_id \<times> balance) list"
  rt_tokens :: "(account_id \<times> currency_id \<times> balance) list"
  rt_members :: "account_id list"

text \<open>The builder starts empty, takes a list, and gives every account with CLV the same 500.\<close>

definition ext_builder_default :: "(account_id \<times> currency_id \<times> balance) list" where
  "ext_builder_default = []"

definition ext_builder_balances ::
  "(account_id \<times> currency_id \<times> balance) list \<Rightarrow> (account_id \<times> currency_id \<times> balance) list \<Rightarrow>
   (account_id \<times> currency_id \<times> balance) list" where
  "ext_builder_balances self endowed_accounts = endowed_accounts"

definition ext_builder_build :: "(account_id \<times> currency_id \<times> balance) list \<Rightarrow> runtime_test_genesis" where
  "ext_builder_build endowed =
     \<lparr>rt_balances = map (\<lambda>(account_id, currency, initial_balance). (account_id, 500))
        (filter (\<lambda>(_, currency, _). currency = CLV) endowed),
      rt_tokens = filter (\<lambda>(_, currency, _). currency \<noteq> CLV) endowed,
      rt_members = [ALICE, BOB, DAVE]\<rparr>"

section \<open>Laws\<close>

text \<open>
  Documented behaviour of a transfer that may remove the sender: it succeeds when the
  sender has the amount and the receiver ends with a balance that fits and is not
  below the minimum.
\<close>

definition transfer_succeeds :: "('l \<Rightarrow> bool) \<Rightarrow> ('acc, 'l) currency \<Rightarrow> bool" where
  "transfer_succeeds plain C \<longleftrightarrow>
     (\<forall>l src dst v. plain l \<longrightarrow> v \<le> free_balance C l src \<longrightarrow>
        unat (free_balance C l dst) + unat v < 2 ^ 128 \<longrightarrow>
        unat (minimum_balance C) \<le> unat (free_balance C l dst) + unat v \<longrightarrow>
        snd (transfer C src dst v AllowDeath l) = Ok ())"

lemma mock_addresses_differ:
  "mock_address ''2200000000000000000000000000000000000001'' \<noteq>
     mock_address ''2200000000000000000000000000000000000000''"
  by (simp add: mock_address_def Bytes_inject hex_digit_def)

section \<open>Properties\<close>

text \<open>
  The test of the interop pallet passes, for every balances pallet with the laws: the
  transfer of 1000 to the second address of the mock succeeds, account 9 has 1000
  afterwards, and the sender has that much less.
\<close>

theorem transfer_to_evm_should_works:
  assumes "test_library_laws plain L" and "transfer_succeeds plain (tl_balances L)"
    and "transfer_moves (tl_balances L)"
    and "to = mock_address ''2200000000000000000000000000000000000001''"
    and "transfer_to_evm (interop_test L) (SignedBy 4) to 1000 (interop_test_ext L) = (l, r)"
  shows "r = Ok () \<and> free_balance (tl_balances L) l 9 = 1000 \<and>
    free_balance (tl_balances L) l 4 = 99999000"
proof -
  let ?C = "tl_balances L" and ?l = "interop_test_ext L"
  have plain: "plain ?l" using test_plain(1) [OF assms(1)] by (simp add: interop_test_ext_def)
  have gen: "free_balance ?C ?l a = (if a = 4 \<or> a = 5 then 100000000 else 0)" for a
    using assms(1) by (auto simp: test_library_laws_def interop_test_ext_def)
  have min: "minimum_balance ?C = 1"
    using assms(1) by (simp add: test_library_laws_def test_ExistentialDeposit_def)
  have to: "mock_into_account_id to = 9"
    by (simp add: assms(4) mock_into_account_id_def mock_addresses_differ)
  have "snd (transfer ?C 4 9 1000 AllowDeath ?l) = Ok ()"
    using assms(2) plain gen min unfolding transfer_succeeds_def by simp
  then obtain l' where x: "transfer ?C 4 9 1000 AllowDeath ?l = (l', Ok ())"
    by (metis prod.collapse)
  with assms(5) to have l: "l = l'" "r = Ok ()"
    by (simp_all add: transfer_to_evm_def interop_test_def comp_eval)
  from assms(3) x have "unat (free_balance ?C ?l 4) = unat (free_balance ?C l' 4) + unat (1000 :: balance)"
    "unat (free_balance ?C l' 9) = unat (free_balance ?C ?l 9) + unat (1000 :: balance)"
    unfolding transfer_moves_def by (force, force)
  then show ?thesis by (simp add: l gen unat_eq_iff)
qed

theorem transfer_to_evm_should_works_witness:
  "\<exists>l. transfer_to_evm (interop_test claims_demo_library) (SignedBy 4)
      (mock_address ''2200000000000000000000000000000000000001'') 1000 (interop_test_ext claims_demo_library) = (l, Ok ()) \<and>
    free_balance test_book l 9 = 1000"
proof -
  have book: "tl_balances claims_demo_library = test_book" by (simp add: claims_demo_library_def)
  have "transfer test_book = book_transfer" by (simp add: test_book_def)
  then have "transfer_moves test_book"
    by (auto simp: transfer_moves_def book_transfer_Ok word_nat)
  moreover have "transfer_succeeds (\<lambda>_. True) test_book"
    using \<open>transfer test_book = book_transfer\<close>
    by (auto simp: transfer_succeeds_def book_transfer_def checked_sub_def checked_add_def)
  moreover obtain l r where run: "transfer_to_evm (interop_test claims_demo_library) (SignedBy 4)
      (mock_address ''2200000000000000000000000000000000000001'') 1000 (interop_test_ext claims_demo_library) = (l, r)"
    by fastforce
  ultimately show ?thesis
    using transfer_to_evm_should_works [OF test_library_laws_hold _ _ refl run] by (simp add: book run)
qed

text \<open>
  The builder of the chain's tests: an account endowed with CLV starts with 500 units
  whatever the amount given, and every other currency keeps its amount; the two
  accounts of the test \<open>test_balance\<close> get what it reads back.
\<close>

theorem ext_builder_endows:
  assumes "g = ext_builder_build (ext_builder_balances ext_builder_default endowed)"
  shows "(a, v) \<in> set (rt_balances g) \<longleftrightarrow> v = 500 \<and> (\<exists>w. (a, CLV, w) \<in> set endowed)"
    and "(a, c, w) \<in> set (rt_tokens g) \<longleftrightarrow> c \<noteq> CLV \<and> (a, c, w) \<in> set endowed"
  by (force simp: assms ext_builder_build_def ext_builder_balances_def)+

theorem ext_builder_endows_witness:
  "(ALICE, 500) \<in> set (rt_balances (ext_builder_build (ext_builder_balances ext_builder_default
      [(ALICE, CLV, 1000), (BOB, CUSDT, 1000)]))) \<and>
   (BOB, CUSDT, 1000) \<in> set (rt_tokens (ext_builder_build (ext_builder_balances ext_builder_default
      [(ALICE, CLV, 1000), (BOB, CUSDT, 1000)])))"
  using ext_builder_endows(1) [OF refl, of ALICE 500 "[(ALICE, CLV, 1000), (BOB, CUSDT, 1000)]"]
    ext_builder_endows(2) [OF refl, of BOB CUSDT 1000 "[(ALICE, CLV, 1000), (BOB, CUSDT, 1000)]"]
  by simp

end
