(* ===== verification/Keytool.thy ===== *)
theory Keytool
  imports Evm_Accounts
begin

text \<open>
  \<^verbatim>\<open>bin/keytool/src/main.rs\<close>: derives a Clover address and an EVM key pair from one
  seed phrase and prints them.

  Parameters: the crates the tool calls (mnemonics, key derivation, the curve,
  Keccak, SS58) as the fields of \<open>keytool_library\<close>, each \<open>unwrap\<close> a possible panic.
  The property ties the tool to the EVM-accounts pallet: the address it prints is
  the one the pallet recovers from a signature made with the key it prints.
\<close>

section \<open>The tool\<close>

record ('m, 'xk, 'sk, 'pk, 'acc) keytool_library =
  mnemonic_from_phrase :: "string \<Rightarrow> 'm option"
  mnemonic_new_words12 :: 'm
  mnemonic_phrase :: "'m \<Rightarrow> string"
  seed_bytes :: "'m \<Rightarrow> string \<Rightarrow> u8 list"
  derive_key :: "u8 list \<Rightarrow> string \<Rightarrow> 'xk option"
  extended_secret :: "'xk \<Rightarrow> u8 list"
  secret_from_slice :: "u8 list \<Rightarrow> 'sk option"
  kt_public_key :: "'sk \<Rightarrow> 'pk"
  serialize_uncompressed :: "'pk \<Rightarrow> 65 bytes"
  keccak_digest :: "u8 list \<Rightarrow> 32 bytes"
  account_from_phrase :: "string \<Rightarrow> 'acc option"
  to_ss58check :: "'acc \<Rightarrow> string"
  hex_lower :: "u8 list \<Rightarrow> string"
  secret_hex :: "'sk \<Rightarrow> string"

text \<open>What \<open>generate\<close> prints, line by line.\<close>

record printed_keys =
  seed_phrase :: string
  clover_address :: string
  evm_address_line :: string
  evm_private_key_line :: string

definition generate_clover_address ::
  "('m, 'xk, 'sk, 'pk, 'acc) keytool_library \<Rightarrow> string \<Rightarrow> string may_panic" where
  "generate_clover_address T seed =
     (case account_from_phrase T seed of None \<Rightarrow> Panics | Some account \<Rightarrow> Returns (to_ss58check T account))"

text \<open>\<open>serialized[1..65]\<close> into 64 bytes, the digest, and its last 20 bytes.\<close>

definition keytool_address :: "('m, 'xk, 'sk, 'pk, 'acc) keytool_library \<Rightarrow> 'sk \<Rightarrow> h160" where
  "keytool_address T sk =
     (let serialized = bytes_list (serialize_uncompressed T (kt_public_key T sk));
          pubkey = Bytes (take 64 (drop 1 serialized)) :: 64 bytes
      in hash_tail (keccak_digest T (bytes_list pubkey)))"

definition generate ::
  "('m, 'xk, 'sk, 'pk, 'acc) keytool_library \<Rightarrow> string option \<Rightarrow> printed_keys may_panic" where
  "generate T words =
     (case (case words of Some w \<Rightarrow> mnemonic_from_phrase T w | None \<Rightarrow> Some (mnemonic_new_words12 T)) of
        None \<Rightarrow> Panics
      | Some seeds \<Rightarrow>
          (case derive_key T (seed_bytes T seeds '''') (''m/44'' @ [CHR 39] @ ''/60'' @ [CHR 39] @ ''/0'' @ [CHR 39] @ ''/0/0'') of
             None \<Rightarrow> Panics
           | Some ext \<Rightarrow>
               (case secret_from_slice T (extended_secret T ext) of
                  None \<Rightarrow> Panics
                | Some evm_private_key \<Rightarrow>
                    (let account = keytool_address T evm_private_key
                     in case generate_clover_address T (mnemonic_phrase T seeds) of
                          Panics \<Rightarrow> Panics
                        | Returns clover \<Rightarrow>
                            Returns \<lparr>seed_phrase = mnemonic_phrase T seeds,
                                     clover_address = clover,
                                     evm_address_line = ''0x'' @ hex_lower T (bytes_list account),
                                     evm_private_key_line = ''0x'' @ secret_hex T evm_private_key\<rparr>))))"

section \<open>Specification\<close>

text \<open>
  Documented behaviour of the two curve libraries: the tool's and the pallet's give
  the same uncompressed public key, and the two Keccak implementations agree.
\<close>

definition same_curve ::
  "('m, 'xk, 'sk, 'pk, 'acc) keytool_library \<Rightarrow> ('sk, 'pk2) secp_library \<Rightarrow> host_crypto \<Rightarrow> bool" where
  "same_curve T S K \<longleftrightarrow>
     (\<forall>sk. serialize_uncompressed T (kt_public_key T sk) = serialize_public S (public_from_secret_key S sk)) \<and>
     (\<forall>xs. keccak_digest T xs = keccak_256 K xs)"

definition demo_keytool :: "(string, u8 list, unit, unit, string) keytool_library" where
  "demo_keytool =
     \<lparr>mnemonic_from_phrase = (\<lambda>w. if w = '''' then None else Some w), mnemonic_new_words12 = ''fresh'',
      mnemonic_phrase = (\<lambda>w. w), seed_bytes = (\<lambda>m p. ascii m), derive_key = (\<lambda>s p. Some s),
      extended_secret = (\<lambda>x. x), secret_from_slice = (\<lambda>x. Some ()), kt_public_key = (\<lambda>_. ()),
      serialize_uncompressed = (\<lambda>_. zero_array), keccak_digest = keccak_256 null_crypto,
      account_from_phrase = (\<lambda>p. Some p), to_ss58check = (\<lambda>a. a),
      hex_lower = (\<lambda>xs. map (\<lambda>c. char_of (unat c)) (to_ascii_hex xs)), secret_hex = (\<lambda>_. ''00'')\<rparr>"

section \<open>Laws\<close>

lemma keytool_address_eq: "same_curve T S K \<Longrightarrow> keytool_address T sk = eth_address S K sk"
  by (simp add: keytool_address_def eth_address_def eth_public_def same_curve_def Let_def)

lemma generate_Returns:
  assumes "generate T words = Returns p"
  obtains seeds ext sk where
    "words = None \<or> mnemonic_from_phrase T (the words) = Some seeds"
    "seed_phrase p = mnemonic_phrase T seeds"
    "secret_from_slice T (extended_secret T ext) = Some sk"
    "evm_address_line p = ''0x'' @ hex_lower T (bytes_list (keytool_address T sk))"
    "evm_private_key_line p = ''0x'' @ secret_hex T sk"
  using assms
  by (auto simp: generate_def Let_def split: option.splits may_panic.splits)

section \<open>Properties\<close>

text \<open>
  C34. The keys the tool prints belong together for the chain: whenever it prints,
  the EVM address is the hex form of an address that the EVM-accounts pallet
  recovers from every signature made with the printed private key, so that the
  printed pair can claim an account.
\<close>

theorem keytool_key_claims_address:
  assumes "generate T words = Returns p" and "same_curve T S K" and "signatures_recover S K"
  shows "\<exists>sk. evm_private_key_line p = ''0x'' @ secret_hex T sk \<and>
    evm_address_line p = ''0x'' @ hex_lower T (bytes_list (eth_address S K sk)) \<and>
    (\<forall>what extra. evm_eth_recover K (eth_sign S K sk what extra) (evm_to_ascii_hex what) extra =
       Some (eth_address S K sk))"
proof -
  obtain sk where "evm_private_key_line p = ''0x'' @ secret_hex T sk"
    "evm_address_line p = ''0x'' @ hex_lower T (bytes_list (keytool_address T sk))"
    using assms(1) by (elim generate_Returns)
  then show ?thesis
    using keytool_address_eq [OF assms(2)] sign_recover_roundtrip [OF assms(3)] by auto
qed

theorem keytool_key_claims_address_witness:
  "\<exists>p. generate demo_keytool (Some ''abandon'') = Returns p \<and> clover_address p = ''abandon'' \<and>
     (\<exists>sk. evm_private_key_line p = ''0x00'' \<and>
       evm_eth_recover null_crypto (eth_sign demo_secp null_crypto sk [7] []) (evm_to_ascii_hex [7]) [] =
         Some (eth_address demo_secp null_crypto sk))"
proof -
  obtain p where p: "generate demo_keytool (Some ''abandon'') = Returns p" "clover_address p = ''abandon''"
    "evm_private_key_line p = ''0x00''"
    by (simp add: generate_def generate_clover_address_def demo_keytool_def Let_def)
  have "same_curve demo_keytool demo_secp null_crypto"
    by (simp add: same_curve_def demo_keytool_def demo_secp_def)
  from keytool_key_claims_address [OF p(1) this demo_signatures_recover] p
  show ?thesis by blast
qed

end
