(* ===== verification/Runtime.thy ===== *)
theory Runtime
  imports Runtime_Config Frame
begin

text \<open>
  The code of the runtime beside its configuration: \<^verbatim>\<open>runtime/src/impls.rs\<close> (fees to
  the author, the weight-to-fee polynomial, the fee multiplier) and the functions of
  \<^verbatim>\<open>runtime/src/lib.rs\<close>: the conversions of balances to votes, the split of fees, the
  author of an Ethereum block, the conversion of Ethereum transactions, the
  construction of signed transactions, and the Ethereum part of the runtime API.

  Parameters: the splitting of imbalances (\<open>ration\<close>), the extrinsic codec, the era
  and payload constructors, the EVM runner.
\<close>

section \<open>Fees\<close>

text \<open>
  \<open>DealWithFees\<close>: what reaches the treasury and the author. Only the first two
  imbalances of the iterator are taken. \<open>ration\<close> splits an amount by two weights.
\<close>

definition deal_with_fees ::
  "(balance \<Rightarrow> u32 \<Rightarrow> u32 \<Rightarrow> balance \<times> balance) \<Rightarrow> balance list \<Rightarrow> (balance \<times> balance) option" where
  "deal_with_fees ration fees_then_tips =
     (case fees_then_tips of
        [] \<Rightarrow> None
      | fees # rest \<Rightarrow>
          (let split = ration fees 80 20
           in Some (case rest of
                [] \<Rightarrow> split
              | tips # _ \<Rightarrow>
                  (let part = ration tips 80 20
                   in (saturating_add (fst split) (fst part), saturating_add (snd split) (snd part))))))"

text \<open>\<open>Author::on_nonzero_unbalanced\<close>: the imbalance is credited to the author of the block.\<close>

definition author_on_unbalanced :: "('acc, 'l) currency \<Rightarrow> 'acc \<Rightarrow> balance \<Rightarrow> 'l \<Rightarrow> 'l" where
  "author_on_unbalanced C author amount l = (if amount = 0 then l else deposit_creating C author amount l)"

definition settle_fees ::
  "('acc, 'l) currency \<Rightarrow> 'acc \<Rightarrow> (balance \<Rightarrow> 'l \<Rightarrow> 'l) \<Rightarrow>
   (balance \<Rightarrow> u32 \<Rightarrow> u32 \<Rightarrow> balance \<times> balance) \<Rightarrow> balance list \<Rightarrow> 'l \<Rightarrow> 'l" where
  "settle_fees C author treasury ration fees_then_tips l =
     (case deal_with_fees ration fees_then_tips of
        None \<Rightarrow> l
      | Some (to_treasury, to_author) \<Rightarrow>
          author_on_unbalanced C author to_author (treasury to_treasury l))"

record weight_to_fee_coefficient =
  coeff_integer :: balance
  coeff_frac :: nat
  negative :: bool
  degree :: u8

definition weight_to_fee_polynomial :: "weight_to_fee_coefficient list" where
  "weight_to_fee_polynomial = [\<lparr>coeff_integer = 10000, coeff_frac = 0, negative = False, degree = 1\<rparr>]"

text \<open>\<open>StaticFeeMultiplierUpdate\<close>, with \<open>one\<close> for \<open>Multiplier::saturating_from_integer(1)\<close>.\<close>

record 'm multiplier_update =
  mu_min :: 'm
  mu_target :: ratio
  mu_variability :: 'm
  mu_convert :: "'m \<Rightarrow> 'm"

definition static_fee_multiplier_update :: "'m \<Rightarrow> ratio \<Rightarrow> 'm \<Rightarrow> 'm \<Rightarrow> 'm multiplier_update" where
  "static_fee_multiplier_update one S V M =
     \<lparr>mu_min = M, mu_target = S, mu_variability = V, mu_convert = (\<lambda>_. one)\<rparr>"

section \<open>Balances and votes\<close>

definition vote_u64_u64 :: "u64 \<Rightarrow> u64" where
  "vote_u64_u64 x = x"

definition vote_u128_u128 :: "u128 \<Rightarrow> u128" where
  "vote_u128_u128 x = x"

definition vote_u128_u64 :: "u128 \<Rightarrow> u64" where
  "vote_u128_u64 x = saturated_into x"

definition vote_u64_u128 :: "u64 \<Rightarrow> u128" where
  "vote_u64_u128 x = ucast x"

text \<open>\<open>CurrencyToVoteHandler2\<close>, whose factor depends on the total issuance.\<close>

definition vote_factor :: "balance \<Rightarrow> u128" where
  "vote_factor issuance = max (issuance div ucast (- 1 :: u64)) 1"

definition vote2_u128_u64 :: "balance \<Rightarrow> u128 \<Rightarrow> u64" where
  "vote2_u128_u64 issuance x = ucast (x div vote_factor issuance)"

text \<open>The product is not checked.\<close>

definition vote2_u128_u128 :: "balance \<Rightarrow> u128 \<Rightarrow> u128" where
  "vote2_u128_u128 issuance x = x * vote_factor issuance"

section \<open>Ethereum blocks and transactions\<close>

text \<open>
  \<open>EthereumFindAuthor\<close>: bytes 4 to 24 of the key of the authority the digests name;
  indexing the authorities and slicing the key panic out of range.
\<close>

definition find_author ::
  "('d \<Rightarrow> u32 option) \<Rightarrow> u8 list list \<Rightarrow> 'd \<Rightarrow> h160 option may_panic" where
  "find_author F authorities digests =
     (case F digests of
        None \<Rightarrow> Returns None
      | Some author_index \<Rightarrow>
          if unat author_index < length authorities
          then (let key = authorities ! unat author_index
                in if 24 \<le> length key
                   then Returns (Some (Bytes (take 20 (drop 4 key)))) else Panics)
          else Panics)"

datatype ('sig, 'call) unchecked_extrinsic = UncheckedExtrinsic "'sig option" 'call

definition new_unsigned :: "'call \<Rightarrow> ('sig, 'call) unchecked_extrinsic" where
  "new_unsigned call = UncheckedExtrinsic None call"

definition convert_transaction :: "('tx \<Rightarrow> 'call) \<Rightarrow> 'tx \<Rightarrow> ('sig, 'call) unchecked_extrinsic" where
  "convert_transaction transact tx = new_unsigned (transact tx)"

definition convert_transaction_opaque ::
  "('tx \<Rightarrow> 'call) \<Rightarrow> (('sig, 'call) unchecked_extrinsic \<Rightarrow> u8 list) \<Rightarrow> (u8 list \<Rightarrow> 'op option) \<Rightarrow>
   'tx \<Rightarrow> 'op may_panic" where
  "convert_transaction_opaque transact enc opaque_decode tx =
     (let extrinsic = new_unsigned (transact tx);
          encoded = enc extrinsic
      in case opaque_decode encoded of Some x \<Rightarrow> Returns x | None \<Rightarrow> Panics)"

section \<open>Signed transactions\<close>

text \<open>\<open>u32::checked_next_power_of_two\<close>: the least power of two not below the number.\<close>

fun least_power_from :: "nat \<Rightarrow> nat \<Rightarrow> nat \<Rightarrow> nat" where
  "least_power_from 0 p n = p"
| "least_power_from (Suc k) p n = (if n \<le> p then p else least_power_from k (2 * p) n)"

definition checked_next_power_of_two :: "u32 \<Rightarrow> u32 option" where
  "checked_next_power_of_two n =
     (if unat n \<le> 2 ^ 31 then Some (of_nat (least_power_from 31 1 (unat n))) else None)"

definition transaction_period :: "block_number \<Rightarrow> u64" where
  "transaction_period block_hash_count =
     ucast (case map_option (\<lambda>c. c div 2) (checked_next_power_of_two block_hash_count) of
              Some p \<Rightarrow> p | None \<Rightarrow> 2)"

definition transaction_block :: "block_number \<Rightarrow> u64" where
  "transaction_block block_number = saturating_sub (saturated_into block_number) 1"

record 'era signed_extra =
  se_era :: 'era
  se_nonce :: tx_index
  se_tip :: balance

record ('call, 'era, 'pub, 'acc, 'addr, 'sig, 'p) signing =
  era_mortal :: "u64 \<Rightarrow> u64 \<Rightarrow> 'era"
  new_payload :: "'call \<Rightarrow> 'era signed_extra \<Rightarrow> 'p option"
  sign_payload :: "'p \<Rightarrow> 'pub \<Rightarrow> 'sig option"
  payload_parts :: "'p \<Rightarrow> 'call \<times> 'era signed_extra"
  unlookup :: "'acc \<Rightarrow> 'addr"

definition create_transaction ::
  "('call, 'era, 'pub, 'acc, 'addr, 'sig, 'p) signing \<Rightarrow> block_number \<Rightarrow> 'call \<Rightarrow> 'pub \<Rightarrow> 'acc \<Rightarrow>
   tx_index \<Rightarrow> ('call \<times> 'addr \<times> 'sig \<times> 'era signed_extra) option" where
  "create_transaction G block_number call public account nonce =
     (let period = transaction_period (BlockHashCount system_params);
          current_block = transaction_block block_number;
          extra = \<lparr>se_era = era_mortal G period current_block, se_nonce = nonce, se_tip = 0\<rparr>
      in case new_payload G call extra of
           None \<Rightarrow> None
         | Some raw_payload \<Rightarrow>
             (case sign_payload G raw_payload public of
                None \<Rightarrow> None
              | Some signature \<Rightarrow>
                  (let address = unlookup G account;
                       (call', extra') = payload_parts G raw_payload
                   in Some (call', address, signature, extra'))))"

section \<open>The Ethereum runtime API\<close>

definition estimate_config :: "evm_config \<Rightarrow> bool \<Rightarrow> evm_config" where
  "estimate_config base est =
     (case (if est then Some (base\<lparr>estimate := True\<rparr>) else None) of
        Some config \<Rightarrow> config
      | None \<Rightarrow> base)"

text \<open>\<open>U256::low_u64\<close>.\<close>

definition low_u64 :: "u256 \<Rightarrow> u64" where
  "low_u64 x = ucast x"

definition evm_call ::
  "(h160 \<Rightarrow> h160 \<Rightarrow> u8 list \<Rightarrow> u256 \<Rightarrow> u64 \<Rightarrow> u256 option \<Rightarrow> u256 option \<Rightarrow> evm_config \<Rightarrow>
     ('info, 'err) result) \<Rightarrow> ('err \<Rightarrow> dispatch_error) \<Rightarrow> evm_config \<Rightarrow>
   h160 \<Rightarrow> h160 \<Rightarrow> u8 list \<Rightarrow> u256 \<Rightarrow> u256 \<Rightarrow> u256 option \<Rightarrow> u256 option \<Rightarrow> bool \<Rightarrow>
   ('info, dispatch_error) result" where
  "evm_call runner into_error base from to data value gas_limit gas_price nonce est =
     (case runner from to data value (low_u64 gas_limit) gas_price nonce (estimate_config base est) of
        Ok info \<Rightarrow> Ok info
      | Err e \<Rightarrow> Err (into_error e))"

definition evm_create ::
  "(h160 \<Rightarrow> u8 list \<Rightarrow> u256 \<Rightarrow> u64 \<Rightarrow> u256 option \<Rightarrow> u256 option \<Rightarrow> evm_config \<Rightarrow>
     ('info, 'err) result) \<Rightarrow> ('err \<Rightarrow> dispatch_error) \<Rightarrow> evm_config \<Rightarrow>
   h160 \<Rightarrow> u8 list \<Rightarrow> u256 \<Rightarrow> u256 \<Rightarrow> u256 option \<Rightarrow> u256 option \<Rightarrow> bool \<Rightarrow>
   ('info, dispatch_error) result" where
  "evm_create runner into_error base from data value gas_limit gas_price nonce est =
     (case runner from data value (low_u64 gas_limit) gas_price nonce (estimate_config base est) of
        Ok info \<Rightarrow> Ok info
      | Err e \<Rightarrow> Err (into_error e))"

text \<open>\<open>U256::to_big_endian\<close>: most significant byte first.\<close>

definition to_big_endian :: "u256 \<Rightarrow> u8 list" where
  "to_big_endian x = map (\<lambda>i. ucast (drop_bit (8 * (31 - i)) x)) [0..<32]"

definition evm_storage_at :: "(h160 \<Rightarrow> hash \<Rightarrow> hash) \<Rightarrow> h160 \<Rightarrow> u256 \<Rightarrow> hash" where
  "evm_storage_at account_storages address index =
     (let tmp = to_big_endian index in account_storages address (Bytes tmp))"

definition evm_current_all :: "'b option \<Rightarrow> 'r list option \<Rightarrow> 's list option \<Rightarrow>
   'b option \<times> 'r list option \<times> 's list option" where
  "evm_current_all block receipts statuses = (block, receipts, statuses)"

section \<open>Specification functions\<close>

text \<open>Documented behaviour of \<open>ration\<close>: the two parts add up to the whole.\<close>

definition ration_splits :: "(balance \<Rightarrow> u32 \<Rightarrow> u32 \<Rightarrow> balance \<times> balance) \<Rightarrow> bool" where
  "ration_splits ration \<longleftrightarrow>
     (\<forall>v a b. unat (fst (ration v a b)) + unat (snd (ration v a b)) = unat v)"

text \<open>A split for witnesses: the first part rounded down.\<close>

definition demo_ration :: "balance \<Rightarrow> u32 \<Rightarrow> u32 \<Rightarrow> balance \<times> balance" where
  "demo_ration v a b =
     (let f = of_nat (unat v * unat a div (unat a + unat b)) in (f, v - f))"

text \<open>Reading a big-endian number.\<close>

definition from_big_endian :: "u8 list \<Rightarrow> nat" where
  "from_big_endian bs = foldl (\<lambda>n b. n * 256 + unat b) 0 bs"

section \<open>Laws\<close>

lemma demo_ration_splits: "ration_splits demo_ration"
proof -
  have "unat (of_nat (unat v * unat a div (unat a + unat b)) :: balance) +
      unat (v - of_nat (unat v * unat a div (unat a + unat b))) = unat v" for v :: balance and a b :: u32
  proof -
    let ?f = "unat v * unat a div (unat a + unat b)"
    have "unat v * unat a \<le> unat v * (unat a + unat b)" by simp
    then have "?f \<le> unat v * (unat a + unat b) div (unat a + unat b)" by (rule div_le_mono)
    then have le: "?f \<le> unat v" by (auto split: if_splits)
    then have f: "unat (of_nat ?f :: balance) = ?f"
      using u128_bound [of v] by (subst unsigned_of_nat) (simp add: take_bit_nat_eq_self)
    with le have "of_nat ?f \<le> v" by (simp add: word_le_nat_alt)
    with f le show ?thesis by (simp add: unat_sub_le)
  qed
  then show ?thesis by (simp add: ration_splits_def demo_ration_def Let_def)
qed

lemma unat_u64_max: "unat (ucast (- 1 :: u64) :: u128) = 2 ^ 64 - 1"
  by (subst unat_ucast_fits) simp_all

lemma u64_max_numeral: "(ucast (- 1 :: u64) :: u128) = 18446744073709551615"
  by (simp add: unat_eq_iff unat_u64_max)

lemma vote_factor_pos: "0 < unat (vote_factor issuance)"
  by (auto simp: vote_factor_def max_def word_le_nat_alt)

lemma least_power_from_numeral:
  "least_power_from (numeral k) p n =
     (if n \<le> p then p else least_power_from (pred_numeral k) (2 * p) n)"
  by (simp add: numeral_eq_Suc)

lemma least_power_from_props:
  assumes "n \<le> p * 2 ^ k"
  shows "\<exists>j \<le> k. least_power_from k p n = p * 2 ^ j \<and> n \<le> p * 2 ^ j \<and> (0 < j \<longrightarrow> p * 2 ^ j < 2 * n)"
  using assms
proof (induction k p n rule: least_power_from.induct)
  case (2 k p n)
  show ?case
  proof (cases "n \<le> p")
    case True
    then show ?thesis by (intro exI [of _ 0]) simp
  next
    case False
    with 2 obtain j where "j \<le> k" "least_power_from k (2 * p) n = 2 * p * 2 ^ j" "n \<le> 2 * p * 2 ^ j"
      "0 < j \<longrightarrow> 2 * p * 2 ^ j < 2 * n" by (auto simp: algebra_simps)
    with False show ?thesis
      by (intro exI [of _ "Suc j"]) (cases "j = 0", auto simp: algebra_simps)
  qed
qed simp

lemma from_big_endian_snoc [simp]: "from_big_endian (bs @ [b]) = from_big_endian bs * 256 + unat b"
  by (simp add: from_big_endian_def)

lemma length_to_big_endian [simp]: "length (to_big_endian x) = 32"
  by (simp add: to_big_endian_def)

lemma big_endian_prefix:
  "n \<le> 32 \<Longrightarrow> from_big_endian (map (\<lambda>i. ucast (drop_bit (8 * (31 - i)) x)) [0..<n]) =
     unat x div 2 ^ (8 * (32 - n))" for x :: u256
proof (induction n)
  case 0
  have "unat x < 2 ^ 256" using unsigned_less [of x, where 'a = nat] by simp
  then show ?case by (simp add: from_big_endian_def)
next
  case (Suc n)
  let ?q = "unat x div 2 ^ (8 * (31 - n))"
  have "unat (drop_bit k x) = unat x div 2 ^ k" for k
    unfolding unat_drop_bit_eq by (rule drop_bit_eq_div)
  then have d: "unat (ucast (drop_bit (8 * (31 - n)) x) :: u8) = ?q mod 256"
    by (simp only: unsigned_ucast_eq take_bit_eq_mod) simp
  have "8 * (32 - n) = 8 * (31 - n) + 8" using Suc.prems by simp
  then have "unat x div 2 ^ (8 * (32 - n)) = ?q div 256"
    by (simp only: power_add div_mult2_eq) simp
  with Suc d have "from_big_endian (map (\<lambda>i. ucast (drop_bit (8 * (31 - i)) x)) [0..<Suc n]) = ?q div 256 * 256 + ?q mod 256"
    by simp
  also have "\<dots> = ?q" by (rule div_mult_mod_eq)
  also have "31 - n = 32 - Suc n" using Suc.prems by simp
  finally show ?case .
qed

section \<open>Properties\<close>

text \<open>
  Fees are split without loss: what goes to the treasury and what goes to the
  author add up to the fee, or to fee and tip when there is a tip, for every
  splitting whose parts add up to the whole.
\<close>

theorem fees_conserved:
  assumes "ration_splits ration" and "unat fees + unat tips < 2 ^ 128"
  shows "(\<exists>t a. deal_with_fees ration [fees] = Some (t, a) \<and> unat t + unat a = unat fees) \<and>
    (\<exists>t a. deal_with_fees ration (fees # tips # rest) = Some (t, a) \<and>
       unat t + unat a = unat fees + unat tips)"
proof -
  have s: "unat (fst (ration v 80 20)) + unat (snd (ration v 80 20)) = unat v" for v
    using assms(1) by (simp add: ration_splits_def)
  from s [of fees] s [of tips] assms(2)
  have "unat (saturating_add (fst (ration fees 80 20)) (fst (ration tips 80 20))) +
      unat (saturating_add (snd (ration fees 80 20)) (snd (ration tips 80 20))) = unat fees + unat tips"
    by (simp add: word_nat)
  moreover obtain t a where "ration fees 80 20 = (t, a)" by (cases "ration fees 80 20")
  ultimately show ?thesis using s [of fees] by (simp add: deal_with_fees_def Let_def)
qed

theorem fees_conserved_witness:
  "\<exists>t a. deal_with_fees demo_ration [1001, 9] = Some (t, a) \<and> unat t + unat a = 1010"
  using fees_conserved [OF demo_ration_splits, of 1001 9 "[]"] by simp

text \<open>
  The saturating conversion of balances to votes caps at the largest vote and
  undoes the embedding of votes; the conversion by issuance is the quotient as long
  as the quotient fits a vote.
\<close>

theorem vote_conversions:
  assumes "unat x < 2 ^ 64 * unat (vote_factor issuance)"
  shows "unat (vote2_u128_u64 issuance x) = unat x div unat (vote_factor issuance) \<and>
    unat (vote_u128_u64 y) = min (unat y) (2 ^ 64 - 1) \<and> vote_u128_u64 (vote_u64_u128 v) = v"
proof -
  have "unat x div unat (vote_factor issuance) < 2 ^ 64"
    using assms vote_factor_pos [of issuance] by (simp add: div_less_iff_less_mult)
  then have "unat (vote2_u128_u64 issuance x) = unat x div unat (vote_factor issuance)"
    unfolding vote2_u128_u64_def by (subst unat_ucast_fits) (simp_all add: unat_div)
  moreover have "vote_u128_u64 (vote_u64_u128 v) = v"
  proof -
    have v: "unat v < 2 ^ 64" using unsigned_less [of v, where 'a = nat] by simp
    then have "unat (ucast v :: u128) = unat v" by (intro unat_ucast_fits) simp
    with v show ?thesis by (simp add: vote_u128_u64_def vote_u64_u128_def unat_eq_iff word_nat)
  qed
  ultimately show ?thesis by (simp add: vote_u128_u64_def word_nat)
qed

theorem vote_conversions_witness:
  "unat (vote2_u128_u64 1000 10) = 10"
proof -
  have f: "vote_factor 1000 = 1" by (simp add: vote_factor_def max_def u64_max_numeral)
  from vote_conversions [of 10 1000] show ?thesis by (simp add: f)
qed

text \<open>
  The conversion by issuance truncates: with an issuance of two to the
  sixty-four, the factor is one and the whole issuance counts as no vote at all.
\<close>

theorem whole_issuance_votes_zero:
  "vote_factor (2 ^ 64) = 1 \<and> vote2_u128_u64 (2 ^ 64) (2 ^ 64) = 0"
  by (simp add: vote_factor_def vote2_u128_u64_def max_def u64_max_numeral)

text \<open>
  The life time of a signed transaction is the largest power of two that the
  block hash count of the runtime covers; and for every block hash count from one
  to two to the thirty-one it is a power of two whose double is the next power.
\<close>

theorem transaction_period_correct:
  assumes "1 < unat n" and "unat n \<le> 2 ^ 31"
  shows "transaction_period (BlockHashCount system_params) = 2048 \<and>
    unat (transaction_period (BlockHashCount system_params)) \<le> unat (BlockHashCount system_params) \<and>
    unat (BlockHashCount system_params) < 2 * 2048 \<and>
    (\<exists>j. unat (transaction_period n) = 2 ^ j \<and> 2 ^ j < unat n \<and> unat n \<le> 2 * 2 ^ j)"
proof -
  have period: "transaction_period (BlockHashCount system_params) = 2048"
    by (simp add: transaction_period_def system_params_def checked_next_power_of_two_def least_power_from_numeral)
  from least_power_from_props [of "unat n" 1 31] assms obtain j where j: "j \<le> 31"
    "least_power_from 31 1 (unat n) = 2 ^ j" "unat n \<le> 2 ^ j" "0 < j \<longrightarrow> 2 ^ j < 2 * unat n" by auto
  from j(3) assms(1) obtain i where i: "j = Suc i" by (cases j) auto
  have "(2 :: nat) ^ j \<le> 2 ^ 31" using j(1) by (rule power_increasing) simp
  then have "unat (of_nat (2 ^ j) :: u32) = 2 ^ j"
    using j(1) by (subst unsigned_of_nat) (simp add: take_bit_nat_eq_self)
  then have h: "unat ((of_nat (2 ^ j) :: u32) div 2) = 2 ^ i" by (simp add: unat_div i)
  then have "unat (ucast ((of_nat (2 ^ j) :: u32) div 2) :: u64) = 2 ^ i"
    using unsigned_less [of "(of_nat (2 ^ j) :: u32) div 2", where 'a = nat]
    by (subst unat_ucast_fits) simp_all
  then have "unat (transaction_period n) = 2 ^ i"
    using assms(2) j(2) by (simp add: transaction_period_def checked_next_power_of_two_def)
  with j i period show ?thesis by (auto simp: system_params_def)
qed

theorem transaction_period_correct_witness:
  "\<exists>j. unat (transaction_period 2400) = 2 ^ j \<and> 2 ^ j < (2400 :: nat) \<and> 2400 \<le> 2 * (2 ^ j :: nat)"
  using transaction_period_correct [of 2400] by simp

text \<open>
  The gas limit of an Ethereum call or creation through the runtime API counts
  only modulo two to the sixty-four, and estimating changes nothing in the EVM
  configuration but the estimate flag.
\<close>

theorem gas_limit_truncated:
  "evm_call runner into base from to data v (g + 2 ^ 64) gp n est =
     evm_call runner into base from to data v g gp n est \<and>
   evm_create runner' into base from data v (g + 2 ^ 64) gp n est =
     evm_create runner' into base from data v g gp n est \<and>
   estimate_config base est = base\<lparr>estimate := est \<or> estimate base\<rparr>"
proof -
  have "unat (ucast x :: u64) = unat x mod 2 ^ 64" for x :: u256
    by (simp only: unsigned_ucast_eq take_bit_eq_mod) simp
  moreover have "unat (g + 2 ^ 64) mod 2 ^ 64 = unat g mod 2 ^ 64"
    by (simp add: unat_word_ariths mod_mod_cancel)
  ultimately have "low_u64 (g + 2 ^ 64) = low_u64 g" by (simp only: low_u64_def unat_eq_iff)
  moreover have "estimate_config base est = base\<lparr>estimate := est \<or> estimate base\<rparr>"
    by (simp add: estimate_config_def)
  ultimately show ?thesis by (simp add: evm_call_def evm_create_def)
qed

text \<open>
  The key under which contract storage is read is the big-endian encoding of
  the index: thirty-two bytes that read back as the index.
\<close>

theorem storage_index_roundtrip:
  "evm_storage_at st address index = st address (Bytes (to_big_endian index)) \<and>
   length (to_big_endian index) = 32 \<and> from_big_endian (to_big_endian index) = unat index"
  using big_endian_prefix [of 32 index]
  by (simp add: evm_storage_at_def to_big_endian_def [of index])

text \<open>
  The author of an Ethereum block is read without a panic exactly when the
  digests name an existing authority, or none; then it is the middle twenty bytes
  of the authority's key.
\<close>

theorem find_author_total:
  assumes "list_all (\<lambda>k. length k = 32) authorities"
  shows "(find_author F authorities d = Panics \<longleftrightarrow> (\<exists>i. F d = Some i \<and> length authorities \<le> unat i)) \<and>
    (F d = Some i \<longrightarrow> unat i < length authorities \<longrightarrow>
      find_author F authorities d = Returns (Some (Bytes (take 20 (drop 4 (authorities ! unat i))))))"
  using assms by (auto simp: find_author_def list_all_length not_less split: option.splits)

theorem find_author_total_witness:
  "find_author (\<lambda>_. Some 0) [replicate 32 7] () = Returns (Some (Bytes (replicate 20 7)))"
  using find_author_total [of "[replicate 32 7]" "\<lambda>_. Some 0" "()" 0] by simp

end
