(* ===== verification/Runtime_Api.thy ===== *)
theory Runtime_Api
  imports Runtime Evm_Accounts
begin

text \<open>
  The runtime API of \<^verbatim>\<open>runtime/src/lib.rs\<close> beyond the Ethereum calls and creations
  (theory \<open>Runtime\<close>): the configuration of BABE and the reporting of equivocations,
  for BABE and for GRANDPA, the constants the Ethereum RPC reads, and the account the
  EVM reads an address from.

  Parameters: the authorities, the randomness and the slot duration the BABE pallet
  keeps, the proofs of key ownership of the session pallet with their codec, and the
  submission of a report. The methods that only call one function of a framework
  pallet with their own arguments are entries of a table: which function each method of
  each implemented API runs, so that what the node's RPC extensions and the \<^verbatim>\<open>rpc\<close> crate
  need of the runtime can be compared with what it implements.
\<close>

section \<open>BABE\<close>

datatype allowed_slots = PrimarySlots | PrimaryAndSecondaryPlainSlots | PrimaryAndSecondaryVRFSlots

record 'auth babe_genesis_configuration =
  bg_slot_duration :: u64
  bg_epoch_length :: u64
  bg_c :: "u64 \<times> u64"
  bg_genesis_authorities :: "'auth list"
  bg_randomness :: hash
  bg_allowed_slots :: allowed_slots

definition babe_configuration :: "u64 \<Rightarrow> 'auth list \<Rightarrow> hash \<Rightarrow> 'auth babe_genesis_configuration" where
  "babe_configuration slot_duration authorities randomness =
     \<lparr>bg_slot_duration = slot_duration, bg_epoch_length = EpochDuration babe_params,
      bg_c = PRIMARY_PROBABILITY, bg_genesis_authorities = authorities, bg_randomness = randomness,
      bg_allowed_slots = PrimaryAndSecondaryPlainSlots\<rparr>"

section \<open>Equivocation reports\<close>

datatype opaque_key_ownership_proof = OpaqueKeyOwnershipProof "u8 list"

text \<open>\<open>key_type\<close> is the constant \<open>KEY_TYPE\<close> of the BABE primitives.\<close>

definition babe_generate_key_ownership_proof ::
  "'k \<Rightarrow> ('k \<times> 'auth \<Rightarrow> 'p option) \<Rightarrow> ('p \<Rightarrow> u8 list) \<Rightarrow> u64 \<Rightarrow> 'auth \<Rightarrow>
   opaque_key_ownership_proof option" where
  "babe_generate_key_ownership_proof key_type prove enc slot_number authority_id =
     map_option OpaqueKeyOwnershipProof (map_option enc (prove (key_type, authority_id)))"

definition babe_submit_report_equivocation ::
  "(u8 list \<Rightarrow> 'p option) \<Rightarrow> ('e \<Rightarrow> 'p \<Rightarrow> 's \<Rightarrow> 's \<times> unit option) \<Rightarrow>
   'e \<Rightarrow> opaque_key_ownership_proof \<Rightarrow> 's \<Rightarrow> 's \<times> unit option" where
  "babe_submit_report_equivocation dec submit equivocation_proof key_owner_proof s =
     (case key_owner_proof of OpaqueKeyOwnershipProof bs \<Rightarrow>
        (case dec bs of
           None \<Rightarrow> (s, None)
         | Some proof \<Rightarrow> submit equivocation_proof proof s))"

definition grandpa_submit_report_equivocation ::
  "'e \<Rightarrow> opaque_key_ownership_proof \<Rightarrow> 's \<Rightarrow> 's \<times> unit option" where
  "grandpa_submit_report_equivocation equivocation_proof key_owner_proof s = (s, None)"

definition grandpa_generate_key_ownership_proof :: "u64 \<Rightarrow> 'auth \<Rightarrow> opaque_key_ownership_proof option" where
  "grandpa_generate_key_ownership_proof set_id authority_id = None"

section \<open>Ethereum\<close>

definition eth_chain_id :: "chain_feature \<Rightarrow> u64" where
  "eth_chain_id feature = CHAIN_ID feature"

definition eth_gas_price :: u256 where
  "eth_gas_price = min_gas_price"

text \<open>The configuration of the EVM pallet, with the address mapping of the accounts pallet.\<close>

datatype precompile = ECRecover | Sha256 | Ripemd160 | Identity

record 'l evm_pallet_config =
  ev_gas_price :: u256
  ev_into_account_id :: "'l evm_accounts_state \<Rightarrow> evm_address \<Rightarrow> account_id"
  ev_precompiles :: "precompile list"
  ev_chain_id :: u64
  ev_block_gas_limit :: u256
  ev_config :: evm_config

definition runtime_evm :: "nat \<Rightarrow> chain_feature \<Rightarrow> 'l evm_pallet_config" where
  "runtime_evm usize_max feature =
     \<lparr>ev_gas_price = min_gas_price, ev_into_account_id = into_account_id,
      ev_precompiles = [ECRecover, Sha256, Ripemd160, Identity], ev_chain_id = CHAIN_ID feature,
      ev_block_gas_limit = BlockGasLimit, ev_config = clover_evm_config usize_max\<rparr>"

section \<open>The implemented APIs\<close>

text \<open>
  What the body of a method runs: the executive or the inherent data of the framework,
  the session keys, a function of a pallet, a parameter of a pallet's configuration, the
  metadata and the version of the runtime, or steps of its own, given by a definition.
\<close>

datatype api_body =
    Executive string
  | InherentData string
  | SessionKeysFn string
  | PalletFn string string
  | ConfigItem string string
  | RuntimeItem string
  | OwnBody

type_synonym api_methods = "(string \<times> api_body) list"

definition api_Core :: api_methods where
  "api_Core =
     [(''version'', RuntimeItem ''VERSION''),
      (''execute_block'', Executive ''execute_block''),
      (''initialize_block'', Executive ''initialize_block'')]"

definition api_Metadata :: api_methods where
  "api_Metadata = [(''metadata'', RuntimeItem ''metadata'')]"

definition api_BlockBuilder :: api_methods where
  "api_BlockBuilder =
     [(''apply_extrinsic'', Executive ''apply_extrinsic''),
      (''finalize_block'', Executive ''finalize_block''),
      (''inherent_extrinsics'', InherentData ''create_extrinsics''),
      (''check_inherents'', InherentData ''check_extrinsics''),
      (''random_seed'', PalletFn ''RandomnessCollectiveFlip'' ''random_seed'')]"

definition api_TaggedTransactionQueue :: api_methods where
  "api_TaggedTransactionQueue = [(''validate_transaction'', Executive ''validate_transaction'')]"

definition api_OffchainWorkerApi :: api_methods where
  "api_OffchainWorkerApi = [(''offchain_worker'', Executive ''offchain_worker'')]"

definition api_SessionKeys :: api_methods where
  "api_SessionKeys =
     [(''generate_session_keys'', SessionKeysFn ''generate''),
      (''decode_session_keys'', SessionKeysFn ''decode_into_raw_public_keys'')]"

definition api_BabeApi :: api_methods where
  "api_BabeApi =
     [(''configuration'', OwnBody),
      (''current_epoch_start'', PalletFn ''Babe'' ''current_epoch_start''),
      (''current_epoch'', PalletFn ''Babe'' ''current_epoch''),
      (''next_epoch'', PalletFn ''Babe'' ''next_epoch''),
      (''generate_key_ownership_proof'', OwnBody),
      (''submit_report_equivocation_unsigned_extrinsic'', OwnBody)]"

definition api_GrandpaApi :: api_methods where
  "api_GrandpaApi =
     [(''grandpa_authorities'', PalletFn ''Grandpa'' ''grandpa_authorities''),
      (''submit_report_equivocation_unsigned_extrinsic'', OwnBody),
      (''generate_key_ownership_proof'', OwnBody)]"

definition api_AuthorityDiscoveryApi :: api_methods where
  "api_AuthorityDiscoveryApi = [(''authorities'', PalletFn ''AuthorityDiscovery'' ''authorities'')]"

definition api_AccountNonceApi :: api_methods where
  "api_AccountNonceApi = [(''account_nonce'', PalletFn ''System'' ''account_nonce'')]"

definition api_ContractsApi :: api_methods where
  "api_ContractsApi =
     [(''call'', PalletFn ''Contracts'' ''bare_call''),
      (''get_storage'', PalletFn ''Contracts'' ''get_storage''),
      (''rent_projection'', PalletFn ''Contracts'' ''rent_projection'')]"

definition api_TransactionPaymentApi :: api_methods where
  "api_TransactionPaymentApi =
     [(''query_info'', PalletFn ''TransactionPayment'' ''query_info''),
      (''query_fee_details'', PalletFn ''TransactionPayment'' ''query_fee_details'')]"

definition api_EthereumRuntimeRPCApi :: api_methods where
  "api_EthereumRuntimeRPCApi =
     [(''chain_id'', ConfigItem ''EVM'' ''ChainId''),
      (''account_basic'', PalletFn ''EVM'' ''account_basic''),
      (''gas_price'', ConfigItem ''EVM'' ''FeeCalculator''),
      (''account_code_at'', PalletFn ''EVM'' ''account_codes''),
      (''author'', PalletFn ''Ethereum'' ''find_author''),
      (''storage_at'', OwnBody),
      (''call'', OwnBody),
      (''create'', OwnBody),
      (''current_transaction_statuses'', PalletFn ''Ethereum'' ''current_transaction_statuses''),
      (''current_block'', PalletFn ''Ethereum'' ''current_block''),
      (''current_receipts'', PalletFn ''Ethereum'' ''current_receipts''),
      (''current_all'', OwnBody)]"

definition impl_runtime_apis :: "(string \<times> api_methods) list" where
  "impl_runtime_apis =
     [(''Core'', api_Core),
      (''Metadata'', api_Metadata),
      (''BlockBuilder'', api_BlockBuilder),
      (''TaggedTransactionQueue'', api_TaggedTransactionQueue),
      (''OffchainWorkerApi'', api_OffchainWorkerApi),
      (''SessionKeys'', api_SessionKeys),
      (''BabeApi'', api_BabeApi),
      (''GrandpaApi'', api_GrandpaApi),
      (''AuthorityDiscoveryApi'', api_AuthorityDiscoveryApi),
      (''AccountNonceApi'', api_AccountNonceApi),
      (''ContractsApi'', api_ContractsApi),
      (''TransactionPaymentApi'', api_TransactionPaymentApi),
      (''EthereumRuntimeRPCApi'', api_EthereumRuntimeRPCApi)]"

text \<open>The bounds on the client of \<open>create_full\<close> in \<^verbatim>\<open>node/src/rpc.rs\<close>.\<close>

definition create_full_needs :: "string list" where
  "create_full_needs =
     [''AccountNonceApi'', ''ContractsApi'', ''TransactionPaymentApi'', ''EthereumRuntimeRPCApi'', ''BabeApi'',
      ''BlockBuilder'']"

text \<open>
  The APIs that \<^verbatim>\<open>rpc/runtime-api\<close> declares with their methods; the endpoints of the \<^verbatim>\<open>rpc\<close>
  crate (theory \<open>Rpc\<close>) call them.
\<close>

definition declared_runtime_apis :: "(string \<times> string list) list" where
  "declared_runtime_apis =
     [(''CurrencyBalanceApi'', [''account_balance'']),
      (''CurrencyPairApi'', [''currency_pair'']),
      (''CurrencyExchangeApi'',
        [''target_amount_available'', ''supply_amount_needed'', ''get_liquidity'', ''get_exchange_rate'',
         ''to_add_liquidity'', ''get_staking_info'']),
      (''IncentivePoolApi'', [''get_all_incentive_pools''])]"

fun body_pallets :: "api_body \<Rightarrow> string list" where
  "body_pallets (PalletFn p f) = [p]"
| "body_pallets (ConfigItem p item) = [p]"
| "body_pallets _ = []"

lemmas api_defs = impl_runtime_apis_def api_Core_def api_Metadata_def api_BlockBuilder_def
  api_TaggedTransactionQueue_def api_OffchainWorkerApi_def api_SessionKeys_def api_BabeApi_def
  api_GrandpaApi_def api_AuthorityDiscoveryApi_def api_AccountNonceApi_def api_ContractsApi_def
  api_TransactionPaymentApi_def api_EthereumRuntimeRPCApi_def

section \<open>Properties\<close>

text \<open>
  A BABE equivocation can be reported and a GRANDPA one cannot. For a codec that
  decodes what it encodes, a key-ownership proof the session pallet gives is handed out
  and, submitted again, reaches the BABE pallet unchanged with the report; bytes that
  do not decode submit nothing. For GRANDPA no proof is ever handed out, and every
  report is dropped.
\<close>

theorem equivocation_reports:
  assumes "\<And>p. dec (enc p) = Some p"
  shows "(case prove (key_type, authority) of
      Some p \<Rightarrow> (\<exists>proof. babe_generate_key_ownership_proof key_type prove enc slot authority = Some proof \<and>
        babe_submit_report_equivocation dec submit equivocation proof s = submit equivocation p s)
    | None \<Rightarrow> babe_generate_key_ownership_proof key_type prove enc slot authority = None) \<and>
    (dec bs = None \<longrightarrow>
      babe_submit_report_equivocation dec submit equivocation (OpaqueKeyOwnershipProof bs) s = (s, None)) \<and>
    grandpa_generate_key_ownership_proof set_id authority = None \<and>
    grandpa_submit_report_equivocation equivocation proof' s = (s, None)"
  using assms
  by (auto simp: babe_generate_key_ownership_proof_def babe_submit_report_equivocation_def
      grandpa_generate_key_ownership_proof_def grandpa_submit_report_equivocation_def split: option.splits)

theorem equivocation_reports_witness:
  "\<exists>proof. babe_generate_key_ownership_proof ''babe'' (\<lambda>(k, a :: nat). Some [of_nat a]) (\<lambda>p. p) 0 7 = Some proof \<and>
     babe_submit_report_equivocation Some (\<lambda>e p s. (s @ [(e, p)], Some ())) (1 :: nat) proof [] =
       ([(1, [7])], Some ())"
  using equivocation_reports [where dec = Some and enc = "\<lambda>p. p" and key_type = "''babe''"
      and prove = "\<lambda>(k, a :: nat). Some [of_nat a]" and authority = 7 and slot = 0 and s = "[]"
      and submit = "\<lambda>e p s. (s @ [(e, p)], Some ())" and equivocation = "1 :: nat"]
  by simp

text \<open>
  The BABE configuration agrees with the constants of the runtime: an epoch of its
  length, at the slot duration that is twice the minimum period of the timestamp
  pallet, takes as long as the blocks of an epoch.
\<close>

theorem babe_configuration_consistent:
  "unat (bg_epoch_length (babe_configuration (2 * MinimumPeriod) authorities randomness)) *
     unat (bg_slot_duration (babe_configuration (2 * MinimumPeriod) authorities randomness)) =
   unat EPOCH_DURATION_IN_BLOCKS * unat MILLISECS_PER_BLOCK"
  by (simp add: babe_configuration_def babe_params_def MinimumPeriod_def time_defs)

text \<open>
  The APIs fit together. Every pallet that a method of the runtime API calls is part of
  the runtime; no API is implemented twice and no API gives a method two bodies; every
  API that the RPC extensions of a full node require is implemented. None of the APIs
  that the \<^verbatim>\<open>rpc\<close> crate calls is: its endpoints cannot be installed over this runtime.
\<close>

theorem apis_fit_together:
  "list_all (\<lambda>(api, ms). distinct (map fst ms) \<and>
     list_all (\<lambda>(m, body). list_all (\<lambda>p. p \<in> set (map fst construct_runtime)) (body_pallets body)) ms)
     impl_runtime_apis \<and>
   distinct (map fst impl_runtime_apis) \<and>
   list_all (\<lambda>api. api \<in> set (map fst impl_runtime_apis)) create_full_needs \<and>
   list_all (\<lambda>(api, ms). api \<notin> set (map fst impl_runtime_apis)) declared_runtime_apis"
  by (simp add: api_defs construct_runtime_def create_full_needs_def declared_runtime_apis_def)

end
