(* ===== verification/Runtime_Weights.thy ===== *)
theory Runtime_Weights
  imports Runtime_Config
begin

text \<open>
  The parameters of \<^verbatim>\<open>runtime/src/lib.rs\<close> that are computed from weights: the limits
  of the scheduler, the offences pallet and the off-chain election, the depth of the
  contracts pallet's deletion queue; and the curve of the staking rewards.

  Parameters: the multiplication of a ratio and a weight, the database and benchmark
  weights, and the limits the block-weight builder derives.
\<close>

section \<open>Weight limits\<close>

definition OffencesWeightSoftLimit :: "(ratio \<Rightarrow> weight \<Rightarrow> weight) \<Rightarrow> weight \<Rightarrow> weight" where
  "OffencesWeightSoftLimit mul per_second = mul (from_percent 60) (MAXIMUM_BLOCK_WEIGHT per_second)"

definition MaximumSchedulerWeight :: "(ratio \<Rightarrow> weight \<Rightarrow> weight) \<Rightarrow> weight \<Rightarrow> weight" where
  "MaximumSchedulerWeight mul per_second = mul (from_percent 10) (MAXIMUM_BLOCK_WEIGHT per_second)"

text \<open>\<open>expect\<close> on the largest normal extrinsic.\<close>

definition OffchainSolutionWeightLimit :: "weight option \<Rightarrow> weight \<Rightarrow> weight may_panic" where
  "OffchainSolutionWeightLimit max_extrinsic block_execution =
     (case max_extrinsic of None \<Rightarrow> Panics | Some w \<Rightarrow> Returns (saturating_sub w block_execution))"

definition DeletionWeightLimit :: "(ratio \<Rightarrow> weight \<Rightarrow> weight) \<Rightarrow> weight \<Rightarrow> weight" where
  "DeletionWeightLimit mul max_block = mul AVERAGE_ON_INITIALIZE_RATIO max_block"

text \<open>
  \<open>per_item n\<close> is \<open>on_initialize_per_queue_item(n)\<close>; the division panics on zero, the
  cast to 32 bits truncates.
\<close>

definition DeletionQueueDepth :: "(ratio \<Rightarrow> weight \<Rightarrow> weight) \<Rightarrow> weight \<Rightarrow> (u32 \<Rightarrow> weight) \<Rightarrow> u32 may_panic" where
  "DeletionQueueDepth mul max_block per_item =
     (let d = per_item 1 - per_item 0
      in if d = 0 then Panics
         else Returns (ucast (DeletionWeightLimit mul max_block div d div 5)))"

section \<open>The reward curve\<close>

text \<open>In millionths.\<close>

record reward_curve =
  min_inflation :: nat
  max_inflation :: nat
  ideal_stake :: nat
  falloff :: nat
  max_piece_count :: nat
  test_precision :: nat

definition REWARD_CURVE :: reward_curve where
  "REWARD_CURVE = \<lparr>min_inflation = 25000, max_inflation = 100000, ideal_stake = 500000, falloff = 50000,
     max_piece_count = 40, test_precision = 5000\<rparr>"

section \<open>Properties\<close>

text \<open>Documented behaviour of ratios: a part is not more than the whole.\<close>

definition mul_below :: "(ratio \<Rightarrow> weight \<Rightarrow> weight) \<Rightarrow> bool" where
  "mul_below mul \<longleftrightarrow> (\<forall>r w. mul r w \<le> w)"

text \<open>
  C40. The deletion queue is as deep as its comment allows and no deeper: decoding the
  whole queue takes at most a fifth of the weight set aside for lazy deletion, and one
  more item would take more, as long as an item costs something and the depth fits 32
  bits.
\<close>

theorem deletion_queue_within_fifth:
  assumes "per_item 0 < per_item 1"
    and "unat (DeletionWeightLimit mul max_block) < 5 * 2 ^ 32 * (unat (per_item 1) - unat (per_item 0))"
  shows "\<exists>depth. DeletionQueueDepth mul max_block per_item = Returns depth \<and>
    5 * (unat depth * (unat (per_item 1) - unat (per_item 0))) \<le> unat (DeletionWeightLimit mul max_block) \<and>
    unat (DeletionWeightLimit mul max_block) <
      5 * ((unat depth + 1) * (unat (per_item 1) - unat (per_item 0)))"
proof -
  let ?L = "DeletionWeightLimit mul max_block" and ?d = "per_item 1 - per_item 0"
  have d: "unat ?d = unat (per_item 1) - unat (per_item 0)" using assms(1) by (simp add: unat_sub_le)
  have pos: "0 < unat ?d" using assms(1) by (simp add: d word_less_nat_alt)
  then have nz: "?d \<noteq> 0" by auto
  define q where "q = unat ?L div (unat ?d * 5)"
  have q: "unat (?L div ?d div 5) = q" by (simp add: unat_div q_def div_mult2_eq)
  have "q < 2 ^ 32" using assms(2) pos unfolding q_def d [symmetric] by (simp add: div_less_iff_less_mult)
  then have depth: "unat (ucast (?L div ?d div 5) :: u32) = q"
    using q by (subst unat_ucast_fits) simp_all
  have "unat ?d * 5 * q \<le> unat ?L" unfolding q_def by (rule times_div_less_eq_dividend)
  moreover have "unat ?L < unat ?d * 5 * (q + 1)"
    using dividend_less_times_div [of "unat ?d * 5" "unat ?L"] pos unfolding q_def by simp
  ultimately show ?thesis
    using nz depth by (simp add: DeletionQueueDepth_def Let_def d algebra_simps)
qed

theorem deletion_queue_within_fifth_witness:
  "\<exists>depth. DeletionQueueDepth (\<lambda>r w. w div 40) 40000 (\<lambda>n. if n = 1 then 12 else 2) = Returns depth \<and>
     5 * (unat depth * 10) \<le> 1000"
  using deletion_queue_within_fifth [of "\<lambda>n. if n = 1 then 12 else 2" "\<lambda>r w. w div 40" 40000]
  by (auto simp: DeletionWeightLimit_def)

text \<open>
  The scheduler, the offences pallet and the lazy deletion never take more than a block,
  and what is reserved for operational calls with what normal calls may use is a block.
\<close>

theorem limits_within_block:
  assumes "mul_below mul"
  shows "OffencesWeightSoftLimit mul per_second \<le> MAXIMUM_BLOCK_WEIGHT per_second \<and>
    MaximumSchedulerWeight mul per_second \<le> MAXIMUM_BLOCK_WEIGHT per_second \<and>
    DeletionWeightLimit mul max_block \<le> max_block \<and>
    operational_reserved (block_weights_for mul per_second base) +
      normal_max_total (block_weights_for mul per_second base) = MAXIMUM_BLOCK_WEIGHT per_second"
  using assms
  by (simp add: mul_below_def OffencesWeightSoftLimit_def MaximumSchedulerWeight_def DeletionWeightLimit_def
      block_weights_for_def Let_def)

theorem limits_within_block_witness:
  "MaximumSchedulerWeight (\<lambda>r w. w div 10) 1000 \<le> MAXIMUM_BLOCK_WEIGHT 1000"
proof -
  have "mul_below (\<lambda>r w. w div 10)"
    by (auto simp: mul_below_def word_le_nat_alt unat_div)
  from limits_within_block [OF this, of 1000] show ?thesis by blast
qed

text \<open>
  The curve satisfies what its builder demands: inflation between its bounds, an ideal
  stake between a tenth and nine tenths, a falloff of at least a hundredth.
\<close>

theorem reward_curve_accepted:
  "min_inflation REWARD_CURVE \<le> max_inflation REWARD_CURVE \<and> max_inflation REWARD_CURVE \<le> 1000000 \<and>
   100000 \<le> ideal_stake REWARD_CURVE \<and> ideal_stake REWARD_CURVE \<le> 900000 \<and>
   10000 \<le> falloff REWARD_CURVE \<and> falloff REWARD_CURVE \<le> 1000000"
  by (simp add: REWARD_CURVE_def)

end
