(* ===== verification/Runtime_Wiring.thy ===== *)
theory Runtime_Wiring
  imports Runtime_Config
begin

text \<open>
  How the \<open>Config\<close> implementations of \<^verbatim>\<open>runtime/src/lib.rs\<close> connect the pallets: for each
  pallet the associated types that name another pallet, a handler, a source of money or
  an origin. Items that name a data type, a weight or a parameter are left out; the
  parameters are in \<open>Runtime_Config\<close>.

  The lemmas follow these connections: every pallet that a configuration relies on is
  part of the runtime, offences end in the treasury, and so does what is forfeited.
\<close>

section \<open>Bindings\<close>

text \<open>
  What an associated type is bound to: a pallet, the unit type, a tuple, a type of the
  framework or of the runtime that wraps the pallets it works on, or an origin.
\<close>

datatype binding =
    Pallet string
  | Unit
  | Tuple "binding list"
  | Wrapper string "binding list"
  | Rule origin_rule

type_synonym wiring = "(string \<times> binding) list"

section \<open>The configurations\<close>

definition system_wiring :: wiring where
  "system_wiring =
     [(''BaseCallFilter'', Unit), (''Lookup'', Pallet ''Indices''), (''OnNewAccount'', Unit),
      (''OnKilledAccount'', Tuple [Wrapper ''CallKillAccount'' [Pallet ''EVM''],
                               Wrapper ''CallKillAccount'' [Pallet ''EvmAccounts'']])]"

definition babe_wiring :: wiring where
  "babe_wiring =
     [(''EpochChangeTrigger'', Wrapper ''ExternalTrigger'' []),
      (''KeyOwnerProofSystem'', Pallet ''Historical''),
      (''HandleEquivocation'', Wrapper ''EquivocationHandler'' [Pallet ''Offences''])]"

definition authority_discovery_wiring :: wiring where
  "authority_discovery_wiring = []"

definition grandpa_wiring :: wiring where
  "grandpa_wiring =
     [(''KeyOwnerProofSystem'', Pallet ''Historical''),
      (''HandleEquivocation'', Wrapper ''EquivocationHandler'' [Pallet ''Offences''])]"

definition identity_wiring :: wiring where
  "identity_wiring =
     [(''Currency'', Pallet ''Balances''), (''Slashed'', Pallet ''Treasury''),
      (''ForceOrigin'', Rule EnsureRootOrHalfCouncil), (''RegistrarOrigin'', Rule EnsureRootOrHalfCouncil)]"

definition vesting_wiring :: wiring where
  "vesting_wiring = [(''Currency'', Pallet ''Balances'')]"

definition timestamp_wiring :: wiring where
  "timestamp_wiring = [(''OnTimestampSet'', Pallet ''Babe'')]"

definition authorship_wiring :: wiring where
  "authorship_wiring =
     [(''FindAuthor'', Wrapper ''FindAccountFromAuthorIndex'' [Pallet ''Babe'']), (''FilterUncle'', Unit),
      (''EventHandler'', Tuple [Pallet ''Staking'', Pallet ''ImOnline''])]"

text \<open>The session handler is the tuple of the pallets in \<open>SessionKeys\<close>.\<close>

definition session_wiring :: wiring where
  "session_wiring =
     [(''ValidatorIdOf'', Wrapper ''StashOf'' [Pallet ''Staking'']),
      (''ShouldEndSession'', Pallet ''Babe''), (''NextSessionRotation'', Pallet ''Babe''),
      (''SessionManager'', Wrapper ''NoteHistoricalRoot'' [Pallet ''Staking'']),
      (''SessionHandler'',
        Tuple [Pallet ''Grandpa'', Pallet ''Babe'', Pallet ''ImOnline'', Pallet ''AuthorityDiscovery''])]"

definition historical_wiring :: wiring where
  "historical_wiring = [(''FullIdentificationOf'', Wrapper ''ExposureOf'' [Pallet ''Staking''])]"

definition evm_accounts_wiring :: wiring where
  "evm_accounts_wiring =
     [(''Currency'', Pallet ''Balances''), (''KillAccount'', Wrapper ''Consumer'' [Pallet ''System'']),
      (''AddressMapping'', Wrapper ''EvmAddressMapping'' [Pallet ''EvmAccounts'']),
      (''MergeAccount'', Wrapper ''MergeAccountEvm'' [Pallet ''Balances''])]"

definition evm_wiring :: wiring where
  "evm_wiring =
     [(''FeeCalculator'', Wrapper ''FixedGasPrice'' []), (''GasWeightMapping'', Unit),
      (''AddressMapping'', Wrapper ''EvmAddressMapping'' [Pallet ''EvmAccounts'']),
      (''Currency'', Pallet ''Balances''), (''BanlistChecker'', Unit), (''OnChargeTransaction'', Unit)]"

definition ethereum_wiring :: wiring where
  "ethereum_wiring =
     [(''FindAuthor'', Wrapper ''EthereumFindAuthor'' [Pallet ''Babe'']),
      (''StateRoot'', Wrapper ''IntermediateStateRoot'' [])]"

definition staking_wiring :: wiring where
  "staking_wiring =
     [(''Currency'', Pallet ''Balances''), (''UnixTime'', Pallet ''Timestamp''),
      (''CurrencyToVote'', Wrapper ''U128CurrencyToVote'' []),
      (''RewardRemainder'', Pallet ''Treasury''), (''Slash'', Pallet ''Treasury''), (''Reward'', Unit),
      (''SlashCancelOrigin'', Rule SlashCancelOrigin),
      (''SessionInterface'', Wrapper ''Self'' [Pallet ''Session'']), (''NextNewSession'', Pallet ''Session'')]"

definition balances_wiring :: wiring where
  "balances_wiring = [(''DustRemoval'', Unit), (''AccountStore'', Pallet ''System'')]"

definition im_online_wiring :: wiring where
  "im_online_wiring = [(''ValidatorSet'', Pallet ''Historical''), (''ReportUnresponsiveness'', Pallet ''Offences'')]"

definition offences_wiring :: wiring where
  "offences_wiring = [(''OnOffenceHandler'', Pallet ''Staking'')]"

definition scheduler_wiring :: wiring where
  "scheduler_wiring = [(''ScheduleOrigin'', Rule EnsureRoot)]"

definition democracy_wiring :: wiring where
  "democracy_wiring =
     [(''Currency'', Pallet ''Balances''),
      (''ExternalOrigin'', Rule (ExternalOrigin democracy_origin_rules)),
      (''ExternalMajorityOrigin'', Rule (ExternalMajorityOrigin democracy_origin_rules)),
      (''ExternalDefaultOrigin'', Rule (ExternalDefaultOrigin democracy_origin_rules)),
      (''FastTrackOrigin'', Rule (FastTrackOrigin democracy_origin_rules)),
      (''InstantOrigin'', Rule (InstantOrigin democracy_origin_rules)),
      (''CancellationOrigin'', Rule (CancellationOrigin democracy_origin_rules)),
      (''CancelProposalOrigin'', Rule (CancelProposalOrigin democracy_origin_rules)),
      (''OperationalPreimageOrigin'', Rule (OperationalPreimageOrigin democracy_origin_rules)),
      (''BlacklistOrigin'', Rule (BlacklistOrigin democracy_origin_rules)),
      (''VetoOrigin'', Rule (VetoOrigin democracy_origin_rules)),
      (''Slash'', Pallet ''Treasury''), (''Scheduler'', Pallet ''Scheduler'')]"

definition utility_wiring :: wiring where
  "utility_wiring = []"

definition multisig_wiring :: wiring where
  "multisig_wiring = [(''Currency'', Pallet ''Balances'')]"

definition council_wiring :: wiring where
  "council_wiring = [(''DefaultVote'', Wrapper ''PrimeDefaultVote'' [])]"

definition elections_wiring :: wiring where
  "elections_wiring =
     [(''Currency'', Pallet ''Balances''), (''ChangeMembers'', Pallet ''Council''),
      (''InitializeMembers'', Pallet ''Council''), (''CurrencyToVote'', Wrapper ''U128CurrencyToVote'' []),
      (''LoserCandidate'', Pallet ''Treasury''), (''KickedMember'', Pallet ''Treasury'')]"

definition technical_wiring :: wiring where
  "technical_wiring = [(''DefaultVote'', Wrapper ''PrimeDefaultVote'' [])]"

definition membership_wiring :: wiring where
  "membership_wiring =
     [(''AddOrigin'', Rule EnsureRoot), (''RemoveOrigin'', Rule EnsureRoot), (''SwapOrigin'', Rule EnsureRoot),
      (''ResetOrigin'', Rule EnsureRoot), (''PrimeOrigin'', Rule EnsureRoot),
      (''MembershipInitialized'', Pallet ''TechnicalCommittee''),
      (''MembershipChanged'', Pallet ''TechnicalCommittee'')]"

definition treasury_wiring :: wiring where
  "treasury_wiring =
     [(''Currency'', Pallet ''Balances''),
      (''ApproveOrigin'', Rule (ApproveOrigin treasury_origin_rules)),
      (''RejectOrigin'', Rule (RejectOrigin treasury_origin_rules)),
      (''OnSlash'', Unit), (''BurnDestination'', Unit), (''SpendFunds'', Pallet ''Bounties'')]"

definition bounties_wiring :: wiring where
  "bounties_wiring = []"

definition tips_wiring :: wiring where
  "tips_wiring = [(''Tippers'', Pallet ''ElectionsPhragmen'')]"

definition payment_wiring :: wiring where
  "payment_wiring =
     [(''OnChargeTransaction'', Wrapper ''CurrencyAdapter'' [Pallet ''Balances'', Wrapper ''DealWithFees'' []]),
      (''FeeMultiplierUpdate'', Wrapper ''TargetedFeeAdjustment'' [])]"

definition sudo_wiring :: wiring where
  "sudo_wiring = []"

definition indices_wiring :: wiring where
  "indices_wiring = [(''Currency'', Pallet ''Balances'')]"

definition contracts_wiring :: wiring where
  "contracts_wiring =
     [(''Time'', Pallet ''Timestamp''), (''Randomness'', Pallet ''RandomnessCollectiveFlip''),
      (''Currency'', Pallet ''Balances''), (''RentPayment'', Unit),
      (''WeightPrice'', Pallet ''TransactionPayment''), (''ChainExtension'', Unit)]"

definition claims_wiring :: wiring where
  "claims_wiring = [(''Currency'', Pallet ''Balances'')]"

definition interop_wiring :: wiring where
  "interop_wiring =
     [(''Currency'', Pallet ''Balances''), (''AddressMapping'', Wrapper ''EvmAddressMapping'' [Pallet ''EvmAccounts''])]"

definition runtime_wiring :: "(string \<times> wiring) list" where
  "runtime_wiring =
     [(''System'', system_wiring), (''Babe'', babe_wiring), (''AuthorityDiscovery'', authority_discovery_wiring),
      (''Grandpa'', grandpa_wiring), (''Identity'', identity_wiring), (''Vesting'', vesting_wiring),
      (''Timestamp'', timestamp_wiring), (''Authorship'', authorship_wiring), (''Session'', session_wiring),
      (''Historical'', historical_wiring), (''EvmAccounts'', evm_accounts_wiring), (''EVM'', evm_wiring),
      (''Ethereum'', ethereum_wiring), (''Staking'', staking_wiring), (''Balances'', balances_wiring),
      (''ImOnline'', im_online_wiring), (''Offences'', offences_wiring), (''Scheduler'', scheduler_wiring),
      (''Democracy'', democracy_wiring), (''Utility'', utility_wiring), (''Multisig'', multisig_wiring),
      (''Council'', council_wiring), (''ElectionsPhragmen'', elections_wiring),
      (''TechnicalCommittee'', technical_wiring), (''TechnicalMembership'', membership_wiring),
      (''Treasury'', treasury_wiring), (''Bounties'', bounties_wiring), (''Tips'', tips_wiring),
      (''TransactionPayment'', payment_wiring), (''Sudo'', sudo_wiring), (''Indices'', indices_wiring),
      (''Contracts'', contracts_wiring), (''CloverClaims'', claims_wiring), (''CloverEvminterop'', interop_wiring)]"

lemmas wiring_defs = runtime_wiring_def system_wiring_def babe_wiring_def authority_discovery_wiring_def
  grandpa_wiring_def identity_wiring_def vesting_wiring_def timestamp_wiring_def authorship_wiring_def
  session_wiring_def historical_wiring_def evm_accounts_wiring_def evm_wiring_def ethereum_wiring_def
  staking_wiring_def balances_wiring_def im_online_wiring_def offences_wiring_def scheduler_wiring_def
  democracy_wiring_def utility_wiring_def multisig_wiring_def council_wiring_def elections_wiring_def
  technical_wiring_def membership_wiring_def treasury_wiring_def bounties_wiring_def tips_wiring_def
  payment_wiring_def sudo_wiring_def indices_wiring_def contracts_wiring_def claims_wiring_def interop_wiring_def

section \<open>Reading the wiring\<close>

fun pallets_of :: "binding \<Rightarrow> string list" where
  "pallets_of (Pallet p) = [p]"
| "pallets_of (Tuple bs) = concat (map pallets_of bs)"
| "pallets_of (Wrapper _ bs) = concat (map pallets_of bs)"
| "pallets_of _ = []"

fun origins_of :: "binding \<Rightarrow> origin_rule list" where
  "origins_of (Rule r) = [r]"
| "origins_of _ = []"

definition bound_to :: "string \<Rightarrow> string \<Rightarrow> binding option" where
  "bound_to pallet item = Option.bind (map_of runtime_wiring pallet) (\<lambda>w. map_of w item)"

text \<open>The pallets that are reached from a pallet by following items, one after the other.\<close>

fun follow :: "string list \<Rightarrow> string \<Rightarrow> string list" where
  "follow [] pallet = [pallet]"
| "follow (item # items) pallet =
     (case bound_to pallet item of
        Some b \<Rightarrow> concat (map (follow items) (pallets_of b))
      | None \<Rightarrow> [])"

section \<open>Where money goes\<close>

text \<open>The items that receive what is slashed or forfeited, and those whose money is dropped.\<close>

definition forfeits :: "(string \<times> string) list" where
  "forfeits =
     [(''Identity'', ''Slashed''), (''Staking'', ''RewardRemainder''), (''Staking'', ''Slash''),
      (''Democracy'', ''Slash''), (''ElectionsPhragmen'', ''LoserCandidate''), (''ElectionsPhragmen'', ''KickedMember'')]"

definition losses :: "(string \<times> string) list" where
  "losses =
     [(''Balances'', ''DustRemoval''), (''Contracts'', ''RentPayment''), (''Treasury'', ''OnSlash''),
      (''Treasury'', ''BurnDestination''), (''EVM'', ''OnChargeTransaction'')]"

section \<open>Properties\<close>

text \<open>
  The wiring is closed: every pallet that a configuration names is part of the
  runtime, every configured pallet is, and the only pallet of the runtime without a
  configuration is the one that needs none.
\<close>

theorem wiring_closed:
  "list_all (\<lambda>(pallet, w). pallet \<in> set (map fst construct_runtime) \<and>
     list_all (\<lambda>(item, b). list_all (\<lambda>p. p \<in> set (map fst construct_runtime)) (pallets_of b)) w) runtime_wiring \<and>
   list_all (\<lambda>(pallet, parts). pallet = ''RandomnessCollectiveFlip'' \<or> pallet \<in> set (map fst runtime_wiring))
     construct_runtime \<and>
   distinct (map fst runtime_wiring)"
  by (simp add: wiring_defs construct_runtime_def)

text \<open>
  Every offence that is reported, an equivocation in block production or in
  finality or an authority that is offline, reaches the offences pallet, from there
  staking, and what staking slashes goes to the treasury.
\<close>

theorem offences_slash_to_treasury:
  "follow [''HandleEquivocation'', ''OnOffenceHandler'', ''Slash''] ''Babe'' = [''Treasury''] \<and>
   follow [''HandleEquivocation'', ''OnOffenceHandler'', ''Slash''] ''Grandpa'' = [''Treasury''] \<and>
   follow [''ReportUnresponsiveness'', ''OnOffenceHandler'', ''Slash''] ''ImOnline'' = [''Treasury'']"
  by (simp add: bound_to_def wiring_defs)

text \<open>
  What staking, democracy, the elections and the identity pallet slash or forfeit, and
  the rest of the staking rewards, goes to the treasury; dust, rent, the bonds of
  rejected spending proposals, the fees of the EVM and the treasury's burn go to nobody.
\<close>

theorem forfeits_reach_treasury:
  "list_all (\<lambda>(pallet, item). bound_to pallet item = Some (Pallet ''Treasury'')) forfeits \<and>
   list_all (\<lambda>(pallet, item). bound_to pallet item = Some Unit) losses"
  by (simp add: forfeits_def losses_def bound_to_def wiring_defs)

end
