(* ===== verification/Rpc.thy ===== *)
theory Rpc
  imports Primitives
begin

text \<open>
  \<^verbatim>\<open>rpc/src\<close>: the JSON-RPC endpoints for balances, currencies, pairs, the
  exchange and the incentive pools, over the runtime API that
  \<^verbatim>\<open>rpc/runtime-api/src/lib.rs\<close> declares.

  Parameters: the client, a record with the best hash and one function per
  declared runtime call (the call is made at a block and may fail with an API
  error), and the \<open>Debug\<close> output of that error. The generic \<open>Balance\<close> and
  \<open>Share\<close> of the endpoints are the \<open>u128\<close> of \<^verbatim>\<open>primitives\<close>, whose \<open>Display\<close>
  output is the decimal numeral.

  The lemmas show that an endpoint asks the runtime at the given block or else
  at the best one, that amounts are rendered without loss, that seven of the nine
  runtime-backed endpoints answer a failing runtime call with the error of code 1
  and that the two others panic.
\<close>

section \<open>The runtime API\<close>

text \<open>One field per function of \<open>decl_runtime_apis!\<close>, with the block it is called at first.\<close>

record ('h, 'acc, 'cid, 'rate, 'e) runtime_api =
  api_account_balance :: "'h \<Rightarrow> 'acc \<Rightarrow> 'cid option \<Rightarrow> (('cid \<times> balance) list, 'e) result"
  api_currency_pair :: "'h \<Rightarrow> ((currency_id \<times> currency_id) list, 'e) result"
  api_target_amount_available :: "'h \<Rightarrow> 'cid \<Rightarrow> 'cid \<Rightarrow> balance \<Rightarrow> (balance \<times> 'cid list, 'e) result"
  api_supply_amount_needed :: "'h \<Rightarrow> 'cid \<Rightarrow> 'cid \<Rightarrow> balance \<Rightarrow> (balance \<times> 'cid list, 'e) result"
  api_get_liquidity :: "'h \<Rightarrow> 'acc option \<Rightarrow>
    (('cid \<times> 'cid \<times> balance \<times> balance \<times> balance \<times> balance \<times> balance) list, 'e) result"
  api_get_exchange_rate :: "'h \<Rightarrow> ('rate, 'e) result"
  api_to_add_liquidity :: "'h \<Rightarrow> 'cid \<Rightarrow> 'cid \<Rightarrow> balance \<Rightarrow> balance \<Rightarrow> (share \<times> share, 'e) result"
  api_get_staking_info :: "'h \<Rightarrow> 'acc \<Rightarrow> 'cid \<Rightarrow> 'cid \<Rightarrow> (share \<times> balance, 'e) result"
  api_get_all_incentive_pools :: "'h \<Rightarrow> (('cid \<times> 'cid \<times> share \<times> balance) list, 'e) result"

text \<open>The client an endpoint holds: \<open>info().best_hash\<close>, \<open>runtime_api()\<close>, and the error's \<open>Debug\<close>.\<close>

record ('h, 'acc, 'cid, 'rate, 'e) rpc_client =
  best_hash :: 'h
  runtime_api :: "('h, 'acc, 'cid, 'rate, 'e) runtime_api"
  debug_error :: "'e \<Rightarrow> string"

section \<open>Errors\<close>

datatype api_failure = RuntimeError

fun failure_code :: "api_failure \<Rightarrow> int" where
  "failure_code RuntimeError = 1"

datatype error_code = ServerError int

record rpc_error =
  err_code :: error_code
  err_message :: string
  err_data :: "string option"

text \<open>The closure given to every \<open>map_err\<close>.\<close>

definition unable_to_get_value :: "string \<Rightarrow> rpc_error" where
  "unable_to_get_value debug =
     \<lparr>err_code = ServerError (failure_code RuntimeError),
      err_message = ''Unable to get value.'',
      err_data = Some debug\<rparr>"

fun map_err :: "('e \<Rightarrow> 'f) \<Rightarrow> ('a, 'e) result \<Rightarrow> ('a, 'f) result" where
  "map_err f (Ok x) = Ok x"
| "map_err f (Err e) = Err (f e)"

fun map_ok :: "('a \<Rightarrow> 'b) \<Rightarrow> ('a, 'e) result \<Rightarrow> ('b, 'e) result" where
  "map_ok f (Ok x) = Ok (f x)"
| "map_ok f (Err e) = Err e"

fun unwrap :: "('a, 'e) result \<Rightarrow> 'a may_panic" where
  "unwrap (Ok x) = Returns x"
| "unwrap (Err e) = Panics"

text \<open>\<open>at.unwrap_or_else(|| self.client.info().best_hash)\<close>.\<close>

definition at_or_best :: "('h, 'acc, 'cid, 'rate, 'e) rpc_client \<Rightarrow> 'h option \<Rightarrow> 'h" where
  "at_or_best c at = (case at of Some h \<Rightarrow> h | None \<Rightarrow> best_hash c)"

section \<open>Decimal output\<close>

text \<open>\<open>format!("{}", n)\<close> of an unsigned integer.\<close>

definition digit_char :: "nat \<Rightarrow> char" where
  "digit_char d = ''0123456789'' ! d"

fun decimal_string :: "nat \<Rightarrow> string" where
  "decimal_string n =
     (if n < 10 then [digit_char n] else decimal_string (n div 10) @ [digit_char (n mod 10)])"

declare decimal_string.simps [simp del]

definition format_u128 :: "u128 \<Rightarrow> string" where
  "format_u128 b = decimal_string (unat b)"

section \<open>Balances\<close>

definition account_balance ::
  "('h, 'acc, 'cid, 'rate, 'e) rpc_client \<Rightarrow> 'acc \<Rightarrow> 'cid option \<Rightarrow> 'h option \<Rightarrow>
   (('cid \<times> string) list, rpc_error) result may_panic" where
  "account_balance c account currency at =
     (let api = runtime_api c; at = at_or_best c at
      in case unwrap (map_err (\<lambda>e. unable_to_get_value (debug_error c e))
                        (api_account_balance api at account currency)) of
           Panics \<Rightarrow> Panics
         | Returns balances \<Rightarrow>
             Returns (Ok (map (\<lambda>(cid, b). (cid, format_u128 b)) balances)))"

section \<open>Currencies\<close>

record currency_info =
  info_id :: u32
  info_name :: string

text \<open>The derived \<open>strum\<close> \<open>Display\<close> and \<open>EnumIter\<close> of \<open>CurrencyId\<close>.\<close>

fun currency_name :: "currency_id \<Rightarrow> string" where
  "currency_name CLV = ''CLV''"
| "currency_name CUSDT = ''CUSDT''"
| "currency_name DOT = ''DOT''"
| "currency_name CETH = ''CETH''"

definition currency_iter :: "currency_id list" where
  "currency_iter = [CLV, CUSDT, DOT, CETH]"

fun push_currencies :: "currency_info list \<Rightarrow> currency_id list \<Rightarrow> currency_info list" where
  "push_currencies v [] = v"
| "push_currencies v (item # items) =
     push_currencies (v @ [\<lparr>info_id = currency_code item, info_name = currency_name item\<rparr>]) items"

definition get_currencies :: "(currency_info list, rpc_error) result" where
  "get_currencies = Ok (push_currencies [] currency_iter)"

section \<open>Pairs\<close>

definition currency_pair ::
  "('h, 'acc, 'cid, 'rate, 'e) rpc_client \<Rightarrow> 'h option \<Rightarrow>
   ((currency_id \<times> currency_id) list, rpc_error) result" where
  "currency_pair c at =
     map_err (\<lambda>e. unable_to_get_value (debug_error c e))
       (api_currency_pair (runtime_api c) (at_or_best c at))"

section \<open>The exchange\<close>

record 'cid exchange_info =
  ex_balance :: string
  ex_routes :: "'cid list"

definition target_amount_available ::
  "('h, 'acc, 'cid, 'rate, 'e) rpc_client \<Rightarrow> 'cid \<Rightarrow> 'cid \<Rightarrow> balance \<Rightarrow> 'h option \<Rightarrow>
   ('cid exchange_info, rpc_error) result" where
  "target_amount_available c source target amount at =
     map_ok (\<lambda>(b, r). \<lparr>ex_balance = format_u128 b, ex_routes = r\<rparr>)
       (map_err (\<lambda>e. unable_to_get_value (debug_error c e))
         (api_target_amount_available (runtime_api c) (at_or_best c at) source target amount))"

definition supply_amount_needed ::
  "('h, 'acc, 'cid, 'rate, 'e) rpc_client \<Rightarrow> 'cid \<Rightarrow> 'cid \<Rightarrow> balance \<Rightarrow> 'h option \<Rightarrow>
   ('cid exchange_info, rpc_error) result" where
  "supply_amount_needed c source target amount at =
     map_ok (\<lambda>(b, r). \<lparr>ex_balance = format_u128 b, ex_routes = r\<rparr>)
       (map_err (\<lambda>e. unable_to_get_value (debug_error c e))
         (api_supply_amount_needed (runtime_api c) (at_or_best c at) source target amount))"

definition get_liquidity ::
  "('h, 'acc, 'cid, 'rate, 'e) rpc_client \<Rightarrow> 'acc option \<Rightarrow> 'h option \<Rightarrow>
   (('cid \<times> 'cid \<times> string \<times> string \<times> string \<times> string \<times> string) list, rpc_error) result may_panic" where
  "get_liquidity c account at =
     (case unwrap (map_err (\<lambda>e. unable_to_get_value (debug_error c e))
                    (api_get_liquidity (runtime_api c) (at_or_best c at) account)) of
        Panics \<Rightarrow> Panics
      | Returns info \<Rightarrow>
          Returns (Ok (map (\<lambda>(c1, c2, b1, b2, s1, s2, s3).
            (c1, c2, format_u128 b1, format_u128 b2, format_u128 s1, format_u128 s2, format_u128 s3)) info)))"

definition get_exchange_rate ::
  "('h, 'acc, 'cid, 'rate, 'e) rpc_client \<Rightarrow> 'h option \<Rightarrow> ('rate, rpc_error) result" where
  "get_exchange_rate c at =
     map_err (\<lambda>e. unable_to_get_value (debug_error c e))
       (api_get_exchange_rate (runtime_api c) (at_or_best c at))"

definition to_add_liquidity ::
  "('h, 'acc, 'cid, 'rate, 'e) rpc_client \<Rightarrow> 'cid \<Rightarrow> 'cid \<Rightarrow> balance \<Rightarrow> balance \<Rightarrow> 'h option \<Rightarrow>
   (string \<times> string, rpc_error) result" where
  "to_add_liquidity c source target source_amount target_amount at =
     map_ok (\<lambda>(s1, s2). (format_u128 s1, format_u128 s2))
       (map_err (\<lambda>e. unable_to_get_value (debug_error c e))
         (api_to_add_liquidity (runtime_api c) (at_or_best c at) source target source_amount target_amount))"

definition get_account_staking_info ::
  "('h, 'acc, 'cid, 'rate, 'e) rpc_client \<Rightarrow> 'acc \<Rightarrow> 'cid \<Rightarrow> 'cid \<Rightarrow> 'h option \<Rightarrow>
   (string \<times> string, rpc_error) result" where
  "get_account_staking_info c account currency_left currency_right at =
     map_ok (\<lambda>(s1, s2). (format_u128 s1, format_u128 s2))
       (map_err (\<lambda>e. unable_to_get_value (debug_error c e))
         (api_get_staking_info (runtime_api c) (at_or_best c at) account currency_left currency_right))"

section \<open>Incentive pools\<close>

definition rpc_get_all_incentive_pools ::
  "('h, 'acc, 'cid, 'rate, 'e) rpc_client \<Rightarrow> 'h option \<Rightarrow>
   (('cid \<times> 'cid \<times> string \<times> string) list, rpc_error) result" where
  "rpc_get_all_incentive_pools c at =
     map_ok (map (\<lambda>(c1, c2, share, balance). (c1, c2, format_u128 share, format_u128 balance)))
       (map_err (\<lambda>e. unable_to_get_value (debug_error c e))
         (api_get_all_incentive_pools (runtime_api c) (at_or_best c at)))"

section \<open>Reading a numeral back\<close>

text \<open>What a caller does with the strings: \<open>str::parse::<u128>\<close>.\<close>

definition digit_value :: "char \<Rightarrow> nat" where
  "digit_value ch = of_char ch - 48"

definition is_digit :: "char \<Rightarrow> bool" where
  "is_digit ch \<longleftrightarrow> (48 :: nat) \<le> of_char ch \<and> of_char ch \<le> (57 :: nat)"

definition numeral_value :: "string \<Rightarrow> nat" where
  "numeral_value s = foldl (\<lambda>n ch. n * 10 + digit_value ch) 0 s"

definition parse_u128 :: "string \<Rightarrow> u128 option" where
  "parse_u128 s =
     (if s = [] \<or> \<not> list_all is_digit s \<or> 2 ^ 128 \<le> numeral_value s then None
      else Some (of_nat (numeral_value s)))"

section \<open>A concrete client\<close>

definition demo_client :: "(nat, nat, currency_id, nat, string) rpc_client" where
  "demo_client =
     \<lparr>best_hash = 7,
      runtime_api =
        \<lparr>api_account_balance = (\<lambda>h acc cur. if h = 7 then Ok [(CLV, 250), (DOT, 0)] else Err ''UnknownBlock''),
         api_currency_pair = (\<lambda>h. Ok []),
         api_target_amount_available = (\<lambda>h s t a. Ok (a, [s, t])),
         api_supply_amount_needed = (\<lambda>h s t a. Ok (a, [s, t])),
         api_get_liquidity = (\<lambda>h acc. Err ''UnknownBlock''),
         api_get_exchange_rate = (\<lambda>h. Ok 1),
         api_to_add_liquidity = (\<lambda>h s t a b. Ok (a, b)),
         api_get_staking_info = (\<lambda>h acc s t. Ok (0, 0)),
         api_get_all_incentive_pools = (\<lambda>h. Ok [])\<rparr>,
      debug_error = (\<lambda>e. e)\<rparr>"

section \<open>Laws\<close>

lemma digit_cases: "d < 10 \<Longrightarrow> d \<in> {0, 1, 2, 3, 4, 5, 6, 7, 8, 9 :: nat}"
  by auto

lemma digit_char_value [simp]: "d < 10 \<Longrightarrow> digit_value (digit_char d) = d"
  by (drule digit_cases) (auto simp: digit_char_def digit_value_def)

lemma digit_char_is_digit [simp]: "d < 10 \<Longrightarrow> is_digit (digit_char d)"
  by (drule digit_cases) (auto simp: digit_char_def is_digit_def)

lemma numeral_value_snoc [simp]: "numeral_value (s @ [ch]) = numeral_value s * 10 + digit_value ch"
  by (simp add: numeral_value_def)

lemma numeral_value_single [simp]: "numeral_value [ch] = digit_value ch"
  by (simp add: numeral_value_def)

lemma decimal_string_value: "numeral_value (decimal_string n) = n"
  by (induction n rule: decimal_string.induct) (subst decimal_string.simps, simp)

lemma decimal_string_digits: "list_all is_digit (decimal_string n)"
  by (induction n rule: decimal_string.induct) (subst decimal_string.simps, simp)

lemma decimal_string_nonempty: "decimal_string n \<noteq> []"
  by (subst decimal_string.simps) simp

lemma decimal_string_leading:
  "0 < n \<Longrightarrow> hd (decimal_string n) \<noteq> CHR ''0''"
proof (induction n rule: decimal_string.induct)
  case (1 n)
  show ?case
  proof (cases "n < 10")
    case True
    with 1 show ?thesis
      using digit_cases [of n] by (subst decimal_string.simps) (auto simp: digit_char_def)
  next
    case False
    with 1 have "hd (decimal_string (n div 10)) \<noteq> CHR ''0''" by simp
    with False show ?thesis
      by (subst decimal_string.simps) (simp add: hd_append decimal_string_nonempty)
  qed
qed

lemma parse_format [simp]: "parse_u128 (format_u128 b) = Some b"
  using u128_bound [of b]
  by (simp add: parse_u128_def format_u128_def decimal_string_value decimal_string_digits
      decimal_string_nonempty)

lemma map_err_eq [simp]:
  "map_err f r = Ok x \<longleftrightarrow> r = Ok x"
  "map_err f r = Err g \<longleftrightarrow> (\<exists>e. r = Err e \<and> g = f e)"
  by (cases r; auto)+

lemma map_ok_eq [simp]:
  "map_ok f r = Ok y \<longleftrightarrow> (\<exists>x. r = Ok x \<and> y = f x)"
  "map_ok f r = Err e \<longleftrightarrow> r = Err e"
  by (cases r; auto)+

lemma map_ok_id [simp]: "map_ok (\<lambda>x. x) r = r"
  by (cases r) simp_all

lemma at_or_best_simps [simp]:
  "at_or_best c (Some h) = h" "at_or_best c None = best_hash c"
  by (simp_all add: at_or_best_def)

section \<open>The contract of a runtime-backed endpoint\<close>

text \<open>
  An endpoint with its arguments fixed is a function of the block; it makes one
  runtime call at that block, renders the value and maps the error.
\<close>

locale reporting_endpoint =
  fixes client :: "('h, 'acc, 'cid, 'rate, 'e) rpc_client"
    and query :: "'h \<Rightarrow> ('a, 'e) result"
    and render :: "'a \<Rightarrow> 'b"
    and endpoint :: "'h option \<Rightarrow> ('b, rpc_error) result"
  assumes endpoint_eq: "endpoint at = map_ok render
    (map_err (\<lambda>e. unable_to_get_value (debug_error client e)) (query (at_or_best client at)))"
begin

lemma reports_error:
  "endpoint at = Err r \<longleftrightarrow>
     (\<exists>e. query (at_or_best client at) = Err e \<and> r = unable_to_get_value (debug_error client e))"
  by (simp add: endpoint_eq)

lemma reports_value:
  "endpoint at = Ok y \<longleftrightarrow> (\<exists>x. query (at_or_best client at) = Ok x \<and> y = render x)"
  by (simp add: endpoint_eq)

lemma defaults_to_best: "endpoint None = endpoint (Some (best_hash client))"
  by (simp add: endpoint_eq)

end

interpretation target_endpoint: reporting_endpoint c
  "\<lambda>h. api_target_amount_available (runtime_api c) h source target amount"
  "\<lambda>(b, r). \<lparr>ex_balance = format_u128 b, ex_routes = r\<rparr>"
  "target_amount_available c source target amount"
  for c :: "('h, 'acc, 'cid, 'rate, 'e) rpc_client" and source target amount
  by unfold_locales (simp add: target_amount_available_def)

interpretation supply_endpoint: reporting_endpoint c
  "\<lambda>h. api_supply_amount_needed (runtime_api c) h source target amount"
  "\<lambda>(b, r). \<lparr>ex_balance = format_u128 b, ex_routes = r\<rparr>"
  "supply_amount_needed c source target amount"
  for c :: "('h, 'acc, 'cid, 'rate, 'e) rpc_client" and source target amount
  by unfold_locales (simp add: supply_amount_needed_def)

interpretation rate_endpoint: reporting_endpoint c
  "api_get_exchange_rate (runtime_api c)" "\<lambda>x. x" "get_exchange_rate c"
  for c :: "('h, 'acc, 'cid, 'rate, 'e) rpc_client"
  by unfold_locales (simp add: get_exchange_rate_def)

interpretation liquidity_endpoint: reporting_endpoint c
  "\<lambda>h. api_to_add_liquidity (runtime_api c) h source target source_amount target_amount"
  "\<lambda>(s1, s2). (format_u128 s1, format_u128 s2)"
  "to_add_liquidity c source target source_amount target_amount"
  for c :: "('h, 'acc, 'cid, 'rate, 'e) rpc_client" and source target source_amount target_amount
  by unfold_locales (simp add: to_add_liquidity_def)

interpretation staking_endpoint: reporting_endpoint c
  "\<lambda>h. api_get_staking_info (runtime_api c) h account left right"
  "\<lambda>(s1, s2). (format_u128 s1, format_u128 s2)"
  "get_account_staking_info c account left right"
  for c :: "('h, 'acc, 'cid, 'rate, 'e) rpc_client" and account left right
  by unfold_locales (simp add: get_account_staking_info_def)

interpretation pools_endpoint: reporting_endpoint c
  "api_get_all_incentive_pools (runtime_api c)"
  "map (\<lambda>(c1, c2, share, balance). (c1, c2, format_u128 share, format_u128 balance))"
  "rpc_get_all_incentive_pools c"
  for c :: "('h, 'acc, 'cid, 'rate, 'e) rpc_client"
  by unfold_locales (simp add: rpc_get_all_incentive_pools_def)

interpretation pair_endpoint: reporting_endpoint c
  "api_currency_pair (runtime_api c)" "\<lambda>x. x" "currency_pair c"
  for c :: "('h, 'acc, 'cid, 'rate, 'e) rpc_client"
  by unfold_locales (simp add: currency_pair_def)

lemma push_currencies_eq:
  "push_currencies v items =
     v @ map (\<lambda>i. \<lparr>info_id = currency_code i, info_name = currency_name i\<rparr>) items"
  by (induction v items rule: push_currencies.induct) simp_all

section \<open>Properties\<close>

text \<open>
  An endpoint that returns the outcome of its runtime call answers a failing
  call, at the given block or else at the best one, with a server error of code 1
  carrying the call's error, and fails in no other case.
\<close>

theorem endpoints_report_errors:
  fixes c :: "('h, 'acc, 'cid, 'rate, 'e) rpc_client"
  shows "err_code (unable_to_get_value d) = ServerError 1 \<and> err_data (unable_to_get_value d) = Some d \<and>
    (target_amount_available c s t a at = Err r \<longleftrightarrow>
      (\<exists>e. api_target_amount_available (runtime_api c) (at_or_best c at) s t a = Err e \<and>
           r = unable_to_get_value (debug_error c e))) \<and>
    (supply_amount_needed c s t a at = Err r \<longleftrightarrow>
      (\<exists>e. api_supply_amount_needed (runtime_api c) (at_or_best c at) s t a = Err e \<and>
           r = unable_to_get_value (debug_error c e))) \<and>
    (get_exchange_rate c at = Err r \<longleftrightarrow>
      (\<exists>e. api_get_exchange_rate (runtime_api c) (at_or_best c at) = Err e \<and>
           r = unable_to_get_value (debug_error c e))) \<and>
    (to_add_liquidity c s t a b at = Err r \<longleftrightarrow>
      (\<exists>e. api_to_add_liquidity (runtime_api c) (at_or_best c at) s t a b = Err e \<and>
           r = unable_to_get_value (debug_error c e))) \<and>
    (get_account_staking_info c acc s t at = Err r \<longleftrightarrow>
      (\<exists>e. api_get_staking_info (runtime_api c) (at_or_best c at) acc s t = Err e \<and>
           r = unable_to_get_value (debug_error c e))) \<and>
    (rpc_get_all_incentive_pools c at = Err r \<longleftrightarrow>
      (\<exists>e. api_get_all_incentive_pools (runtime_api c) (at_or_best c at) = Err e \<and>
           r = unable_to_get_value (debug_error c e))) \<and>
    (currency_pair c at = Err r \<longleftrightarrow>
      (\<exists>e. api_currency_pair (runtime_api c) (at_or_best c at) = Err e \<and>
           r = unable_to_get_value (debug_error c e)))"
  by (simp add: target_endpoint.reports_error supply_endpoint.reports_error
      rate_endpoint.reports_error liquidity_endpoint.reports_error staking_endpoint.reports_error
      pools_endpoint.reports_error pair_endpoint.reports_error unable_to_get_value_def)

text \<open>
  The balance and the liquidity endpoints panic exactly when their runtime
  call fails, so that they never answer with an error; otherwise they return one
  entry per entry of the call, every amount as a numeral that reads back as it.
\<close>

theorem unwrap_endpoints_panic:
  fixes c :: "('h, 'acc, 'cid, 'rate, 'e) rpc_client"
  shows "(account_balance c acc cur at = Panics \<longleftrightarrow>
      (\<exists>e. api_account_balance (runtime_api c) (at_or_best c at) acc cur = Err e)) \<and>
    (get_liquidity c oacc at = Panics \<longleftrightarrow>
      (\<exists>e. api_get_liquidity (runtime_api c) (at_or_best c at) oacc = Err e)) \<and>
    account_balance c acc cur at \<noteq> Returns (Err r) \<and>
    get_liquidity c oacc at \<noteq> Returns (Err r) \<and>
    (\<forall>xs. account_balance c acc cur at = Returns (Ok xs) \<longrightarrow>
       api_account_balance (runtime_api c) (at_or_best c at) acc cur =
         Ok (map (\<lambda>(cid, s). (cid, the (parse_u128 s))) xs))"
  by (cases "api_account_balance (runtime_api c) (at_or_best c at) acc cur";
      cases "api_get_liquidity (runtime_api c) (at_or_best c at) oacc")
    (auto simp: account_balance_def get_liquidity_def Let_def o_def case_prod_beta')

theorem unwrap_endpoints_panic_witness:
  "account_balance demo_client 1 None None = Returns (Ok [(CLV, ''250''), (DOT, ''0'')]) \<and>
   api_account_balance (runtime_api demo_client) 7 1 None =
     Ok (map (\<lambda>(cid, s). (cid, the (parse_u128 s))) [(CLV, ''250''), (DOT, ''0'')]) \<and>
   account_balance demo_client 1 None (Some 8) = Panics"
proof -
  have ran: "account_balance demo_client 1 None None = Returns (Ok [(CLV, ''250''), (DOT, ''0'')])"
    by (simp add: account_balance_def demo_client_def format_u128_def decimal_string.simps digit_char_def)
  moreover have "api_account_balance (runtime_api demo_client) (at_or_best demo_client None) 1 None =
     Ok (map (\<lambda>(cid, s). (cid, the (parse_u128 s))) [(CLV, ''250''), (DOT, ''0'')])"
    using unwrap_endpoints_panic [of demo_client 1 None None] ran by blast
  moreover have "account_balance demo_client 1 None (Some 8) = Panics"
    using unwrap_endpoints_panic [of demo_client 1 None "Some 8"] by (simp add: demo_client_def)
  ultimately show ?thesis by (simp add: demo_client_def)
qed

text \<open>
  The numeral an endpoint renders for an amount parses back as the amount and
  has no superfluous leading zero, for every \<open>u128\<close>.
\<close>

theorem amounts_rendered_exactly:
  "parse_u128 (format_u128 b) = Some b \<and> (hd (format_u128 b) = CHR ''0'' \<longleftrightarrow> b = 0)"
proof -
  have "hd (decimal_string 0) = CHR ''0''"
    by (simp add: decimal_string.simps digit_char_def)
  then have "hd (format_u128 b) = CHR ''0'' \<longleftrightarrow> b = 0"
    using decimal_string_leading [of "unat b"]
    by (cases "b = 0") (auto simp: format_u128_def unat_gt_0)
  then show ?thesis by simp
qed

text \<open>
  \<open>get_currencies\<close> lists every currency exactly once; from an entry's id the
  currency is recovered, and with it the entry's name.
\<close>

theorem get_currencies_complete:
  "\<exists>v. get_currencies = Ok v \<and> distinct (map info_id v) \<and> distinct (map info_name v) \<and>
     (\<forall>i. i \<in> set v \<longleftrightarrow> (\<exists>cur. currency_from_u32 (info_id i) = Some cur \<and> info_name i = currency_name cur))"
proof -
  let ?v = "map (\<lambda>i. \<lparr>info_id = currency_code i, info_name = currency_name i\<rparr>) currency_iter"
  have all: "cur \<in> set currency_iter" for cur
    by (cases cur) (simp_all add: currency_iter_def)
  have "i \<in> set ?v \<longleftrightarrow>
      (\<exists>cur. currency_from_u32 (info_id i) = Some cur \<and> info_name i = currency_name cur)"
    for i :: currency_info
    using all by (cases i) (auto simp: currency_from_u32_Some image_iff)
  moreover have "distinct (map info_id ?v)" "distinct (map info_name ?v)"
    by (simp_all add: currency_iter_def)
  ultimately show ?thesis
    by (intro exI [of _ ?v]) (simp add: get_currencies_def push_currencies_eq)
qed

end
