(* ===== verification/Node.thy ===== *)
theory Node
  imports Primitives
begin

text \<open>
  \<^verbatim>\<open>node/src\<close>: the command line (\<^verbatim>\<open>cli.rs\<close>, \<^verbatim>\<open>command.rs\<close>), the assembly of the
  services (\<^verbatim>\<open>service.rs\<close>) and of the RPC extensions (\<^verbatim>\<open>rpc.rs\<close>).

  What these functions do is call the node framework in a certain order, under
  conditions on the configuration. A call is a value of \<open>node_step\<close>; a function is
  a computation over the list of calls made so far. Parameters: the outcome of
  each call that returns a \<open>Result\<close> (\<open>env\<close>), and the configuration the framework
  passes in, with the role already read through \<open>is_authority\<close> and
  \<open>is_network_authority\<close>.

  The lemmas give the exact calls a successful start makes, show that the full
  node opens the network only after everything else succeeded, relate the
  manual-seal flag to queue, RPC and authoring task, and give the exact life of
  an Ethereum filter.
\<close>

section \<open>Command line\<close>

datatype 'cmd subcommand =
    Key 'cmd | Verify 'cmd | Vanity 'cmd | Sign 'cmd | BuildSpec 'cmd | CheckBlock 'cmd
  | ExportBlocks 'cmd | ExportState 'cmd | ImportBlocks 'cmd | PurgeChain 'cmd | Revert 'cmd

text \<open>\<open>base\<close> is the framework's own run command.\<close>

record 'cmd run_cmd =
  base :: 'cmd
  max_past_logs :: u32
  manual_seal :: bool

record 'cmd cli =
  cli_subcommand :: "'cmd subcommand option"
  cli_run :: "'cmd run_cmd"

text \<open>The chain a \<open>--chain\<close> argument selects; anything else is the path of a JSON file.\<close>

datatype chain_choice = Development | LocalTestnet | RoseTestnet | IrisTestnet | JsonFile string

definition chain_of_id :: "string \<Rightarrow> chain_choice" where
  "chain_of_id i =
     (if i = ''dev'' then Development
      else if i = '''' \<or> i = ''local'' then LocalTestnet
      else if i = ''rose'' then RoseTestnet
      else if i = ''iris'' then IrisTestnet
      else JsonFile i)"

definition load_spec ::
  "(chain_choice \<Rightarrow> ('spec, string) result may_panic) \<Rightarrow> string \<Rightarrow> ('spec, string) result may_panic" where
  "load_spec configs i =
     (case configs (chain_of_id i) of
        Panics \<Rightarrow> Panics
      | Returns r \<Rightarrow> Returns (result_bind r Ok))"

section \<open>RPC extensions\<close>

text \<open>
  The objects that several parts of the node share behind an \<open>Arc\<close> or the two ends
  of a channel, whose capacity is given. An object is numbered when it is created, in
  the order of creation; a clone is the same handle, another object of its kind has
  another number.
\<close>

datatype handle = PendingTransactionMap nat | FilterPoolMap nat | CommandChannel nat nat | VoterState nat

text \<open>
  An extension with the arguments that decide what it serves: the flag that denies
  unsafe calls, shared objects, limits, and the authority flag.
\<close>

datatype rpc_extension =
    SystemApi bool | TransactionPaymentApi | ContractsApi | BabeApi bool | GrandpaApi handle
  | SyncStateRpcApi bool
  | EthApi "handle option" bool u32 | EthFilterApi handle nat u32 | NetApi bool | Web3Api | EthPubSubApi
  | ManualSealApi handle
  | LightSystemApi

record full_deps =
  deny_unsafe :: bool
  deps_voter_state :: handle
  pending_transactions :: "handle option"
  filter_pool :: "handle option"
  deps_max_past_logs :: u32
  deps_is_authority :: bool
  command_sink :: "handle option"

text \<open>The extensions of the framework, those of Ethereum, and the one for manual sealing.\<close>

definition substrate_extensions :: "full_deps \<Rightarrow> rpc_extension list \<Rightarrow> rpc_extension list" where
  "substrate_extensions deps io =
     (let io = io @ [SystemApi (deny_unsafe deps)];
          io = io @ [TransactionPaymentApi];
          io = io @ [ContractsApi];
          io = io @ [BabeApi (deny_unsafe deps)];
          io = io @ [GrandpaApi (deps_voter_state deps)]
      in io @ [SyncStateRpcApi (deny_unsafe deps)])"

definition ethereum_extensions :: "full_deps \<Rightarrow> rpc_extension list \<Rightarrow> rpc_extension list" where
  "ethereum_extensions deps io =
     (let io = io @ [EthApi (pending_transactions deps) (deps_is_authority deps) (deps_max_past_logs deps)];
          io = (case filter_pool deps of
                  Some pool \<Rightarrow> io @ [EthFilterApi pool 500 (deps_max_past_logs deps)]
                | None \<Rightarrow> io);
          io = io @ [NetApi True];
          io = io @ [Web3Api]
      in io @ [EthPubSubApi])"

definition create_full :: "full_deps \<Rightarrow> rpc_extension list" where
  "create_full deps =
     (let io = [];
          io = substrate_extensions deps io;
          io = ethereum_extensions deps io;
          io = (case command_sink deps of Some sink \<Rightarrow> io @ [ManualSealApi sink] | None \<Rightarrow> io)
      in io)"

definition create_light :: "rpc_extension list" where
  "create_light = [] @ [LightSystemApi]"

section \<open>Calls of the framework\<close>

record grandpa_config =
  gossip_duration_millis :: nat
  justification_period :: nat
  observer_enabled :: bool
  has_keystore :: bool
  grandpa_is_authority :: bool

datatype 'cmd node_step =
    CommandRun "'cmd subcommand" | CreateRunner 'cmd
  | NewFullParts | NewLightParts | OpenFrontierBackend "string list" | RegisterTimestamp
  | GrandpaBlockImport | BabeConfig | BabeBlockImport | ManualSealImportQueue | BabeImportQueue bool
  | GrandpaPeersSet | GrandpaWarpSync | BuildNetwork | OffchainWorkers
  | SpawnTasks "bool \<Rightarrow> rpc_extension list"
  | FilterPoolTask handle | PendingTransactionTask handle u64
  | StartupData | RunManualSeal handle | StartBabe | RunGrandpaVoter grandpa_config handle | StartNetwork
  | Spawn string bool

text \<open>The configuration the functions read, and the cargo feature \<open>cli\<close>.\<close>

record node_config =
  base_path_dir :: "string list option"
  project_dir :: "string list"
  is_authority :: bool
  is_network_authority :: bool
  is_light :: bool
  offchain_worker_enabled :: bool
  disable_grandpa :: bool
  feature_cli :: bool

type_synonym ('cmd, 'a, 'e) node_comp = "('cmd node_step list, 'a, 'e) comp"

text \<open>A call that cannot fail, and one whose outcome the environment gives (\<open>call()?\<close>).\<close>

definition did :: "'cmd node_step \<Rightarrow> ('cmd, unit, 'e) node_comp" where
  "did c = modify (\<lambda>tr. tr @ [c])"

definition try_call ::
  "('cmd node_step \<Rightarrow> (unit, 'e) result) \<Rightarrow> 'cmd node_step \<Rightarrow> ('cmd, unit, 'e) node_comp" where
  "try_call env c = and_then (did c) (\<lambda>_. lift (env c))"

definition when_do :: "bool \<Rightarrow> ('cmd, unit, 'e) node_comp \<Rightarrow> ('cmd, unit, 'e) node_comp" where
  "when_do b m = (if b then m else ok ())"

definition seq_steps :: "('cmd, unit, 'e) node_comp \<Rightarrow> ('cmd, 'a, 'e) node_comp \<Rightarrow> ('cmd, 'a, 'e) node_comp" where
  "seq_steps m n = and_then m (\<lambda>_. n)"

section \<open>The full node\<close>

text \<open>
  \<open>config_dir\<close> of the base path, or of the project directory when none is given,
  with the two components of the Frontier database appended.
\<close>

definition open_frontier_backend ::
  "('cmd node_step \<Rightarrow> (unit, 'e) result) \<Rightarrow> node_config \<Rightarrow> ('cmd, unit, 'e) node_comp" where
  "open_frontier_backend env config =
     (let config_dir = (case base_path_dir config of Some d \<Rightarrow> d | None \<Rightarrow> project_dir config);
          database_dir = (config_dir @ [''frontier'']) @ [''db'']
      in try_call env (OpenFrontierBackend database_dir))"

datatype import_queue = ManualSealQueue | BabeQueue

text \<open>
  \<open>rpc_builder\<close> is the closure that the service calls for every kind of connection,
  with the flag that denies unsafe calls.
\<close>

record partial_components =
  import_queue :: import_queue
  rpc_builder :: "bool \<Rightarrow> rpc_extension list"
  part_voter_state :: handle
  part_pending :: "handle option"
  part_filter_pool :: "handle option"
  commands_stream :: handle

definition rpc_extensions_builder ::
  "node_config \<Rightarrow> 'cmd cli \<Rightarrow> handle option \<Rightarrow> handle option \<Rightarrow> handle \<Rightarrow> handle \<Rightarrow>
   bool \<Rightarrow> rpc_extension list" where
  "rpc_extensions_builder config cl pending filters voters sink deny =
     create_full \<lparr>deny_unsafe = deny, deps_voter_state = voters, pending_transactions = pending,
       filter_pool = filters, deps_max_past_logs = max_past_logs (cli_run cl),
       deps_is_authority = is_authority config,
       command_sink = (if manual_seal (cli_run cl) then Some sink else None)\<rparr>"

definition new_partial ::
  "('cmd node_step \<Rightarrow> (unit, 'e) result) \<Rightarrow> node_config \<Rightarrow> 'cmd cli \<Rightarrow>
   ('cmd, partial_components, 'e) node_comp" where
  "new_partial env config cl =
     (let pending = Some (PendingTransactionMap 0); filters = Some (FilterPoolMap 1);
          manual = manual_seal (cli_run cl); (sink, stream) = (CommandChannel 2 1000, CommandChannel 2 1000);
          voters = VoterState 3
      in seq_steps (try_call env NewFullParts)
        (seq_steps (open_frontier_backend env config)
        (seq_steps (when_do manual (try_call env RegisterTimestamp))
        (seq_steps (try_call env GrandpaBlockImport)
        (seq_steps (try_call env BabeConfig)
        (seq_steps (try_call env BabeBlockImport)
        (seq_steps (if manual then did ManualSealImportQueue else try_call env (BabeImportQueue True))
        (ok \<lparr>import_queue = (if manual then ManualSealQueue else BabeQueue),
             rpc_builder = rpc_extensions_builder config cl pending filters voters sink,
             part_voter_state = voters, part_pending = pending, part_filter_pool = filters,
             commands_stream = stream\<rparr>))))))))"

text \<open>
  What follows the destructuring of the partial components: the network and the
  workers, the maintenance tasks of the Ethereum RPC, block authoring, the discovery
  of authorities, and finality.
\<close>

definition TRANSACTION_RETAIN_THRESHOLD :: u64 where
  "TRANSACTION_RETAIN_THRESHOLD = 15"

definition start_services ::
  "('cmd node_step \<Rightarrow> (unit, 'e) result) \<Rightarrow> node_config \<Rightarrow> partial_components \<Rightarrow>
   ('cmd, unit, 'e) node_comp" where
  "start_services env config parts =
     seq_steps (did GrandpaPeersSet)
    (seq_steps (when_do (feature_cli config) (did GrandpaWarpSync))
    (seq_steps (try_call env BuildNetwork)
    (seq_steps (when_do (offchain_worker_enabled config) (did OffchainWorkers))
    (seq_steps (did (Spawn ''frontier-mapping-sync-worker'' True))
    (try_call env (SpawnTasks (rpc_builder parts)))))))"

definition start_frontier_tasks :: "partial_components \<Rightarrow> ('cmd, unit, 'e) node_comp" where
  "start_frontier_tasks parts =
     seq_steps
       (case part_filter_pool parts of
          Some pool \<Rightarrow> seq_steps (did (FilterPoolTask pool)) (did (Spawn ''frontier-filter-pool'' True))
        | None \<Rightarrow> ok ())
       (case part_pending parts of
          Some pending \<Rightarrow>
            seq_steps (did (PendingTransactionTask pending TRANSACTION_RETAIN_THRESHOLD))
              (did (Spawn ''frontier-pending-transactions'' True))
        | None \<Rightarrow> ok ())"

definition start_authoring ::
  "('cmd node_step \<Rightarrow> (unit, 'e) result) \<Rightarrow> node_config \<Rightarrow> 'cmd cli \<Rightarrow> partial_components \<Rightarrow>
   ('cmd, unit, 'e) node_comp" where
  "start_authoring env config cl parts =
     when_do (is_authority config)
       (if manual_seal (cli_run cl)
        then seq_steps (did (RunManualSeal (commands_stream parts))) (did (Spawn ''manual-seal'' True))
        else seq_steps (try_call env StartBabe) (did (Spawn ''babe-proposer'' True)))"

definition start_authority_discovery :: "node_config \<Rightarrow> ('cmd, unit, 'e) node_comp" where
  "start_authority_discovery config =
     when_do (is_authority config) (did (Spawn ''authority-discovery-worker'' False))"

definition start_grandpa ::
  "('cmd node_step \<Rightarrow> (unit, 'e) result) \<Rightarrow> node_config \<Rightarrow> partial_components \<Rightarrow>
   ('cmd, unit, 'e) node_comp" where
  "start_grandpa env config parts =
     (let keystore = is_authority config;
          grandpa = \<lparr>gossip_duration_millis = 333, justification_period = 512,
                     observer_enabled = False, has_keystore = keystore,
                     grandpa_is_authority = is_network_authority config\<rparr>
      in when_do (\<not> disable_grandpa config)
           (seq_steps (try_call env (RunGrandpaVoter grandpa (part_voter_state parts)))
             (did (Spawn ''grandpa-voter'' True))))"

definition start_full ::
  "('cmd node_step \<Rightarrow> (unit, 'e) result) \<Rightarrow> node_config \<Rightarrow> 'cmd cli \<Rightarrow> partial_components \<Rightarrow>
   ('cmd, unit, 'e) node_comp" where
  "start_full env config cl parts =
     seq_steps (start_services env config parts)
    (seq_steps (start_frontier_tasks parts)
    (seq_steps (did StartupData)
    (seq_steps (start_authoring env config cl parts)
    (seq_steps (start_authority_discovery config)
    (seq_steps (start_grandpa env config parts)
    (did StartNetwork))))))"

definition new_full_base ::
  "('cmd node_step \<Rightarrow> (unit, 'e) result) \<Rightarrow> node_config \<Rightarrow> 'cmd cli \<Rightarrow> ('cmd, unit, 'e) node_comp" where
  "new_full_base env config cl =
     and_then (new_partial env config cl) (start_full env config cl)"

definition new_full ::
  "('cmd node_step \<Rightarrow> (unit, 'e) result) \<Rightarrow> node_config \<Rightarrow> 'cmd cli \<Rightarrow> ('cmd, unit, 'e) node_comp" where
  "new_full env config cl = and_then (new_full_base env config cl) ok"

section \<open>The light node\<close>

definition new_light_base ::
  "('cmd node_step \<Rightarrow> (unit, 'e) result) \<Rightarrow> node_config \<Rightarrow> ('cmd, unit, 'e) node_comp" where
  "new_light_base env config =
     seq_steps (try_call env NewLightParts)
    (seq_steps (try_call env GrandpaBlockImport)
    (seq_steps (try_call env BabeConfig)
    (seq_steps (try_call env BabeBlockImport)
    (seq_steps (try_call env (BabeImportQueue False))
    (seq_steps (try_call env BuildNetwork)
    (seq_steps (did StartNetwork)
    (seq_steps (when_do (offchain_worker_enabled config) (did OffchainWorkers))
    (try_call env (SpawnTasks (\<lambda>_. create_light))))))))))"

definition new_light ::
  "('cmd node_step \<Rightarrow> (unit, 'e) result) \<Rightarrow> node_config \<Rightarrow> ('cmd, unit, 'e) node_comp" where
  "new_light env config = and_then (new_light_base env config) ok"

section \<open>Running a command\<close>

text \<open>
  The runner of a command carries the configuration; a runner that cannot be
  created is an error. \<open>async_run\<close> builds the partial components first.
\<close>

definition with_runner ::
  "('cmd node_step \<Rightarrow> (unit, 'e) result) \<Rightarrow> 'cmd \<Rightarrow> ('cmd, unit, 'e) node_comp \<Rightarrow> ('cmd, unit, 'e) node_comp" where
  "with_runner env cmd body = seq_steps (try_call env (CreateRunner cmd)) body"

definition async_run ::
  "('cmd node_step \<Rightarrow> (unit, 'e) result) \<Rightarrow> node_config \<Rightarrow> 'cmd cli \<Rightarrow> 'cmd subcommand \<Rightarrow>
   ('cmd, unit, 'e) node_comp" where
  "async_run env config cl sub =
     and_then (new_partial env config cl) (\<lambda>parts. try_call env (CommandRun sub))"

definition run_cli ::
  "('cmd node_step \<Rightarrow> (unit, 'e) result) \<Rightarrow> ('cmd \<Rightarrow> node_config) \<Rightarrow> 'cmd cli \<Rightarrow> ('cmd, unit, 'e) node_comp" where
  "run_cli env config_of cl =
     (case cli_subcommand cl of
        Some (Key cmd) \<Rightarrow> try_call env (CommandRun (Key cmd))
      | Some (Sign cmd) \<Rightarrow> try_call env (CommandRun (Sign cmd))
      | Some (Verify cmd) \<Rightarrow> try_call env (CommandRun (Verify cmd))
      | Some (Vanity cmd) \<Rightarrow> try_call env (CommandRun (Vanity cmd))
      | Some (BuildSpec cmd) \<Rightarrow> with_runner env cmd (try_call env (CommandRun (BuildSpec cmd)))
      | Some (CheckBlock cmd) \<Rightarrow> with_runner env cmd (async_run env (config_of cmd) cl (CheckBlock cmd))
      | Some (ExportBlocks cmd) \<Rightarrow> with_runner env cmd (async_run env (config_of cmd) cl (ExportBlocks cmd))
      | Some (ExportState cmd) \<Rightarrow> with_runner env cmd (async_run env (config_of cmd) cl (ExportState cmd))
      | Some (ImportBlocks cmd) \<Rightarrow> with_runner env cmd (async_run env (config_of cmd) cl (ImportBlocks cmd))
      | Some (PurgeChain cmd) \<Rightarrow> with_runner env cmd (try_call env (CommandRun (PurgeChain cmd)))
      | Some (Revert cmd) \<Rightarrow> with_runner env cmd (async_run env (config_of cmd) cl (Revert cmd))
      | None \<Rightarrow>
          (let cmd = base (cli_run cl); config = config_of cmd
           in with_runner env cmd
                (if is_light config then new_light env config else new_full env config cl)))"

section \<open>The filter pool\<close>

text \<open>
  The pool maps filter ids to filters; \<open>at_block\<close> is the block a filter was
  installed at. The task walks over a clone of the pool and removes from the pool
  behind the lock; a poisoned lock is skipped. The sum is on \<open>u64\<close>.
\<close>

definition FILTER_RETAIN_THRESHOLD :: u64 where
  "FILTER_RETAIN_THRESHOLD = 100"

record 'f filter_item =
  at_block :: u64
  filter_rest :: 'f

fun drop_expired ::
  "u64 \<Rightarrow> ('k \<times> 'f filter_item) list \<Rightarrow> ('k \<rightharpoonup> 'f filter_item) \<Rightarrow> ('k \<rightharpoonup> 'f filter_item)" where
  "drop_expired imported_number [] locked = locked"
| "drop_expired imported_number ((k, v) # rest) locked =
     (let lifespan_limit = at_block v + FILTER_RETAIN_THRESHOLD
      in if lifespan_limit \<le> imported_number
         then drop_expired imported_number rest (locked(k := None))
         else drop_expired imported_number rest locked)"

record ('k, 'f) locked_pool =
  poisoned :: bool
  entries :: "('k \<times> 'f filter_item) list"

definition on_import :: "block_number \<Rightarrow> ('k, 'f) locked_pool \<Rightarrow> ('k, 'f) locked_pool" where
  "on_import number p =
     (if poisoned p then p
      else let imported_number = ucast number :: u64;
               kept = drop_expired imported_number (entries p) (map_of (entries p))
           in p\<lparr>entries := filter (\<lambda>(k, v). kept k \<noteq> None) (entries p)\<rparr>)"

section \<open>The calls of a successful start\<close>

text \<open>Specification: the calls in order, as a function of flags and configuration.\<close>

definition partial_calls :: "node_config \<Rightarrow> 'cmd cli \<Rightarrow> 'cmd node_step list" where
  "partial_calls config cl =
     [NewFullParts,
      OpenFrontierBackend ((case base_path_dir config of Some d \<Rightarrow> d | None \<Rightarrow> project_dir config)
        @ [''frontier'', ''db''])]
     @ (if manual_seal (cli_run cl) then [RegisterTimestamp] else [])
     @ [GrandpaBlockImport, BabeConfig, BabeBlockImport,
        if manual_seal (cli_run cl) then ManualSealImportQueue else BabeImportQueue True]"

definition full_extensions :: "node_config \<Rightarrow> 'cmd cli \<Rightarrow> bool \<Rightarrow> rpc_extension list" where
  "full_extensions config cl deny =
     [SystemApi deny, TransactionPaymentApi, ContractsApi, BabeApi deny, GrandpaApi (VoterState 3),
      SyncStateRpcApi deny,
      EthApi (Some (PendingTransactionMap 0)) (is_authority config) (max_past_logs (cli_run cl)),
      EthFilterApi (FilterPoolMap 1) 500 (max_past_logs (cli_run cl)), NetApi True, Web3Api, EthPubSubApi]
     @ (if manual_seal (cli_run cl) then [ManualSealApi (CommandChannel 2 1000)] else [])"

text \<open>The tasks a list of calls spawned, in order.\<close>

definition tasks :: "'cmd node_step list \<Rightarrow> string list" where
  "tasks tr = concat (map (\<lambda>c. case c of Spawn name _ \<Rightarrow> [name] | _ \<Rightarrow> []) tr)"

definition full_tasks :: "node_config \<Rightarrow> 'cmd cli \<Rightarrow> string list" where
  "full_tasks config cl =
     [''frontier-mapping-sync-worker'', ''frontier-filter-pool'', ''frontier-pending-transactions'']
     @ (if is_authority config
        then [if manual_seal (cli_run cl) then ''manual-seal'' else ''babe-proposer'',
              ''authority-discovery-worker'']
        else [])
     @ (if disable_grandpa config then [] else [''grandpa-voter''])"

text \<open>The calls after the partial components are built.\<close>

definition full_calls :: "node_config \<Rightarrow> 'cmd cli \<Rightarrow> 'cmd node_step list" where
  "full_calls config cl =
     [GrandpaPeersSet] @ (if feature_cli config then [GrandpaWarpSync] else [])
     @ [BuildNetwork] @ (if offchain_worker_enabled config then [OffchainWorkers] else [])
     @ [Spawn ''frontier-mapping-sync-worker'' True, SpawnTasks (full_extensions config cl),
        FilterPoolTask (FilterPoolMap 1), Spawn ''frontier-filter-pool'' True,
        PendingTransactionTask (PendingTransactionMap 0) 15, Spawn ''frontier-pending-transactions'' True,
        StartupData]
     @ (if is_authority config
        then (if manual_seal (cli_run cl)
              then [RunManualSeal (CommandChannel 2 1000), Spawn ''manual-seal'' True]
              else [StartBabe, Spawn ''babe-proposer'' True])
             @ [Spawn ''authority-discovery-worker'' False]
        else [])
     @ (if disable_grandpa config then []
        else [RunGrandpaVoter \<lparr>gossip_duration_millis = 333, justification_period = 512,
                observer_enabled = False, has_keystore = is_authority config,
                grandpa_is_authority = is_network_authority config\<rparr> (VoterState 3),
              Spawn ''grandpa-voter'' True])
     @ [StartNetwork]"

text \<open>A computation that only appends calls, all of which satisfy a predicate.\<close>

definition only :: "('cmd node_step \<Rightarrow> bool) \<Rightarrow> ('cmd, 'a, 'e) node_comp \<Rightarrow> bool" where
  "only P m \<longleftrightarrow> (\<forall>tr t r. m tr = (t, r) \<longrightarrow> (\<exists>cs. t = tr @ cs \<and> list_all P cs))"

text \<open>A computation that makes exactly the given calls whenever it succeeds.\<close>

definition makes :: "('cmd, 'a, 'e) node_comp \<Rightarrow> 'cmd node_step list \<Rightarrow> bool" where
  "makes m cs \<longleftrightarrow> (\<forall>tr t x. m tr = (t, Ok x) \<longrightarrow> t = tr @ cs)"

text \<open>One that opens the network as its last call when it succeeds and not at all when it fails.\<close>

definition opens_last :: "('cmd, 'a, 'e) node_comp \<Rightarrow> bool" where
  "opens_last m \<longleftrightarrow> (\<forall>tr t r. m tr = (t, r) \<longrightarrow> (\<exists>cs. StartNetwork \<notin> set cs \<and>
     t = tr @ cs @ (case r of Ok x \<Rightarrow> [StartNetwork] | Err e \<Rightarrow> [])))"

section \<open>A concrete node\<close>

definition demo_cli :: "nat cli" where
  "demo_cli = \<lparr>cli_subcommand = None,
               cli_run = \<lparr>base = 1, max_past_logs = 10000, manual_seal = True\<rparr>\<rparr>"

definition demo_node :: node_config where
  "demo_node = \<lparr>base_path_dir = Some [''data'', ''chains'', ''dev''], project_dir = [],
                is_authority = True, is_network_authority = True, is_light = False,
                offchain_worker_enabled = True, disable_grandpa = False, feature_cli = True\<rparr>"

definition demo_filters :: "(nat, unit) locked_pool" where
  "demo_filters = \<lparr>poisoned = False,
                entries = [(1, \<lparr>at_block = 5, filter_rest = ()\<rparr>), (2, \<lparr>at_block = 90, filter_rest = ()\<rparr>)]\<rparr>"

section \<open>Laws\<close>

lemma did_eq [simp]: "did c tr = (t, r) \<longleftrightarrow> t = tr @ [c] \<and> r = Ok ()"
  by (simp add: did_def)

lemma try_call_Ok [simp]: "try_call env c tr = (t, Ok x) \<longleftrightarrow> env c = Ok () \<and> t = tr @ [c]"
  by (auto simp: try_call_def)

lemma try_call_Err [simp]: "try_call env c tr = (t, Err e) \<longleftrightarrow> env c = Err e \<and> t = tr @ [c]"
  by (auto simp: try_call_def)

lemma seq_steps_Ok [simp]:
  "seq_steps m n tr = (t, Ok x) \<longleftrightarrow> (\<exists>u. m tr = (u, Ok ()) \<and> n u = (t, Ok x))"
  by (simp add: seq_steps_def)

lemma when_do_Ok [simp]:
  "when_do b m tr = (t, Ok x) \<longleftrightarrow> (if b then m tr = (t, Ok x) else t = tr)"
  by (simp add: when_do_def)

lemma new_partial_Ok:
  assumes "new_partial env config cl tr = (t, Ok parts)"
  shows "t = tr @ partial_calls config cl \<and>
    rpc_builder parts = full_extensions config cl \<and> part_voter_state parts = (VoterState 3) \<and>
    part_pending parts = Some (PendingTransactionMap 0) \<and> part_filter_pool parts = Some (FilterPoolMap 1) \<and>
    commands_stream parts = CommandChannel 2 1000 \<and>
    import_queue parts = (if manual_seal (cli_run cl) then ManualSealQueue else BabeQueue)"
  using assms
  by (auto simp: new_partial_def open_frontier_backend_def partial_calls_def
      rpc_extensions_builder_def create_full_def substrate_extensions_def ethereum_extensions_def
      full_extensions_def fun_eq_iff Let_def split: if_splits)

lemma tasks_simps [simp]:
  "tasks [] = []" "tasks (Spawn name b # tr) = name # tasks tr" "tasks (xs @ ys) = tasks xs @ tasks ys"
  by (simp_all add: tasks_def)

lemma tasks_partial_calls [simp]: "tasks (partial_calls config cl) = []"
  by (simp add: partial_calls_def tasks_def)

named_theorems only_rules "which calls the building blocks make"

lemma only_did [only_rules]: "P c \<Longrightarrow> only P (did c)"
  by (auto simp: only_def)

lemma only_ok [only_rules]: "only P (ok x)"
  by (auto simp: only_def)

lemma only_lift [only_rules]: "only P (lift r)"
  by (auto simp: only_def)

lemma only_and_then [only_rules]:
  assumes m: "only P m" and f: "\<And>x. only P (f x)"
  shows "only P (and_then m f)"
  unfolding only_def
proof (intro allI impI)
  fix tr t r
  assume run: "and_then m f tr = (t, r)"
  obtain u q where mq: "m tr = (u, q)" by fastforce
  then obtain cs where cs: "u = tr @ cs" "list_all P cs"
    using m by (auto simp: only_def)
  show "\<exists>cs. t = tr @ cs \<and> list_all P cs"
  proof (cases q)
    case (Ok x)
    with run mq have "f x u = (t, r)" by (simp add: and_then_def)
    with f [of x] obtain ds where "t = u @ ds" "list_all P ds" by (auto simp: only_def)
    with cs show ?thesis by (intro exI [of _ "cs @ ds"]) simp
  next
    case (Err e)
    with run mq cs show ?thesis by (auto simp: and_then_def)
  qed
qed

lemma only_try_call [only_rules]: "P c \<Longrightarrow> only P (try_call env c)"
  unfolding try_call_def by (intro only_rules)

lemma only_seq_steps [only_rules]: "only P m \<Longrightarrow> only P n \<Longrightarrow> only P (seq_steps m n)"
  unfolding seq_steps_def by (intro only_rules)

lemma only_when_do [only_rules]: "only P m \<Longrightarrow> only P (when_do b m)"
  unfolding when_do_def by (simp add: only_ok)

lemma only_if [only_rules]: "only P m \<Longrightarrow> only P n \<Longrightarrow> only P (if b then m else n)"
  by simp

lemma only_new_partial:
  assumes "\<And>c. (\<forall>cmd. c \<noteq> CommandRun cmd) \<Longrightarrow> c \<noteq> StartNetwork \<Longrightarrow> P c"
  shows "only P (new_partial env config cl)"
  unfolding new_partial_def open_frontier_backend_def Let_def prod.case
  by (intro only_rules assms) simp_all

lemma onlyD: "only P m \<Longrightarrow> m tr = (t, r) \<Longrightarrow> \<exists>cs. t = tr @ cs \<and> (\<forall>c\<in>set cs. P c)"
  unfolding only_def list_all_iff by blast

lemma opens_last_start: "opens_last (did StartNetwork)"
  by (simp add: opens_last_def)

lemma opens_last_and_then:
  assumes m: "only (\<lambda>c. c \<noteq> StartNetwork) m" and f: "\<And>x. opens_last (f x)"
  shows "opens_last (and_then m f)"
  unfolding opens_last_def
proof (intro allI impI)
  fix tr t r
  assume run: "and_then m f tr = (t, r)"
  obtain u q where mq: "m tr = (u, q)" by fastforce
  then obtain cs where cs: "u = tr @ cs" "StartNetwork \<notin> set cs"
    using onlyD [OF m] by blast
  show "\<exists>cs. StartNetwork \<notin> set cs \<and> t = tr @ cs @ (case r of Ok x \<Rightarrow> [StartNetwork] | Err e \<Rightarrow> [])"
  proof (cases q)
    case (Ok x)
    with run mq have "f x u = (t, r)" by (simp add: and_then_def)
    with f [of x] obtain ds where "StartNetwork \<notin> set ds"
      "t = u @ ds @ (case r of Ok x \<Rightarrow> [StartNetwork] | Err e \<Rightarrow> [])"
      unfolding opens_last_def by blast
    with cs show ?thesis by (intro exI [of _ "cs @ ds"]) simp
  next
    case (Err e)
    with run mq cs show ?thesis by (auto simp: and_then_def)
  qed
qed

lemma opens_last_seq_steps:
  "only (\<lambda>c. c \<noteq> StartNetwork) m \<Longrightarrow> opens_last n \<Longrightarrow> opens_last (seq_steps m n)"
  unfolding seq_steps_def by (rule opens_last_and_then)

lemma and_then_ok [simp]: "and_then m ok = m"
  by (auto simp: and_then_def ok_def fun_eq_iff split: prod.splits result.splits)

lemma only_option [only_rules]:
  "(\<And>x. only P (f x)) \<Longrightarrow> only P m \<Longrightarrow> only P (case v of Some x \<Rightarrow> f x | None \<Rightarrow> m)"
  by (cases v) simp_all

lemmas start_defs = start_services_def start_frontier_tasks_def start_authoring_def
  start_authority_discovery_def start_grandpa_def

lemma opens_last_new_full: "opens_last (new_full env config cl)"
  unfolding new_full_def new_full_base_def start_full_def start_defs Let_def and_then_ok
  by (intro opens_last_and_then opens_last_seq_steps opens_last_start only_rules only_new_partial)
    simp_all

named_theorems makes_rules "the calls the building blocks make when they succeed"

lemma makes_did [makes_rules]: "makes (did c) [c]"
  by (simp add: makes_def)

lemma makes_try_call [makes_rules]: "makes (try_call env c) [c]"
  by (simp add: makes_def)

lemma makes_seq_steps [makes_rules]:
  "makes m cs \<Longrightarrow> makes n ds \<Longrightarrow> makes (seq_steps m n) (cs @ ds)"
  by (fastforce simp: makes_def)

lemma makes_when_do [makes_rules]: "makes m cs \<Longrightarrow> makes (when_do b m) (if b then cs else [])"
  by (simp add: makes_def)

lemma makes_if [makes_rules]:
  "makes m cs \<Longrightarrow> makes n ds \<Longrightarrow> makes (if b then m else n) (if b then cs else ds)"
  by simp

lemma makes_eq: "makes m cs \<Longrightarrow> cs = ds \<Longrightarrow> makes m ds"
  by simp

lemma makes_start_full:
  assumes "rpc_builder parts = full_extensions config cl" and "part_voter_state parts = (VoterState 3)"
    and "part_pending parts = Some (PendingTransactionMap 0)" and "part_filter_pool parts = Some (FilterPoolMap 1)"
    and "commands_stream parts = CommandChannel 2 1000"
  shows "makes (start_full env config cl parts) (full_calls config cl)"
  unfolding start_full_def start_defs assms option.case Let_def
  by (rule makes_eq, (rule makes_rules)+) (simp add: full_calls_def TRANSACTION_RETAIN_THRESHOLD_def)

lemma new_full_Ok:
  assumes "new_full env config cl [] = (t, Ok ())"
  shows "t = partial_calls config cl @ full_calls config cl"
proof -
  obtain u parts where p: "new_partial env config cl [] = (u, Ok parts)"
      and s: "start_full env config cl parts u = (t, Ok ())"
    using assms by (auto simp: new_full_def new_full_base_def)
  from new_partial_Ok [OF p] have u: "u = partial_calls config cl"
    and "makes (start_full env config cl parts) (full_calls config cl)"
    by (simp_all add: makes_start_full)
  with s show ?thesis by (simp add: makes_def)
qed

lemma tasks_full_calls [simp]: "tasks (full_calls config cl) = full_tasks config cl"
  by (simp add: full_calls_def full_tasks_def tasks_def)

text \<open>The loop removes exactly the expired entries of the clone.\<close>

lemma drop_expired_eq:
  "drop_expired n es m k =
     (if \<exists>v. (k, v) \<in> set es \<and> at_block v + FILTER_RETAIN_THRESHOLD \<le> n then None else m k)"
  by (induction es arbitrary: m) (auto simp: Let_def)

lemma on_import_entries:
  assumes "\<not> poisoned p" and "distinct (map fst (entries p))"
  shows "entries (on_import n p) =
    filter (\<lambda>(k, v). \<not> at_block v + FILTER_RETAIN_THRESHOLD \<le> ucast n) (entries p)"
proof -
  have "drop_expired m (entries p) (map_of (entries p)) k \<noteq> None \<longleftrightarrow>
      \<not> at_block v + FILTER_RETAIN_THRESHOLD \<le> m" if "(k, v) \<in> set (entries p)" for k v m
    using that assms(2) by (auto simp: drop_expired_eq dest: eq_key_imp_eq_value)
  with assms(1) show ?thesis
    by (auto simp: on_import_def Let_def intro!: filter_cong)
qed

lemma on_import_keeps:
  "poisoned (on_import n p) = poisoned p"
  "distinct (map fst (entries p)) \<Longrightarrow> distinct (map fst (entries (on_import n p)))"
  by (auto simp: on_import_def Let_def distinct_map_filter)

lemma run_on_import:
  "\<not> poisoned p \<Longrightarrow> distinct (map fst (entries p)) \<Longrightarrow>
   entries (run on_import ns p) =
     filter (\<lambda>(k, v). \<forall>n\<in>set ns. \<not> at_block v + FILTER_RETAIN_THRESHOLD \<le> ucast n) (entries p)"
proof (induction ns arbitrary: p)
  case Nil
  show ?case by (simp add: run_def)
next
  case (Cons n ns)
  have "entries (run on_import (n # ns) p) = entries (run on_import ns (on_import n p))"
    by (simp add: run_def)
  also have "\<dots> = filter (\<lambda>(k, v). \<forall>n\<in>set ns. \<not> at_block v + FILTER_RETAIN_THRESHOLD \<le> ucast n)
      (entries (on_import n p))"
    using Cons by (simp add: on_import_keeps)
  finally show ?case
    using Cons.prems by (auto simp: on_import_entries case_prod_beta' intro!: filter_cong)
qed

lemma limit_reached:
  assumes "unat a + 100 < 2 ^ 64"
  shows "a + FILTER_RETAIN_THRESHOLD \<le> ucast n \<longleftrightarrow> unat a + 100 \<le> unat (n :: block_number)"
  using assms unsigned_less [of n, where 'a = nat]
  by (simp add: word_le_nat_alt FILTER_RETAIN_THRESHOLD_def unat_add_fits unat_ucast_fits)

section \<open>Properties\<close>

text \<open>
  Starting the full node opens the network as the very last call, and only
  when every call before it succeeded: a start that fails never opens it.
\<close>

theorem full_node_network_last:
  "case new_full env config cl [] of
     (t, Ok x) \<Rightarrow> (\<exists>cs. t = cs @ [StartNetwork] \<and> StartNetwork \<notin> set cs)
   | (t, Err e) \<Rightarrow> StartNetwork \<notin> set t"
proof -
  obtain t r where run: "new_full env config cl [] = (t, r)" by fastforce
  with opens_last_new_full obtain cs where "StartNetwork \<notin> set cs"
    "t = cs @ (case r of Ok x \<Rightarrow> [StartNetwork] | Err e \<Rightarrow> [])"
    unfolding opens_last_def by fastforce
  with run show ?thesis by (auto split: result.splits)
qed

text \<open>
  C36. A successful start of the full node spawns exactly the tasks the
  configuration asks for, in that order: an authority runs either the manual-seal
  task or the BABE proposer, never both, according to the flag that also selects
  the import queue and the presence of the manual-seal RPC. Each task works on the
  object the RPC serves: the filters that are expired, the pending transactions that
  are dropped, the voter whose state is reported, and the commands that seal blocks.
  Every extension with unsafe calls is given the flag that denies them. A node that
  is not an authority exposes the manual-seal RPC under the flag although no task
  reads its commands.
\<close>

theorem full_node_tasks:
  assumes "new_full env config cl [] = (t, Ok ())"
  shows "tasks t = full_tasks config cl \<and>
    (''manual-seal'' \<in> set (tasks t) \<longleftrightarrow> is_authority config \<and> manual_seal (cli_run cl)) \<and>
    (''babe-proposer'' \<in> set (tasks t) \<longleftrightarrow> is_authority config \<and> \<not> manual_seal (cli_run cl)) \<and>
    (ManualSealImportQueue \<in> set t \<longleftrightarrow> manual_seal (cli_run cl)) \<and>
    (\<exists>io pool pending voters sink. SpawnTasks io \<in> set t \<and>
       (\<forall>deny. EthFilterApi pool 500 (max_past_logs (cli_run cl)) \<in> set (io deny) \<and>
          EthApi (Some pending) (is_authority config) (max_past_logs (cli_run cl)) \<in> set (io deny) \<and>
          GrandpaApi voters \<in> set (io deny) \<and>
          (ManualSealApi sink \<in> set (io deny) \<longleftrightarrow> manual_seal (cli_run cl)) \<and>
          (\<forall>d. SystemApi d \<in> set (io deny) \<or> BabeApi d \<in> set (io deny) \<or> SyncStateRpcApi d \<in> set (io deny)
             \<longleftrightarrow> d = deny)) \<and>
       FilterPoolTask pool \<in> set t \<and> PendingTransactionTask pending 15 \<in> set t \<and>
       (disable_grandpa config \<or> (\<exists>g. RunGrandpaVoter g voters \<in> set t)) \<and>
       (RunManualSeal sink \<in> set t \<longleftrightarrow> ''manual-seal'' \<in> set (tasks t)))"
proof -
  have t: "t = partial_calls config cl @ full_calls config cl"
    using assms by (rule new_full_Ok)
  then have "tasks t = full_tasks config cl" by simp
  moreover have "ManualSealImportQueue \<in> set t \<longleftrightarrow> manual_seal (cli_run cl)"
    by (simp add: t partial_calls_def full_calls_def)
  moreover have "SpawnTasks (full_extensions config cl) \<in> set t" "FilterPoolTask (FilterPoolMap 1) \<in> set t"
    "PendingTransactionTask (PendingTransactionMap 0) 15 \<in> set t"
    "disable_grandpa config \<or> (\<exists>g. RunGrandpaVoter g (VoterState 3) \<in> set t)"
    "RunManualSeal (CommandChannel 2 1000) \<in> set t \<longleftrightarrow> is_authority config \<and> manual_seal (cli_run cl)"
    by (auto simp: t partial_calls_def full_calls_def)
  moreover have "''manual-seal'' \<in> set (full_tasks config cl) \<longleftrightarrow> is_authority config \<and> manual_seal (cli_run cl)"
    "''babe-proposer'' \<in> set (full_tasks config cl) \<longleftrightarrow> is_authority config \<and> \<not> manual_seal (cli_run cl)"
    by (auto simp: full_tasks_def)
  ultimately show ?thesis
    by (simp, intro exI [of _ "full_extensions config cl"] exI [of _ "FilterPoolMap 1"]
        exI [of _ "PendingTransactionMap 0"] exI [of _ "VoterState 3"] exI [of _ "CommandChannel 2 1000"])
      (auto simp: full_extensions_def)
qed

theorem full_node_tasks_witness:
  "\<exists>t. new_full (\<lambda>c. Ok () :: (unit, unit) result) demo_node demo_cli [] = (t, Ok ()) \<and>
     tasks t = [''frontier-mapping-sync-worker'', ''frontier-filter-pool'',
                ''frontier-pending-transactions'', ''manual-seal'', ''authority-discovery-worker'',
                ''grandpa-voter''] \<and>
     ''babe-proposer'' \<notin> set (tasks t)"
proof -
  obtain t r where run: "new_full (\<lambda>c. Ok () :: (unit, unit) result) demo_node demo_cli [] = (t, r)"
    by fastforce
  then have ok: "r = Ok ()"
    by (auto simp: new_full_def new_full_base_def start_full_def start_defs new_partial_def open_frontier_backend_def
        seq_steps_def when_do_def try_call_def did_def comp_eval Let_def demo_node_def demo_cli_def)
  from run ok full_node_tasks [of "\<lambda>c. Ok ()" demo_node demo_cli t]
  show ?thesis by (auto simp: full_tasks_def demo_node_def demo_cli_def)
qed

text \<open>
  Only the plain run opens the network, and a framework command runs only if
  it is the one given: whatever the framework answers, the calls made for a
  subcommand contain no other command and never open the network.
\<close>

theorem subcommand_stays_offline:
  assumes "run_cli env config_of cl [] = (t, r)" and "cli_subcommand cl = Some sub"
  shows "StartNetwork \<notin> set t \<and> (\<forall>cmd. CommandRun cmd \<in> set t \<longrightarrow> cmd = sub)"
proof -
  let ?P = "\<lambda>c. c \<noteq> StartNetwork \<and> (\<forall>cmd. c = CommandRun cmd \<longrightarrow> cmd = sub)"
  have "only ?P (run_cli env config_of cl)"
    using assms(2)
    by (cases sub)
      (auto simp: run_cli_def with_runner_def async_run_def intro!: only_rules only_new_partial)
  from onlyD [OF this assms(1)] show ?thesis by auto
qed

theorem subcommand_stays_offline_witness:
  "run_cli (\<lambda>c. Ok () :: (unit, unit) result) (\<lambda>_. demo_node)
     (demo_cli\<lparr>cli_subcommand := Some (PurgeChain 4)\<rparr>) [] =
     ([CreateRunner 4, CommandRun (PurgeChain 4)], Ok ()) \<and>
   StartNetwork \<notin> set [CreateRunner (4::nat), CommandRun (PurgeChain 4)]"
proof -
  have "run_cli (\<lambda>c. Ok () :: (unit, unit) result) (\<lambda>_. demo_node)
      (demo_cli\<lparr>cli_subcommand := Some (PurgeChain 4)\<rparr>) [] =
    ([CreateRunner 4, CommandRun (PurgeChain 4)], Ok ())"
    by (simp add: run_cli_def with_runner_def)
  with subcommand_stays_offline [OF this, of "PurgeChain 4"] show ?thesis by simp
qed

text \<open>
  C37. A filter installed at block \<open>b\<close> stays in the pool exactly until a block of
  number at least \<open>b + 100\<close> is imported, over every sequence of imports; the other
  filters are not affected.
\<close>

theorem filter_lifetime:
  assumes "\<not> poisoned p" and "distinct (map fst (entries p))"
    and "(k, v) \<in> set (entries p)" and "unat (at_block v) + 100 < 2 ^ 64"
  shows "map_of (entries (run on_import ns p)) k = Some v \<longleftrightarrow>
    (\<forall>n. n \<in> set ns \<longrightarrow> unat n < unat (at_block v) + 100)"
proof -
  let ?es = "entries (run on_import ns p)"
  have es: "?es = filter (\<lambda>(k, v). \<forall>n\<in>set ns. \<not> at_block v + FILTER_RETAIN_THRESHOLD \<le> ucast n) (entries p)"
    using assms(1,2) by (rule run_on_import)
  then have "distinct (map fst ?es)" using assms(2) by (simp add: distinct_map_filter)
  then have "map_of ?es k = Some v \<longleftrightarrow> (k, v) \<in> set ?es" by (rule map_of_eq_Some_iff)
  moreover have "(k, v) \<in> set ?es \<longleftrightarrow>
      (\<forall>n\<in>set ns. \<not> at_block v + FILTER_RETAIN_THRESHOLD \<le> ucast n)"
    using assms(3) by (simp add: es)
  ultimately show ?thesis
    unfolding limit_reached [OF assms(4)] not_le by blast
qed

theorem filter_lifetime_witness:
  "map_of (entries (run on_import [104, 50] demo_filters)) 1 = Some \<lparr>at_block = 5, filter_rest = ()\<rparr> \<and>
   map_of (entries (run on_import [104, 105] demo_filters)) 1 \<noteq> Some \<lparr>at_block = 5, filter_rest = ()\<rparr>"
  using filter_lifetime [of demo_filters 1 "\<lparr>at_block = 5, filter_rest = ()\<rparr>" "[104, 50]"]
    filter_lifetime [of demo_filters 1 "\<lparr>at_block = 5, filter_rest = ()\<rparr>" "[104, 105]"]
  by (simp add: demo_filters_def)

end
