(* ===== verification/Chain_Spec.thy ===== *)
theory Chain_Spec
  imports Runtime_Config Node
begin

text \<open>
  \<^verbatim>\<open>node/src/chain_spec.rs\<close>: the chain specifications a node can be started with and
  the genesis state they build.

  Parameters (\<open>spec_library\<close>): the derivation of a public key from a secret string,
  the account of a public key, the parsers of addresses and of network addresses,
  the telemetry constructor and the runtime's wasm code. \<open>unwrap\<close> and \<open>expect\<close> are
  panics. The genesis of a specification is a closure: it is built when the chain is,
  so that its panics are not those of the specification.

  The lemmas show when a genesis is well formed, that is acceptable to the balances,
  staking and session pallets, and that those of all four specifications are.
\<close>

section \<open>Keys\<close>

type_synonym public_key = "32 bytes"

datatype key_type = AccountKey | BabeKey | GrandpaKey | ImOnlineKey | DiscoveryKey

record ('m, 'tel) spec_library =
  public_from_string :: "key_type \<Rightarrow> string \<Rightarrow> public_key option"
  public_into_account :: "public_key \<Rightarrow> account_id"
  parse_h160 :: "string \<Rightarrow> h160 option"
  parse_multiaddr :: "string \<Rightarrow> 'm option"
  telemetry_new :: "(string \<times> nat) list \<Rightarrow> 'tel option"
  wasm_binary :: "u8 list option"

text \<open>Sequencing of calls that may panic.\<close>

fun panic_bind :: "'a may_panic \<Rightarrow> ('a \<Rightarrow> 'b may_panic) \<Rightarrow> 'b may_panic" where
  "panic_bind Panics f = Panics"
| "panic_bind (Returns x) f = f x"

fun panic_all :: "'a may_panic list \<Rightarrow> 'a list may_panic" where
  "panic_all [] = Returns []"
| "panic_all (m # ms) = panic_bind m (\<lambda>x. panic_bind (panic_all ms) (\<lambda>xs. Returns (x # xs)))"

definition unwrap_opt :: "'a option \<Rightarrow> 'a may_panic" where
  "unwrap_opt x = (case x of None \<Rightarrow> Panics | Some y \<Rightarrow> Returns y)"

record session_keys_record =
  sk_grandpa :: public_key
  sk_babe :: public_key
  sk_im_online :: public_key
  sk_authority_discovery :: public_key

definition session_keys :: "public_key \<Rightarrow> public_key \<Rightarrow> public_key \<Rightarrow> public_key \<Rightarrow> session_keys_record" where
  "session_keys grandpa babe im_online authority_discovery =
     \<lparr>sk_grandpa = grandpa, sk_babe = babe, sk_im_online = im_online,
      sk_authority_discovery = authority_discovery\<rparr>"

definition get_from_seed :: "('m, 'tel) spec_library \<Rightarrow> key_type \<Rightarrow> string \<Rightarrow> public_key may_panic" where
  "get_from_seed L k seed = unwrap_opt (public_from_string L k (''//'' @ seed))"

definition get_account_id_from_seed :: "('m, 'tel) spec_library \<Rightarrow> string \<Rightarrow> account_id may_panic" where
  "get_account_id_from_seed L seed =
     panic_bind (get_from_seed L AccountKey seed) (\<lambda>p. Returns (public_into_account L p))"

text \<open>Stash, controller, and the four session keys.\<close>

type_synonym authority = "account_id \<times> account_id \<times> public_key \<times> public_key \<times> public_key \<times> public_key"

definition authority_keys_from_seed :: "('m, 'tel) spec_library \<Rightarrow> string \<Rightarrow> authority may_panic" where
  "authority_keys_from_seed L s =
     panic_bind (get_account_id_from_seed L (s @ ''//stash'')) (\<lambda>stash.
     panic_bind (get_account_id_from_seed L s) (\<lambda>controller.
     panic_bind (get_from_seed L BabeKey s) (\<lambda>babe.
     panic_bind (get_from_seed L GrandpaKey s) (\<lambda>grandpa.
     panic_bind (get_from_seed L ImOnlineKey s) (\<lambda>im_online.
     panic_bind (get_from_seed L DiscoveryKey s) (\<lambda>discovery.
     Returns (stash, controller, babe, grandpa, im_online, discovery)))))))"

section \<open>Endowed EVM accounts\<close>

record genesis_account =
  ga_nonce :: u256
  ga_balance :: u256
  ga_storage :: "u256 \<rightharpoonup> u256"
  ga_code :: "u8 list"

text \<open>The loop that inserts one entry per address.\<close>

fun insert_endowed :: "h160 list \<Rightarrow> (h160 \<rightharpoonup> genesis_account) \<Rightarrow> (h160 \<rightharpoonup> genesis_account)" where
  "insert_endowed [] evm_accounts = evm_accounts"
| "insert_endowed (account # rest) evm_accounts =
     insert_endowed rest (evm_accounts(account \<mapsto>
       \<lparr>ga_nonce = 0, ga_balance = ucast (1000 * DOLLARS), ga_storage = Map.empty, ga_code = []\<rparr>))"

definition get_endowed_evm_accounts :: "h160 list \<Rightarrow> (h160 \<rightharpoonup> genesis_account)" where
  "get_endowed_evm_accounts endowed_account = insert_endowed endowed_account Map.empty"

definition endowed_evm_account :: "('m, 'tel) spec_library \<Rightarrow> (h160 \<rightharpoonup> genesis_account) may_panic" where
  "endowed_evm_account L =
     panic_bind (panic_all (map (\<lambda>a. unwrap_opt (parse_h160 L a))
       [''9157f0316f375e4ccf67f8d21ae0881d0abcbb21'']))
     (\<lambda>endowed_account. Returns (get_endowed_evm_accounts endowed_account))"

definition dev_endowed_evm_accounts :: "('m, 'tel) spec_library \<Rightarrow> (h160 \<rightharpoonup> genesis_account) may_panic" where
  "dev_endowed_evm_accounts L =
     panic_bind (panic_all (map (\<lambda>a. unwrap_opt (parse_h160 L a))
       [''6be02d1d3665660d22ff9624b7be0551ee1ac91b'',
        ''e6206C7f064c7d77C6d8e3eD8601c9AA435419cE'',
        ''aed40f2261ba43b4dffe484265ce82d8ffe2b4db'']))
     (\<lambda>endowed_account. Returns (get_endowed_evm_accounts endowed_account))"

section \<open>The genesis state\<close>

datatype staker_status = Validator

record staking_genesis =
  validator_count :: u32
  minimum_validator_count :: u32
  stakers :: "(account_id \<times> account_id \<times> balance \<times> staker_status) list"
  invulnerables :: "account_id list"
  slash_reward_fraction :: ratio

text \<open>The configurations that are not the default of their pallet.\<close>

record genesis_config =
  g_code :: "u8 list"
  g_balances :: "(account_id \<times> balance) list"
  g_enable_println :: bool
  g_evm_accounts :: "h160 \<rightharpoonup> genesis_account"
  g_indices :: "account_id list"
  g_session_keys :: "(account_id \<times> account_id \<times> session_keys_record) list"
  g_staking :: staking_genesis
  g_babe_authorities :: "public_key list"
  g_grandpa_authorities :: "public_key list"
  g_discovery_keys :: "public_key list"
  g_sudo :: account_id

definition ENDOWMENT :: balance where
  "ENDOWMENT = 1000 * DOLLARS"

definition STASH :: balance where
  "STASH = 100 * DOLLARS"

definition AUTHOR_BALANCE :: balance where
  "AUTHOR_BALANCE = 200 * DOLLARS"

definition testnet_genesis ::
  "u8 list \<Rightarrow> authority list \<Rightarrow> account_id \<Rightarrow> account_id list \<Rightarrow> bool \<Rightarrow>
   (h160 \<rightharpoonup> genesis_account) \<Rightarrow> genesis_config" where
  "testnet_genesis wasm initial_authorities root_key endowed_accounts enable_println_arg
     endowed_eth_accounts =
     (let enable_println = True
      in \<lparr>g_code = wasm,
          g_balances = map (\<lambda>k. (k, ENDOWMENT)) endowed_accounts
            @ map (\<lambda>x. (fst x, AUTHOR_BALANCE)) initial_authorities,
          g_enable_println = enable_println,
          g_evm_accounts = endowed_eth_accounts,
          g_indices = [],
          g_session_keys = map (\<lambda>(stash, controller, babe, grandpa, im_online, discovery).
            (stash, stash, session_keys grandpa babe im_online discovery)) initial_authorities,
          g_staking =
            \<lparr>validator_count = of_nat (length initial_authorities),
             minimum_validator_count = of_nat (length initial_authorities),
             stakers = map (\<lambda>x. (fst x, fst (snd x), STASH, Validator)) initial_authorities,
             invulnerables = map fst initial_authorities,
             slash_reward_fraction = from_percent 10\<rparr>,
          g_babe_authorities = [],
          g_grandpa_authorities = [],
          g_discovery_keys = [],
          g_sudo = root_key\<rparr>)"

section \<open>Chain specifications\<close>

datatype chain_type = DevelopmentChain | LocalChain | Custom string

datatype json_value = JNumber nat | JString string

record ('m, 'tel) chain_spec =
  spec_name :: string
  spec_id :: string
  spec_type :: chain_type
  spec_genesis :: "genesis_config may_panic"
  spec_bootnodes :: "'m list"
  spec_telemetry :: "'tel option"
  spec_protocol :: "string option"
  spec_properties :: "(string \<times> json_value) list"

definition TELEMETRY_URL :: string where
  "TELEMETRY_URL = ''wss://telemetry.polkadot.io/submit/''"

definition token_properties :: "(string \<times> json_value) list" where
  "token_properties = [(''tokenDecimals'', JNumber 18), (''tokenSymbol'', JString ''CLV'')]"

text \<open>\<open>WASM_BINARY.ok_or(\<dots>)?\<close>.\<close>

definition with_wasm ::
  "('m, 'tel) spec_library \<Rightarrow> (u8 list \<Rightarrow> ('a, string) result may_panic) \<Rightarrow> ('a, string) result may_panic" where
  "with_wasm L f =
     (case wasm_binary L of
        None \<Rightarrow> Returns (Err ''Development wasm binary not available'')
      | Some wasm \<Rightarrow> f wasm)"

text \<open>The value of a \<open>hex!\<close> literal of 32 bytes.\<close>

definition hex32 :: "string \<Rightarrow> 32 bytes" where
  "hex32 s = Bytes (hex_literal s)"

definition development_config ::
  "('m, 'tel) spec_library \<Rightarrow> (('m, 'tel) chain_spec, string) result may_panic" where
  "development_config L = with_wasm L (\<lambda>wasm. Returns (Ok
     \<lparr>spec_name = ''Development'', spec_id = ''dev'', spec_type = DevelopmentChain,
      spec_genesis =
        panic_bind (panic_all (map (authority_keys_from_seed L) [''Alice''])) (\<lambda>authorities.
        panic_bind (get_account_id_from_seed L ''Alice'') (\<lambda>root.
        panic_bind (panic_all (map (get_account_id_from_seed L)
          [''Alice'', ''Bob'', ''Bob//stash''])) (\<lambda>endowed.
        panic_bind (dev_endowed_evm_accounts L) (\<lambda>evm.
        Returns (testnet_genesis wasm authorities root endowed True evm))))),
      spec_bootnodes = [], spec_telemetry = None, spec_protocol = Some ''cloverlocal'',
      spec_properties = token_properties\<rparr>))"

definition local_testnet_config ::
  "('m, 'tel) spec_library \<Rightarrow> (('m, 'tel) chain_spec, string) result may_panic" where
  "local_testnet_config L = with_wasm L (\<lambda>wasm. Returns (Ok
     \<lparr>spec_name = ''Clover'', spec_id = ''local_testnet'', spec_type = LocalChain,
      spec_genesis =
        panic_bind (panic_all (map (authority_keys_from_seed L) [''Alice'', ''Bob''])) (\<lambda>authorities.
        panic_bind (get_account_id_from_seed L ''Alice'') (\<lambda>root.
        panic_bind (panic_all (map (get_account_id_from_seed L)
          [''Alice'', ''Bob'', ''Charlie'', ''Dave'', ''Eve'', ''Ferdie'',
           ''Charlie//stash'', ''Dave//stash'', ''Eve//stash'', ''Ferdie//stash''])) (\<lambda>endowed.
        panic_bind (endowed_evm_account L) (\<lambda>evm.
        Returns (testnet_genesis wasm authorities root endowed True evm))))),
      spec_bootnodes = [], spec_telemetry = None, spec_protocol = Some ''cloverlocal'',
      spec_properties = token_properties\<rparr>))"

definition local_rose_testnet_config ::
  "('m, 'tel) spec_library \<Rightarrow> (('m, 'tel) chain_spec, string) result may_panic" where
  "local_rose_testnet_config L = with_wasm L (\<lambda>wasm.
     panic_bind (panic_all (map (\<lambda>a. unwrap_opt (parse_multiaddr L a))
       [''/dns/seed1.rose-cc2.clovernode.com/tcp/30333/p2p/12D3KooWPb5VY3dzydLFVh4Bn8sk73QvicvVoYcHQawRgicuMNwJ'',
        ''/dns/seed2.rose-cc2.clovernode.com/tcp/30333/p2p/12D3KooWG4jPV345wrEE23tdRh69i9YH5BtSo8RhToPj4fTaJgkZ''])) (\<lambda>boot_nodes.
     Returns (Ok
       \<lparr>spec_name = ''Clover'', spec_id = ''rose'', spec_type = Custom ''rose'',
        spec_genesis =
          panic_bind (endowed_evm_account L) (\<lambda>evm.
          Returns (testnet_genesis wasm
       [(hex32 ''222c5fa244583b1734ceb6515916efc5e103f65b869ebec4e56b989d9dbb446e'', hex32 ''222c5fa244583b1734ceb6515916efc5e103f65b869ebec4e56b989d9dbb446e'',
         hex32 ''005b5b120aabe29673ca587a738ff1032437a388b006b51a9d6ea16f3dee6349'', hex32 ''6575c1155089f6653206ffa533757ef71a9efb2738fb86bcc89128b1517788c0'',
         hex32 ''f8bc696eadcba0561c7a19af387b11f7db04e1d6457d344aa626476d6152a612'', hex32 ''64f317d45163a8b4c1960c60550ea1f70506768a96eac2881f7805b9141d1b11''),
        (hex32 ''9235b080b6ca2e7b2a7af7a46ac4f677bfa394e29d83611324046c38eb14ee49'', hex32 ''9235b080b6ca2e7b2a7af7a46ac4f677bfa394e29d83611324046c38eb14ee49'',
         hex32 ''dcb5d89f40d57b9da9cd1f677c789584e4e88e1cdfd7a91d561757e23e73aa45'', hex32 ''c7925c95410d4ad451f9bc995852127f169bef4fd75f2c23f9472620ddd59f91'',
         hex32 ''14e2ecd186552e1dfb1f2d5233657b69e0b398d7ec405bb68071ee19d3009f04'', hex32 ''e404b380c6bd7ab0577a5e6809a3338d28d191137e7581bdd23eb3e893ca9e6a''),
        (hex32 ''ec0dc859299bcc7146d9ba74956ff67334454e23c0d9fd3e55302f94b09a742b'', hex32 ''ec0dc859299bcc7146d9ba74956ff67334454e23c0d9fd3e55302f94b09a742b'',
         hex32 ''c08908eb1a58eb1df74e54415cdd4977c20023cc7f5dff771c38f26491367b6e'', hex32 ''0ec2a175b1efc3835a8d1497f914ef39ec4ba0ea7a60cf4cb440586fa74fcd99'',
         hex32 ''f49fda7f7db9af41fd4095a7bf37745e4cc30f9b592c1563ecc5fe2292e9f309'', hex32 ''e0520566773304de5fd0d448b0ca76b6a2c7edd66d90b4dba36785e64ba65949'')]
            (hex32 ''0e42eb6f65a8ef5e3f3c3cdb5b2c3be646e791abd76e2224d5847cde786b2e01'')
            [hex32 ''0e42eb6f65a8ef5e3f3c3cdb5b2c3be646e791abd76e2224d5847cde786b2e01'']
            True evm)),
        spec_bootnodes = boot_nodes,
        spec_telemetry = telemetry_new L [(TELEMETRY_URL, 0)],
        spec_protocol = Some ''rose'', spec_properties = token_properties\<rparr>)))"

definition iris_testnet_config ::
  "('m, 'tel) spec_library \<Rightarrow> (('m, 'tel) chain_spec, string) result may_panic" where
  "iris_testnet_config L = with_wasm L (\<lambda>wasm.
     panic_bind (panic_all (map (\<lambda>a. unwrap_opt (parse_multiaddr L a))
       [''/dns/seed1.iris-cc2.clover.finance/tcp/30333/p2p/12D3KooWFtshqoFL1hAwseGc4WuFeREKicjFR15JiVEaJiHnDvn2'',
        ''/dns/seed2.iris-cc2.clover.finance/tcp/30333/p2p/12D3KooWBcU1EShS2azLwQhKVKyeXU2cc3CWyhuN8wJwEKaRVNe8''])) (\<lambda>boot_nodes.
     Returns (Ok
       \<lparr>spec_name = ''Clover'', spec_id = ''iris'', spec_type = Custom ''iris'',
        spec_genesis =
          panic_bind (endowed_evm_account L) (\<lambda>evm.
          Returns (testnet_genesis wasm
       [(hex32 ''222c5fa244583b1734ceb6515916efc5e103f65b869ebec4e56b989d9dbb446e'', hex32 ''222c5fa244583b1734ceb6515916efc5e103f65b869ebec4e56b989d9dbb446e'',
         hex32 ''005b5b120aabe29673ca587a738ff1032437a388b006b51a9d6ea16f3dee6349'', hex32 ''6575c1155089f6653206ffa533757ef71a9efb2738fb86bcc89128b1517788c0'',
         hex32 ''f8bc696eadcba0561c7a19af387b11f7db04e1d6457d344aa626476d6152a612'', hex32 ''64f317d45163a8b4c1960c60550ea1f70506768a96eac2881f7805b9141d1b11''),
        (hex32 ''9235b080b6ca2e7b2a7af7a46ac4f677bfa394e29d83611324046c38eb14ee49'', hex32 ''9235b080b6ca2e7b2a7af7a46ac4f677bfa394e29d83611324046c38eb14ee49'',
         hex32 ''dcb5d89f40d57b9da9cd1f677c789584e4e88e1cdfd7a91d561757e23e73aa45'', hex32 ''c7925c95410d4ad451f9bc995852127f169bef4fd75f2c23f9472620ddd59f91'',
         hex32 ''14e2ecd186552e1dfb1f2d5233657b69e0b398d7ec405bb68071ee19d3009f04'', hex32 ''e404b380c6bd7ab0577a5e6809a3338d28d191137e7581bdd23eb3e893ca9e6a''),
        (hex32 ''ec0dc859299bcc7146d9ba74956ff67334454e23c0d9fd3e55302f94b09a742b'', hex32 ''ec0dc859299bcc7146d9ba74956ff67334454e23c0d9fd3e55302f94b09a742b'',
         hex32 ''c08908eb1a58eb1df74e54415cdd4977c20023cc7f5dff771c38f26491367b6e'', hex32 ''0ec2a175b1efc3835a8d1497f914ef39ec4ba0ea7a60cf4cb440586fa74fcd99'',
         hex32 ''f49fda7f7db9af41fd4095a7bf37745e4cc30f9b592c1563ecc5fe2292e9f309'', hex32 ''e0520566773304de5fd0d448b0ca76b6a2c7edd66d90b4dba36785e64ba65949'')]
            (hex32 ''0e42eb6f65a8ef5e3f3c3cdb5b2c3be646e791abd76e2224d5847cde786b2e01'')
            [hex32 ''0e42eb6f65a8ef5e3f3c3cdb5b2c3be646e791abd76e2224d5847cde786b2e01'']
            True evm)),
        spec_bootnodes = boot_nodes,
        spec_telemetry = telemetry_new L [(TELEMETRY_URL, 0)],
        spec_protocol = Some ''iris'', spec_properties = token_properties\<rparr>)))"

section \<open>What the pallets require of a genesis\<close>

text \<open>
  The balances pallet refuses two entries for one account; the staking pallet
  refuses a stash that cannot cover its bond, and a stash or a controller that is named
  twice, and needs at least as many validators as the minimum; the session pallet needs
  keys for the stashes and refuses a key that two of them have for the same purpose,
  and with it the pallets that take their authorities from the session must not be
  given any; the sudo account must be able to pay for its calls.
\<close>

definition genesis_wellformed :: "genesis_config \<Rightarrow> bool" where
  "genesis_wellformed g \<longleftrightarrow>
     distinct (map fst (g_balances g)) \<and>
     list_all (\<lambda>(stash, controller, bond, status).
       \<exists>v. map_of (g_balances g) stash = Some v \<and> bond \<le> v) (stakers (g_staking g)) \<and>
     distinct (map fst (stakers (g_staking g))) \<and>
     distinct (map (fst \<circ> snd) (stakers (g_staking g))) \<and>
     map fst (g_session_keys g) = map fst (stakers (g_staking g)) \<and>
     list_all (\<lambda>key. distinct (map (key \<circ> snd \<circ> snd) (g_session_keys g)))
       [sk_grandpa, sk_babe, sk_im_online, sk_authority_discovery] \<and>
     g_babe_authorities g = [] \<and> g_grandpa_authorities g = [] \<and> g_discovery_keys g = [] \<and>
     invulnerables (g_staking g) = map fst (stakers (g_staking g)) \<and>
     0 < minimum_validator_count (g_staking g) \<and>
     unat (minimum_validator_count (g_staking g)) \<le> length (stakers (g_staking g)) \<and>
     map_of (g_balances g) (g_sudo g) \<noteq> None"

text \<open>The development seeds the specifications name.\<close>

definition dev_seeds :: "string list" where
  "dev_seeds = (let names = [''Alice'', ''Bob'', ''Charlie'', ''Dave'', ''Eve'', ''Ferdie'']
     in names @ map (\<lambda>n. n @ ''//stash'') names)"

text \<open>The account of a development seed.\<close>

definition seed_account :: "('m, 'tel) spec_library \<Rightarrow> string \<Rightarrow> account_id" where
  "seed_account L seed = public_into_account L (the (public_from_string L AccountKey (''//'' @ seed)))"

text \<open>The keys of a development seed.\<close>

definition seed_key :: "('m, 'tel) spec_library \<Rightarrow> key_type \<Rightarrow> string \<Rightarrow> public_key" where
  "seed_key L k seed = the (public_from_string L k (''//'' @ seed))"

definition seed_keys :: "('m, 'tel) spec_library \<Rightarrow> string \<Rightarrow> session_keys_record" where
  "seed_keys L seed =
     \<lparr>sk_grandpa = seed_key L GrandpaKey seed, sk_babe = seed_key L BabeKey seed,
      sk_im_online = seed_key L ImOnlineKey seed, sk_authority_discovery = seed_key L DiscoveryKey seed\<rparr>"

text \<open>
  Documented behaviour of key derivation: every development seed gives keys, and
  different seeds give different keys of each type and different accounts.
\<close>

definition derives_keys :: "('m, 'tel) spec_library \<Rightarrow> bool" where
  "derives_keys L \<longleftrightarrow>
     (\<forall>k. \<forall>s\<in>set dev_seeds. public_from_string L k (''//'' @ s) \<noteq> None) \<and>
     (\<forall>k. inj_on (seed_key L k) (set dev_seeds)) \<and> inj_on (seed_account L) (set dev_seeds)"

text \<open>Documented behaviour of the address parser: forty hexadecimal digits are an address.\<close>

definition is_hex_char :: "char \<Rightarrow> bool" where
  "is_hex_char ch \<longleftrightarrow> ch \<in> set ''0123456789abcdefABCDEF''"

definition parses_addresses :: "('m, 'tel) spec_library \<Rightarrow> bool" where
  "parses_addresses L \<longleftrightarrow>
     (\<forall>s. length s = 40 \<and> list_all is_hex_char s \<longrightarrow> parse_h160 L s \<noteq> None)"

text \<open>Documented behaviour of the network address parser: the four boot node addresses are valid.\<close>

definition boot_addresses :: "string list" where
  "boot_addresses =
     [''/dns/seed1.rose-cc2.clovernode.com/tcp/30333/p2p/12D3KooWPb5VY3dzydLFVh4Bn8sk73QvicvVoYcHQawRgicuMNwJ'',
      ''/dns/seed2.rose-cc2.clovernode.com/tcp/30333/p2p/12D3KooWG4jPV345wrEE23tdRh69i9YH5BtSo8RhToPj4fTaJgkZ'',
      ''/dns/seed1.iris-cc2.clover.finance/tcp/30333/p2p/12D3KooWFtshqoFL1hAwseGc4WuFeREKicjFR15JiVEaJiHnDvn2'',
      ''/dns/seed2.iris-cc2.clover.finance/tcp/30333/p2p/12D3KooWBcU1EShS2azLwQhKVKyeXU2cc3CWyhuN8wJwEKaRVNe8'']"

definition parses_boot_nodes :: "('m, 'tel) spec_library \<Rightarrow> bool" where
  "parses_boot_nodes L \<longleftrightarrow> list_all (\<lambda>a. parse_multiaddr L a \<noteq> None) boot_addresses"

text \<open>The specification a \<open>--chain\<close> argument selects.\<close>

fun chain_config ::
  "('m, 'tel) spec_library \<Rightarrow> (string \<Rightarrow> (('m, 'tel) chain_spec, string) result may_panic) \<Rightarrow>
   chain_choice \<Rightarrow> (('m, 'tel) chain_spec, string) result may_panic" where
  "chain_config L from_json Development = development_config L"
| "chain_config L from_json LocalTestnet = local_testnet_config L"
| "chain_config L from_json RoseTestnet = local_rose_testnet_config L"
| "chain_config L from_json IrisTestnet = iris_testnet_config L"
| "chain_config L from_json (JsonFile path) = from_json path"

text \<open>The arguments of \<open>--chain\<close> that name a built-in specification, with its identifier.\<close>

definition builtin_ids :: "(string \<times> string) list" where
  "builtin_ids = [(''dev'', ''dev''), ('''', ''local_testnet''), (''local'', ''local_testnet''),
     (''rose'', ''rose''), (''iris'', ''iris'')]"

section \<open>A library for witnesses\<close>

text \<open>Keys made of the characters of the secret string, padded to 32 bytes.\<close>

definition demo_key :: "string \<Rightarrow> public_key" where
  "demo_key s = Bytes (take 32 (ascii s @ replicate 32 0))"

definition demo_spec :: "(string, string) spec_library" where
  "demo_spec =
     \<lparr>public_from_string = (\<lambda>k s. Some (demo_key s)), public_into_account = (\<lambda>p. p),
      parse_h160 = (\<lambda>s. Some zero_array), parse_multiaddr = (\<lambda>a. Some a),
      telemetry_new = (\<lambda>xs. Some (fst (hd xs))), wasm_binary = Some [0]\<rparr>"

section \<open>Laws\<close>

lemma panic_bind_Returns [simp]:
  "panic_bind m f = Returns y \<longleftrightarrow> (\<exists>x. m = Returns x \<and> f x = Returns y)"
  by (cases m) simp_all

lemma unwrap_opt_simps [simp]: "unwrap_opt (Some x) = Returns x" "unwrap_opt None = Panics"
  by (simp_all add: unwrap_opt_def)

lemma panic_all_Returns: "panic_all (map (\<lambda>x. Returns (f x)) xs) = Returns (map f xs)"
  by (induction xs) simp_all

lemma dom_insert_endowed: "dom (insert_endowed xs m) = set xs \<union> dom m"
  by (induction xs arbitrary: m) auto

lemma map_of_const: "map_of (map (\<lambda>k. (k, v)) ks) k = (if k \<in> set ks then Some v else None)"
  by (induction ks) auto

lemma map_of_stash:
  "map_of (map (\<lambda>x. (fst x, v)) as) k = (if k \<in> fst ` set as then Some v else None)"
  by (induction as) auto

text \<open>Authorities that share neither a controller nor a key.\<close>

definition separate :: "authority list \<Rightarrow> bool" where
  "separate as \<longleftrightarrow>
     distinct (map (\<lambda>(stash, controller, babe, grandpa, im_online, discovery). controller) as) \<and>
     distinct (map (\<lambda>(stash, controller, babe, grandpa, im_online, discovery). babe) as) \<and>
     distinct (map (\<lambda>(stash, controller, babe, grandpa, im_online, discovery). grandpa) as) \<and>
     distinct (map (\<lambda>(stash, controller, babe, grandpa, im_online, discovery). im_online) as) \<and>
     distinct (map (\<lambda>(stash, controller, babe, grandpa, im_online, discovery). discovery) as)"

lemma testnet_genesis_wellformed:
  fixes authorities :: "authority list"
  assumes "distinct (endowed @ map fst authorities)" and "authorities \<noteq> []"
    and "length authorities < 2 ^ 32" and "root \<in> set endowed" and "separate authorities"
  shows "genesis_wellformed (testnet_genesis wasm authorities root endowed p evm)"
proof -
  let ?g = "testnet_genesis wasm authorities root endowed p evm"
  have fst_bal: "map fst (g_balances ?g) = endowed @ map fst authorities"
    by (simp add: testnet_genesis_def Let_def o_def)
  have bal: "g_balances ?g = map (\<lambda>k. (k, ENDOWMENT)) endowed @ map (\<lambda>x. (fst x, AUTHOR_BALANCE)) authorities"
    by (simp add: testnet_genesis_def Let_def)
  have stash: "map_of (g_balances ?g) (fst x) = Some AUTHOR_BALANCE" if "x \<in> set authorities" for x
    using that assms(1)
    by (auto simp: bal map_add_def map_of_const map_of_stash split: option.splits)
  have "STASH \<le> AUTHOR_BALANCE"
    by (simp add: STASH_def AUTHOR_BALANCE_def DOLLARS_def)
  then have bonds: "list_all (\<lambda>(st, c, bond, status).
      \<exists>v. map_of (g_balances ?g) st = Some v \<and> bond \<le> v) (stakers (g_staking ?g))"
    using stash by (auto simp: testnet_genesis_def Let_def list_all_iff)
  have n: "unat (of_nat (length authorities) :: u32) = length authorities"
    using assms(3) by (simp add: unsigned_of_nat take_bit_nat_eq_self)
  then have count: "0 < (of_nat (length authorities) :: u32)"
    using assms(2) by (metis length_greater_0_conv unat_gt_0 word_neq_0_conv not_gr_zero)
  have sudo: "map_of (g_balances ?g) root \<noteq> None"
    using assms(4) by (auto simp: bal map_add_def map_of_const map_of_stash split: option.splits)
  show ?thesis
    unfolding genesis_wellformed_def fst_bal
    using assms(1,5) bonds n count sudo
    by (auto simp: testnet_genesis_def Let_def case_prod_beta' o_def separate_def session_keys_def)
qed

lemma derives_keys_Some:
  "derives_keys L \<Longrightarrow> s \<in> set dev_seeds \<Longrightarrow> \<exists>p. public_from_string L k (''//'' @ s) = Some p"
  unfolding derives_keys_def by blast

lemma get_from_seed_Returns:
  "derives_keys L \<Longrightarrow> s \<in> set dev_seeds \<Longrightarrow> \<exists>p. get_from_seed L k s = Returns p"
  using derives_keys_Some [of L s k] by (auto simp: get_from_seed_def)

lemma account_from_seed [simp]:
  assumes "derives_keys L" and "s \<in> set dev_seeds"
  shows "get_account_id_from_seed L s = Returns (seed_account L s)"
  using derives_keys_Some [OF assms, of AccountKey]
  by (auto simp: get_account_id_from_seed_def get_from_seed_def seed_account_def)

text \<open>The authority of a development seed.\<close>

definition seed_authority :: "('m, 'tel) spec_library \<Rightarrow> string \<Rightarrow> authority" where
  "seed_authority L s =
     (seed_account L (s @ ''//stash''), seed_account L s, seed_key L BabeKey s, seed_key L GrandpaKey s,
      seed_key L ImOnlineKey s, seed_key L DiscoveryKey s)"

lemma key_from_seed:
  "derives_keys L \<Longrightarrow> s \<in> set dev_seeds \<Longrightarrow> get_from_seed L k s = Returns (seed_key L k s)"
  using derives_keys_Some [of L s k] by (auto simp: get_from_seed_def seed_key_def)

lemma authority_from_seed:
  assumes "derives_keys L" and "s \<in> set dev_seeds" and "s @ ''//stash'' \<in> set dev_seeds"
  shows "authority_keys_from_seed L s = Returns (seed_authority L s)"
  using assms by (simp add: authority_keys_from_seed_def seed_authority_def key_from_seed)

lemma seed_authorities_separate:
  assumes "derives_keys L" and "set seeds \<subseteq> set dev_seeds" and "distinct seeds"
  shows "separate (map (seed_authority L) seeds)"
proof -
  have "distinct (map (seed_key L k) seeds)" "distinct (map (seed_account L) seeds)" for k
    using assms by (auto simp: derives_keys_def distinct_map intro: inj_on_subset)
  then show ?thesis by (simp add: separate_def seed_authority_def o_def)
qed

lemma alice_authority: "derives_keys L \<Longrightarrow> authority_keys_from_seed L ''Alice'' = Returns (seed_authority L ''Alice'')"
  by (rule authority_from_seed) (simp_all add: dev_seeds_def)

lemma bob_authority: "derives_keys L \<Longrightarrow> authority_keys_from_seed L ''Bob'' = Returns (seed_authority L ''Bob'')"
  by (rule authority_from_seed) (simp_all add: dev_seeds_def)

lemma distinct_seed_accounts:
  "derives_keys L \<Longrightarrow> set ss \<subseteq> set dev_seeds \<Longrightarrow> distinct ss \<Longrightarrow> distinct (map (seed_account L) ss)"
  unfolding derives_keys_def by (auto simp: distinct_map intro: inj_on_subset)

lemma endowed_parse:
  assumes "parses_addresses L"
  obtains evm evm' where "endowed_evm_account L = Returns evm" "dev_endowed_evm_accounts L = Returns evm'"
proof -
  have p: "\<exists>h. parse_h160 L s = Some h" if "length s = 40" "list_all is_hex_char s" for s
    using assms that by (auto simp: parses_addresses_def)
  have "\<exists>h. parse_h160 L ''9157f0316f375e4ccf67f8d21ae0881d0abcbb21'' = Some h"
    "\<exists>h. parse_h160 L ''6be02d1d3665660d22ff9624b7be0551ee1ac91b'' = Some h"
    "\<exists>h. parse_h160 L ''e6206C7f064c7d77C6d8e3eD8601c9AA435419cE'' = Some h"
    "\<exists>h. parse_h160 L ''aed40f2261ba43b4dffe484265ce82d8ffe2b4db'' = Some h"
    by (rule p; simp add: is_hex_char_def)+
  then show ?thesis
    using that by (auto simp: endowed_evm_account_def dev_endowed_evm_accounts_def)
qed

lemma bytes_list_hex32: "length s = 64 \<Longrightarrow> bytes_list (hex32 s) = hex_literal s"
  by (simp add: hex32_def)

lemma hex32_neq:
  "length s = 64 \<Longrightarrow> length t = 64 \<Longrightarrow> hex_literal (take 2 s) \<noteq> hex_literal (take 2 t) \<Longrightarrow> hex32 s \<noteq> hex32 t"
proof
  assume "length s = 64" "length t = 64" and ne: "hex_literal (take 2 s) \<noteq> hex_literal (take 2 t)"
    and "hex32 s = hex32 t"
  then have "hex_literal s = hex_literal t" by (metis bytes_list_hex32)
  with \<open>length s = 64\<close> \<open>length t = 64\<close> ne show False
    by (cases s rule: hex_literal.cases; cases t rule: hex_literal.cases) auto
qed

text \<open>The authorities and the sudo account both public specifications name.\<close>

definition public_authorities :: "authority list" where
  "public_authorities =
       [(hex32 ''222c5fa244583b1734ceb6515916efc5e103f65b869ebec4e56b989d9dbb446e'', hex32 ''222c5fa244583b1734ceb6515916efc5e103f65b869ebec4e56b989d9dbb446e'',
         hex32 ''005b5b120aabe29673ca587a738ff1032437a388b006b51a9d6ea16f3dee6349'', hex32 ''6575c1155089f6653206ffa533757ef71a9efb2738fb86bcc89128b1517788c0'',
         hex32 ''f8bc696eadcba0561c7a19af387b11f7db04e1d6457d344aa626476d6152a612'', hex32 ''64f317d45163a8b4c1960c60550ea1f70506768a96eac2881f7805b9141d1b11''),
        (hex32 ''9235b080b6ca2e7b2a7af7a46ac4f677bfa394e29d83611324046c38eb14ee49'', hex32 ''9235b080b6ca2e7b2a7af7a46ac4f677bfa394e29d83611324046c38eb14ee49'',
         hex32 ''dcb5d89f40d57b9da9cd1f677c789584e4e88e1cdfd7a91d561757e23e73aa45'', hex32 ''c7925c95410d4ad451f9bc995852127f169bef4fd75f2c23f9472620ddd59f91'',
         hex32 ''14e2ecd186552e1dfb1f2d5233657b69e0b398d7ec405bb68071ee19d3009f04'', hex32 ''e404b380c6bd7ab0577a5e6809a3338d28d191137e7581bdd23eb3e893ca9e6a''),
        (hex32 ''ec0dc859299bcc7146d9ba74956ff67334454e23c0d9fd3e55302f94b09a742b'', hex32 ''ec0dc859299bcc7146d9ba74956ff67334454e23c0d9fd3e55302f94b09a742b'',
         hex32 ''c08908eb1a58eb1df74e54415cdd4977c20023cc7f5dff771c38f26491367b6e'', hex32 ''0ec2a175b1efc3835a8d1497f914ef39ec4ba0ea7a60cf4cb440586fa74fcd99'',
         hex32 ''f49fda7f7db9af41fd4095a7bf37745e4cc30f9b592c1563ecc5fe2292e9f309'', hex32 ''e0520566773304de5fd0d448b0ca76b6a2c7edd66d90b4dba36785e64ba65949'')]"

definition public_root :: account_id where
  "public_root = hex32 ''0e42eb6f65a8ef5e3f3c3cdb5b2c3be646e791abd76e2224d5847cde786b2e01''"

lemma public_accounts_distinct: "distinct (public_root # map fst public_authorities)"
  by (simp add: public_authorities_def public_root_def hex32_neq hex_digit_def)

lemma public_authorities_separate: "separate public_authorities"
  by (simp add: separate_def public_authorities_def hex32_neq hex_digit_def)

lemma demo_wasm: "wasm_binary demo_spec = Some [0]"
  by (simp add: demo_spec_def)

lemma demo_parses_addresses: "parses_addresses demo_spec"
  by (simp add: parses_addresses_def demo_spec_def)

lemma demo_seed_bytes: "distinct (map (\<lambda>s. take 32 (ascii (''//'' @ s) @ replicate 32 0)) dev_seeds)"
  by code_simp

lemma demo_seed_account:
  "bytes_list (seed_account demo_spec s) = take 32 (ascii (''//'' @ s) @ replicate 32 0)"
  by (simp add: seed_account_def demo_spec_def demo_key_def)

lemma demo_derives_keys: "derives_keys demo_spec"
proof -
  have "inj_on (bytes_list \<circ> seed_account demo_spec) (set dev_seeds)"
    using demo_seed_bytes unfolding distinct_map o_def demo_seed_account by blast
  then have "inj_on (seed_account demo_spec) (set dev_seeds)" by (rule inj_on_imageI2)
  moreover have "seed_key demo_spec k = seed_account demo_spec" for k
    by (simp add: fun_eq_iff seed_key_def seed_account_def demo_spec_def)
  ultimately show ?thesis by (simp add: derives_keys_def) (simp add: demo_spec_def)
qed

lemma boot_node_parse:
  "parses_boot_nodes L \<Longrightarrow> i < length boot_addresses \<Longrightarrow>
     \<exists>m. parse_multiaddr L (boot_addresses ! i) = Some m"
  by (auto simp: parses_boot_nodes_def list_all_length)

lemmas boot_nodes_parse = boot_node_parse [of _ 0] boot_node_parse [of _ 1]
  boot_node_parse [of _ 2] boot_node_parse [of _ 3]

section \<open>Properties\<close>

text \<open>
  C38. The development and the local specification build a genesis that the balances,
  staking and session pallets accept: with working key derivation and address parsing,
  no account is endowed twice, every validator's stash covers its bond, stashes,
  controllers and session keys are all different, no pallet is given authorities beside
  the session's, and the sudo account is endowed. The session keys are those of the
  seeds of Alice, and on the local network of Bob, each key for its own purpose.
\<close>

theorem seed_genesis_wellformed:
  assumes "derives_keys L" and "parses_addresses L" and "wasm_binary L = Some wasm"
    and "(config, seeds) \<in> {(development_config L, [''Alice'']), (local_testnet_config L, [''Alice'', ''Bob''])}"
  shows "\<exists>spec g. config = Returns (Ok spec) \<and> spec_genesis spec = Returns g \<and> genesis_wellformed g \<and>
    g_session_keys g =
      map (\<lambda>s. (seed_account L (s @ ''//stash''), seed_account L (s @ ''//stash''), seed_keys L s)) seeds"
proof -
  obtain evm evm' where evm: "endowed_evm_account L = Returns evm" "dev_endowed_evm_accounts L = Returns evm'"
    using assms(2) by (rule endowed_parse)
  have acc: "get_account_id_from_seed L s = Returns (seed_account L s)" if "s \<in> set dev_seeds" for s
    using assms(1) that by simp
  note accounts = alice_authority [OF assms(1)] bob_authority [OF assms(1)] acc dev_seeds_def
  have sep: "separate (map (seed_authority L) [''Alice''])" "separate (map (seed_authority L) [''Alice'', ''Bob''])"
    by (rule seed_authorities_separate [OF assms(1)]; simp add: dev_seeds_def)+
  have dev: "distinct (map (seed_account L) [''Alice'', ''Bob'', ''Bob//stash'', ''Alice//stash''])"
    by (rule distinct_seed_accounts [OF assms(1)]) (simp_all add: dev_seeds_def)
  have local: "distinct (map (seed_account L) [''Alice'', ''Bob'', ''Charlie'', ''Dave'', ''Eve'', ''Ferdie'',
      ''Charlie//stash'', ''Dave//stash'', ''Eve//stash'', ''Ferdie//stash'', ''Alice//stash'', ''Bob//stash''])"
    by (rule distinct_seed_accounts [OF assms(1)]) (simp_all add: dev_seeds_def)
  have keys: "g_session_keys (testnet_genesis w (map (seed_authority L) ss) r e b m) =
      map (\<lambda>s. (seed_account L (s @ ''//stash''), seed_account L (s @ ''//stash''), seed_keys L s)) ss" for w ss r e b m
    by (simp add: testnet_genesis_def Let_def seed_authority_def session_keys_def seed_keys_def)
  have ?thesis if "config = development_config L" "seeds = [''Alice'']"
    unfolding that using dev sep(1) keys [of wasm "[''Alice'']"]
    by (simp add: development_config_def with_wasm_def assms(3) evm accounts)
      (rule testnet_genesis_wellformed, simp_all add: seed_authority_def)
  moreover have ?thesis if "config = local_testnet_config L" "seeds = [''Alice'', ''Bob'']"
    unfolding that using local sep(2) keys [of wasm "[''Alice'', ''Bob'']"]
    by (simp add: local_testnet_config_def with_wasm_def assms(3) evm accounts)
      (rule testnet_genesis_wellformed, simp_all add: seed_authority_def)
  ultimately show ?thesis using assms(4) by blast
qed

theorem seed_genesis_wellformed_witness:
  "\<exists>spec g. local_testnet_config demo_spec = Returns (Ok spec) \<and> spec_genesis spec = Returns g \<and>
     genesis_wellformed g \<and> map fst (g_session_keys g) =
       [seed_account demo_spec ''Alice//stash'', seed_account demo_spec ''Bob//stash'']"
proof -
  have "(local_testnet_config demo_spec, [''Alice'', ''Bob'']) \<in>
      {(development_config demo_spec, [''Alice'']), (local_testnet_config demo_spec, [''Alice'', ''Bob''])}" by simp
  from seed_genesis_wellformed [OF demo_derives_keys demo_parses_addresses demo_wasm this] show ?thesis by force
qed

text \<open>
  The rose and the iris test network start from the same genesis, and it is well
  formed: three validators, bonded from their own balance, and an endowed sudo
  account. Both let contracts print, as every specification of this file does.
\<close>

theorem public_genesis_wellformed:
  assumes "parses_addresses L" and "parses_boot_nodes L" and "wasm_binary L = Some wasm"
  shows "\<exists>rose iris g. local_rose_testnet_config L = Returns (Ok rose) \<and>
    iris_testnet_config L = Returns (Ok iris) \<and> spec_genesis rose = Returns g \<and>
    spec_genesis iris = Returns g \<and> genesis_wellformed g \<and> length (stakers (g_staking g)) = 3 \<and>
    g_enable_println g"
proof -
  obtain evm evm' where evm: "endowed_evm_account L = Returns evm" "dev_endowed_evm_accounts L = Returns evm'"
    using assms(1) by (rule endowed_parse)
  note boots = boot_nodes_parse [OF assms(2)]
  have wf: "genesis_wellformed (testnet_genesis wasm public_authorities public_root [public_root] True evm)"
    by (rule testnet_genesis_wellformed) (use public_accounts_distinct public_authorities_separate in \<open>simp_all add: public_authorities_def\<close>)
  obtain rose where rose: "local_rose_testnet_config L = Returns (Ok rose)"
    "spec_genesis rose = Returns (testnet_genesis wasm public_authorities public_root [public_root] True evm)"
    using boots by (auto simp: boot_addresses_def local_rose_testnet_config_def with_wasm_def assms(3) evm
        public_authorities_def public_root_def)
  obtain iris where iris: "iris_testnet_config L = Returns (Ok iris)"
    "spec_genesis iris = Returns (testnet_genesis wasm public_authorities public_root [public_root] True evm)"
    using boots by (auto simp: boot_addresses_def iris_testnet_config_def with_wasm_def assms(3) evm
        public_authorities_def public_root_def)
  show ?thesis
    using rose iris wf by (auto simp: testnet_genesis_def Let_def public_authorities_def)
qed

theorem public_genesis_wellformed_witness:
  "\<exists>rose iris g. local_rose_testnet_config demo_spec = Returns (Ok rose) \<and>
    iris_testnet_config demo_spec = Returns (Ok iris) \<and> spec_genesis rose = Returns g \<and>
    spec_genesis iris = Returns g \<and> genesis_wellformed g \<and> length (stakers (g_staking g)) = 3 \<and>
    g_enable_println g"
  by (rule public_genesis_wellformed [OF demo_parses_addresses _ demo_wasm])
    (simp add: parses_boot_nodes_def boot_addresses_def demo_spec_def)

text \<open>
  Loading a built-in specification fails exactly when the runtime's wasm code is
  not built in, with the one error message; otherwise it gives the specification whose
  identifier belongs to the argument (\<open>local\<close> and the empty string both select
  \<open>local_testnet\<close>).
\<close>

theorem load_spec_builtin:
  assumes "parses_boot_nodes L" and "map_of builtin_ids i = Some sid"
  shows "case wasm_binary L of
      None \<Rightarrow> load_spec (chain_config L from_json) i = Returns (Err ''Development wasm binary not available'')
    | Some wasm \<Rightarrow> \<exists>spec. load_spec (chain_config L from_json) i = Returns (Ok spec) \<and> spec_id spec = sid"
proof -
  note configs = development_config_def local_testnet_config_def local_rose_testnet_config_def
    iris_testnet_config_def
  note boots = boot_nodes_parse [OF assms(1)]
  show ?thesis
  proof (cases "wasm_binary L")
    case None
    then show ?thesis
      using assms(2)
      by (auto simp: builtin_ids_def load_spec_def chain_of_id_def configs with_wasm_def split: if_splits)
  next
    case (Some wasm)
    then show ?thesis
      using assms(2) boots
      by (auto simp: builtin_ids_def boot_addresses_def load_spec_def chain_of_id_def configs with_wasm_def
          split: if_splits)
  qed
qed

theorem load_spec_builtin_witness:
  "\<exists>spec. load_spec (chain_config demo_spec (\<lambda>path. Returns (Err path))) '''' = Returns (Ok spec) \<and>
     spec_id spec = ''local_testnet''"
proof -
  have "parses_boot_nodes demo_spec" by (simp add: parses_boot_nodes_def boot_addresses_def demo_spec_def)
  moreover have "map_of builtin_ids '''' = Some ''local_testnet''" by (simp add: builtin_ids_def)
  ultimately show ?thesis
    using load_spec_builtin [of demo_spec "''''" "''local_testnet''" "\<lambda>path. Returns (Err path)"] demo_wasm
    by simp
qed

end
