(* ===== verification/Spec2Isabelle.thy ===== *)
theory Spec2Isabelle
  imports Runtime_Supply Claim_Pool Dex_Fairness Pool_Exit Test_Runtimes Keytool Runtime_Api Runtime_Weights
    Runtime_Wiring Rpc Chain_Spec
begin

text \<open>
  \<^bold>\<open>A verification development for the Clover chain\<close> (\<^verbatim>\<open>clover-network/clover\<close>, Rust,
  Substrate).

  \<^bold>\<open>The program.\<close> Clover is a blockchain node. Its runtime (\<^verbatim>\<open>src/runtime\<close>) composes
  pallets of the framework with the pallets of this repository
  (\<^verbatim>\<open>src/modules\<close>): \<open>claims\<close> mints and pays out bridged currency, \<open>reward-pool\<close> and
  \<open>incentives\<close> distribute rewards to liquidity providers, \<open>evm-accounts\<close> binds
  Ethereum addresses to accounts, \<open>evm-interop\<close> sends currency to such addresses,
  and \<open>traits\<close> holds the interfaces between them. Around the runtime stand the node
  (\<^verbatim>\<open>src/node\<close>: command line, service assembly, RPC assembly), an RPC crate
  (\<^verbatim>\<open>src/rpc\<close>) and a key tool (\<^verbatim>\<open>src/bin/keytool\<close>).

  \<^bold>\<open>How code is represented.\<close> Machine integers are words of their width, and every
  checked, saturating or wrapping operation is the one the source calls
  (\<open>Prelude\<close>). A pallet's storage is a record; a pallet function is a computation
  \<open>state \<Rightarrow> state \<times> result\<close>: an error is a value, and the writes made before it stay
  unless the function is transactional, as in the framework. \<open>unwrap\<close>, slice
  copies and indexing that can panic return \<open>may_panic\<close>. Code outside the
  repository (framework pallets, host cryptography, codecs, the EVM, the node
  framework) is an argument of the definitions that call it, a record of functions
  like the associated types of a \<open>Config\<close> trait; what a property needs of it is a
  named predicate that appears among its hypotheses, and its witness satisfies the
  predicate with a concrete instance (names starting with \<open>demo\<close>). The interfaces
  inside the repository are locales, interpreted on the model's definitions.

  \<^bold>\<open>Theories.\<close>

  \<^item> \<open>Prelude\<close>: words, results and computations, byte arrays, storage maps, runs of
    state machines (locales \<open>step_invariant\<close>, \<open>step_order\<close>, \<open>step_simulation\<close> for runs
    that execute a given list of abstract events, and \<open>step_budget\<close> for a quantity that
    every step changes by a known amount).
  \<^item> \<open>Primitives\<close>: \<^verbatim>\<open>primitives/src/lib.rs\<close>, \<^verbatim>\<open>modules/type-utils\<close>, the error enums.
  \<^item> \<open>Frame\<close>: the framework services the pallets call, and their laws.
  \<^item> \<open>Ethereum_Address\<close>: \<^verbatim>\<open>modules/claims/src/ethereum_address.rs\<close> and the message that
    Ethereum wallets sign. The hex encoder is inverted by reading two digits per
    byte; the message determines its parts.
  \<^item> \<open>Claims\<close>: \<^verbatim>\<open>modules/claims/src/lib.rs\<close>; \<open>claims_state\<close> is its storage,
    \<open>claims_dispatch\<close> its calls, \<open>on_runtime_upgrade\<close> its migration. Per network, what
    is paid never exceeds what is minted, minting consumes the limit, a transaction
    is minted once and claimed once, over every sequence of extrinsics and upgrades;
    the pool's validation accepts exactly the claims that succeed.
  \<^item> \<open>Bridge_Ledger\<close>: an abstract bridge as an inductive relation labelled with events
    (mint, pay, allow, import), which the claims pallet refines: a run executes exactly
    the events its successful calls are meant to be, each with its guard met. So a
    transaction passes from unknown to payable to paid and never back, and a payable
    one can always be claimed.
  \<^item> \<open>Bridge_Supply\<close>: what the pallet does to the total issuance: it gains the claims
    paid and the mint fees and loses what is burned.
  \<^item> \<open>Claim_Pool\<close>: unsigned claims on their way into a block, by the priority and the tags
    that validation gives them. The transaction pool is the framework's: its content and
    its admission of a transaction are parameters, with what is documented of them as
    hypotheses. Claims that the pool offers on a state all succeed in a block built on
    it, in every order and with other calls in between; a beneficiary can have one claim
    in the pool at a time.
  \<^item> \<open>Reward_Pool\<close>: \<^verbatim>\<open>modules/reward-pool\<close> with its traits. The shares of a pool are
    the sum over its accounts, withdrawable plus borrowed rewards stay within the
    total, and the sub-account holds what can be withdrawn; the locale
    \<open>reward_pool_contract\<close> is what clients rely on, \<open>reward_schedule\<close> what a reward
    handler promises.
  \<^item> \<open>Incentives\<close>: \<^verbatim>\<open>modules/incentives\<close>, a client of the first contract and a provider
    of the second: rewards do not depend on when pools are updated.
  \<^item> \<open>Pool_Fairness\<close>: who gets what from a pool. The reference shares every reward out
    when it is credited, by the shares held then, and what an unpaid removal leaves
    behind among the shares that remain; over every run, what an account received and
    could still take out agrees with it up to the rounding of the fixed-point numbers in
    the operations carried out (an instance of \<open>step_budget\<close>).
  \<^item> \<open>Pool_Exit\<close>: exactly when an account can take all of its shares out of a pool, that
    an account which is worth more than the rounding can and is paid its worth, and that
    a visit within one block locks the last holder in.
  \<^item> \<open>Dex_Fairness\<close>: the same for the pool with the incentives as its handler, where the
    reference pays the rate of a pair at every block.
  \<^item> \<open>Pool_Mock\<close>, \<open>Claims_Mock\<close>, \<open>Test_Runtimes\<close>: the runtimes the pallets are tested on,
    with the loop that runs hooks up to a block, and the tests run on the model: those
    of the claims and the interop pallet pass, two of the five of the reward pool are
    outdated.
  \<^item> \<open>Evm_Accounts\<close>: \<^verbatim>\<open>modules/evm-accounts\<close>. The two maps are inverse in every
    reachable state, and only a signature of the address binds it; the locale
    \<open>address_mapping\<close> is what the EVM relies on.
  \<^item> \<open>Evm_Interop\<close>: \<^verbatim>\<open>modules/evm-interop\<close>, \<^verbatim>\<open>modules/traits/src/account.rs\<close> and
    \<open>MergeAccountEvm\<close> of \<^verbatim>\<open>runtime/src/impls.rs\<close>. Merging moves everything; currency
    sent to a claimed address reaches the account that claimed it.
  \<^item> \<open>Keytool\<close>: \<^verbatim>\<open>bin/keytool/src/main.rs\<close>; the printed address is the one the chain
    recovers from the printed key's signatures.
  \<^item> \<open>Runtime_Config\<close>: the constants, parameter types, origin rules and pallet list of
    the runtime, with the relations its comments claim.
  \<^item> \<open>Runtime\<close>: the runtime's functions: fees, votes, transaction construction, the
    Ethereum author and the Ethereum runtime API.
  \<^item> \<open>Runtime_Weights\<close>: the parameters computed from weights and the reward curve.
  \<^item> \<open>Runtime_Wiring\<close>: which pallet every \<open>Config\<close> of the runtime relies on; the wiring
    is closed, offences reach staking and the treasury, and the handlers of slashed and
    forfeited money are the treasury's.
  \<^item> \<open>Runtime_Api\<close>: BABE configuration, equivocation reports, the EVM's configuration,
    and the table of all implemented APIs with what each method runs: the APIs that the
    node's RPC needs are there, those that the \<^verbatim>\<open>rpc\<close> crate needs are not.
  \<^item> \<open>Runtime_State\<close>: the runtime as a whole: the configurations of the pallets of the
    repository on one chain state, with the hooks on removed accounts. The laws that
    the accounts pallet assumes of merging and killing are proved of this wiring, so
    that the books balance and the mapping is two-way in every state of the chain
    without assumptions; the whole runtime refines an abstract chain of the bridge and
    an address book, in which an address is bound only with its consent.
  \<^item> \<open>Runtime_Supply\<close>: the total issuance of the composed chain: it gains the claims paid
    and the mint fees, loses what is burned, and otherwise changes by what the
    framework's pallets issue; merges, transfers and hooks leave it alone.
  \<^item> \<open>Rpc\<close>: the endpoints of \<^verbatim>\<open>rpc/src\<close> over \<^verbatim>\<open>rpc/runtime-api\<close>; the locale
    \<open>reporting_endpoint\<close> is the contract seven of them meet. The node links the
    crate but installs none of its endpoints.
  \<^item> \<open>Node\<close>: \<^verbatim>\<open>node/src\<close>: a start is the list of framework calls it makes, with the
    objects that the tasks and the RPC extensions share.
  \<^item> \<open>Chain_Spec\<close>: \<^verbatim>\<open>node/src/chain_spec.rs\<close>: the four built-in specifications and the
    genesis they build, which is one the balances, staking and session pallets accept:
    accounts, stashes, controllers and session keys are distinct.

  This theory adds what spans pallets: messages signed for one pallet are never
  messages of the other.

  \<^bold>\<open>Bounds and termination.\<close> No fuel is used: loops of the source run over lists
  or divide a counter, and every recursive definition is total. The one loop that need
  not end, \<open>run_to_block\<close> of the test runtime, whose hooks could write the block number,
  is \<open>while_option\<close>, and it is proved to end when they do not. Hypotheses on sizes
  are stated where the code has a bound: rewards below \<open>2 ^ 127\<close> where the code
  casts to a signed amount, rates below \<open>2 ^ 95\<close> so that the product with a 32-bit
  block count stays below it, block numbers of filters away from the end of \<open>u64\<close>.

  \<^bold>\<open>Not modelled.\<close> Macro-generated code (SCALE codecs, metadata, the dispatch tables
  of \<open>construct_runtime!\<close> beyond the pallet list and the calls of the repository's
  pallets), the functions of framework pallets that methods of \<open>impl_runtime_apis!\<close>
  forward to (the table names them), the items of \<open>Config\<close> implementations that only name a data type or a weight of
  the framework, weights of calls other than the ones the repository defines, the
  genesis entries that are the default of their pallet, the configurations of
  framework pallets in the mocks, build scripts,
  and the \<open>Debug\<close> output of types. The price trait has neither an implementation nor
  a caller. What remains of the sources beyond these is declarations: imports, module
  and type aliases, trait bounds, and macros that declare what the records and
  datatypes here represent.
\<close>

section \<open>Messages of the two pallets\<close>

text \<open>A maximal run of elements that satisfy a predicate is determined by the list.\<close>

lemma run_then_other:
  assumes "xs @ a # as = ys @ b # bs" and "\<And>x. x \<in> set xs \<Longrightarrow> P x" and "\<And>y. y \<in> set ys \<Longrightarrow> P y"
    and "\<not> P a" and "\<not> P b"
  shows "xs = ys \<and> a = b \<and> as = bs"
proof -
  have "takeWhile P (xs @ a # as) = xs" "takeWhile P (ys @ b # bs) = ys"
    using assms(2-5) by (simp_all add: takeWhile_append2)
  with assms(1) have "xs = ys" by metis
  with assms(1) show ?thesis by simp
qed

text \<open>
  Two messages with prefixes that start with different characters, neither a
  digit, differ: the length before the prefix ends where the prefix starts.
\<close>

lemma messages_by_prefix:
  assumes "ethereum_signable_message (a # p) what extra = ethereum_signable_message (b # q) what' extra'"
    and "\<not> (48 \<le> unat a \<and> unat a \<le> 57)" and "\<not> (48 \<le> unat b \<and> unat b \<le> 57)"
  shows "a = b"
proof -
  obtain l l' where "rev (rev_digits l) @ a # (p @ what @ extra) = rev (rev_digits l') @ b # (q @ what' @ extra')"
    using assms(1) by (auto simp: ethereum_signable_message_def Let_def)
  from run_then_other [OF this, of "\<lambda>d. 48 \<le> unat d \<and> unat d \<le> 57"] assms(2,3)
  show ?thesis by (auto dest: rev_digits_range)
qed

text \<open>
  C31. A signature for one pallet is never a signature for the other: no message the
  claims pallet asks an Ethereum key to sign, with the prefix the runtime
  configures, is a message the EVM-accounts pallet asks it to sign, whatever the
  accounts and transactions in them.
\<close>

theorem signed_messages_separate:
  "ethereum_signable_message (Prefix claims_params) what extra \<noteq> evm_signable_message what' extra'"
proof
  assume "ethereum_signable_message (Prefix claims_params) what extra = evm_signable_message what' extra'"
  then have "ethereum_signable_message (80 # ascii ''ay CLVs to the Clover account:'') what extra =
      ethereum_signable_message (99 # ascii ''lover evm:'') what' extra'"
    by (simp add: evm_signable_message_eq claims_params_def evm_prefix_def ascii_def)
  then have "(80 :: u8) = 99" by (rule messages_by_prefix) simp_all
  then show False by simp
qed

end
